theory Spec2Isabelle
  imports Complex_Main
begin

section \<open>Font registry of the FreeType/HarfBuzz/ICU text engine\<close>

text \<open>
  The engine is the class \<open>FTTextEngineImpl\<close> of \<open>RaylibSDFTextEx.cpp\<close>. Its member
  variables become the fields of the record \<open>engine\<close>; every member function takes the
  engine and, where it mutates members, returns the new engine. C++ \<open>float\<close> values are
  modelled as exact reals; the decimal literals \<open>0.001f\<close>, \<open>1.2f\<close>, ... are the
  corresponding rationals. FreeType, HarfBuzz and ICU are outside the repository: what the
  engine reads from them is a field of a record or a function argument.
\<close>

type_synonym FontId = int

definition INVALID_FONT_ID :: FontId where
  "INVALID_FONT_ID = -1"

record FontProperties =
  unitsPerEm :: int
  hasTypoMetrics :: bool
  typoAscender :: int
  typoDescender :: int
  typoLineGap :: int
  hheaAscender :: int
  hheaDescender :: int
  hheaLineGap :: int

text \<open>
  The OS/2 table as \<open>FT_Get_Sfnt_Table(face, ft_sfnt_os2)\<close> returns it, and the part of an
  \<open>FT_Face\<close> the engine reads: \<open>char_index\<close> is \<open>FT_Get_Char_Index\<close> (0 is the
  \<open>.notdef\<close> glyph), \<open>set_pixel_sizes_error n\<close> tells whether
  \<open>FT_Set_Pixel_Sizes(face, 0, n)\<close> reports an error, and \<open>load_render gid n sdf\<close> is
  the outcome of \<open>FT_Load_Glyph\<close> followed by \<open>FT_Render_Glyph\<close> (in SDF mode when
  \<open>sdf\<close>) at pixel size \<open>n\<close>, with the glyph slot as it is afterwards.
\<close>

record TT_OS2 =
  os2_version :: nat
  sCapHeight :: int
  sxHeight :: int

datatype FT_status = FT_Ok | FT_Load_Error | FT_Render_Error

record FT_GlyphSlot =
  horiAdvance :: int
  horiBearingY :: int
  metrics_height :: int
  bitmap_buffer :: bool
  bitmap_width :: int
  bitmap_rows :: int
  bitmap_left :: int
  bitmap_top :: int

record FT_Face =
  char_index :: "nat \<Rightarrow> nat"
  load_render :: "nat \<Rightarrow> nat \<Rightarrow> bool \<Rightarrow> FT_status \<times> FT_GlyphSlot"
  units_per_EM :: int
  underline_position :: int
  underline_thickness :: int
  os2_table :: "TT_OS2 option"
  set_pixel_sizes_error :: "nat \<Rightarrow> bool"

record FTFontData =
  ftFace :: "FT_Face option"
  properties :: FontProperties
  sdfPixelSizeHint :: int
  yStrikeoutPosition_fontUnits :: int
  yStrikeoutSize_fontUnits :: int

record FTGlyphCacheKey =
  key_fontId :: FontId
  key_glyphIndex :: nat
  key_sdfPixelSize :: int
  key_isSDF :: bool

record GlyphRenderInfo =
  atlasTextureId :: nat
  atlasRect :: "real \<times> real \<times> real \<times> real"
  drawOffset :: "real \<times> real"
  ri_isSDF :: bool

record FTCachedGlyph =
  renderInfo :: GlyphRenderInfo
  advanceX_at_cached_size :: real
  ascent_at_cached_size :: real
  descent_at_cached_size :: real

datatype GlyphAtlasType = ALPHA_ONLY_BITMAP | SDF_BITMAP

record engine =
  ftLibrary :: bool
  loadedFonts :: "FontId \<rightharpoonup> FTFontData"
  nextFontId :: FontId
  defaultFontId :: FontId
  fontFallbackChains :: "FontId \<rightharpoonup> FontId list"
  lru_glyph_list :: "FTGlyphCacheKey list"
  glyph_cache_map :: "FTGlyphCacheKey \<rightharpoonup> FTCachedGlyph"
  glyph_cache_capacity :: nat
  atlas_images :: "nat list"
  atlas_textures :: "nat list"
  current_atlas_idx :: int
  current_atlas_pen_pos :: "real \<times> real"
  current_atlas_max_row_height :: real
  atlas_width :: int
  atlas_height :: int
  atlas_type_hint :: GlyphAtlasType

definition IsFontValid :: "engine \<Rightarrow> FontId \<Rightarrow> bool" where
  "IsFontValid s fontId \<longleftrightarrow> fontId \<in> dom (loadedFonts s)"

text \<open>
  \<open>covers s f cp\<close> is the test that \<open>IsCodepointAvailable\<close> repeats for the primary font,
  for every fallback and for the default font: the font is in the registry, its face is not
  null and \<open>FT_Get_Char_Index\<close> is not 0.
\<close>

definition covers :: "engine \<Rightarrow> FontId \<Rightarrow> nat \<Rightarrow> bool" where
  "covers s fontId codepoint =
     (IsFontValid s fontId \<and>
      (case loadedFonts s fontId of
         None \<Rightarrow> False
       | Some fontData \<Rightarrow>
           (case ftFace fontData of
              None \<Rightarrow> False
            | Some face \<Rightarrow> char_index face codepoint \<noteq> 0)))"

definition IsCodepointAvailable :: "engine \<Rightarrow> FontId \<Rightarrow> nat \<Rightarrow> bool \<Rightarrow> bool" where
  "IsCodepointAvailable s fontId codepoint checkFallback =
     (if covers s fontId codepoint then True
      else if checkFallback \<and>
              (case fontFallbackChains s fontId of
                 None \<Rightarrow> False
               | Some chain \<Rightarrow> list_ex (\<lambda>fallbackFontId. covers s fallbackFontId codepoint) chain)
      then True
      else if defaultFontId s \<noteq> INVALID_FONT_ID \<and> defaultFontId s \<noteq> fontId then
        (let checked_default_in_fallback =
               (checkFallback \<and>
                (case fontFallbackChains s fontId of
                   None \<Rightarrow> False
                 | Some chain \<Rightarrow> list_ex (\<lambda>fid. fid = defaultFontId s) chain))
         in \<not> checked_default_in_fallback \<and> covers s (defaultFontId s) codepoint)
      else False)"

subsection \<open>Scaled metrics\<close>

record ScaledFontMetrics =
  scale :: real
  ascent :: real
  descent :: real
  lineGap :: real
  recommendedLineHeight :: real
  capHeight :: real
  xHeight :: real
  underlinePosition :: real
  underlineThickness :: real
  strikeoutPosition :: real
  strikeoutThickness :: real

definition ScaledFontMetrics_default :: ScaledFontMetrics where
  "ScaledFontMetrics_default =
     \<lparr>scale = 1, ascent = 0, descent = 0, lineGap = 0, recommendedLineHeight = 0,
      capHeight = 0, xHeight = 0, underlinePosition = 0, underlineThickness = 0,
      strikeoutPosition = 0, strikeoutThickness = 0\<rparr>"

text \<open>The metrics returned for an invalid font, a size \<open>\<le> 0\<close> or a failed \<open>FT_Set_Pixel_Sizes\<close>.\<close>

definition sentinel_metrics :: "real \<Rightarrow> ScaledFontMetrics" where
  "sentinel_metrics fontSize =
     (let a = (if fontSize > 0 then fontSize else 16) * (3/4);
          d = (if fontSize > 0 then fontSize else 16) * (1/4)
      in ScaledFontMetrics_default\<lparr>ascent := a, descent := d, recommendedLineHeight := a + d\<rparr>)"

definition clamp_thickness :: "real \<Rightarrow> real" where
  "clamp_thickness t = (if t > 0 \<and> t < 1 then 1 else t)"

definition scaled_metrics_of_face :: "FTFontData \<Rightarrow> FT_Face \<Rightarrow> real \<Rightarrow> ScaledFontMetrics" where
  "scaled_metrics_of_face fontData face fontSize =
     (let sc = (if units_per_EM face > 0 then fontSize / real_of_int (units_per_EM face) else 1);
          p = properties fontData;
          a = (if hasTypoMetrics p then real_of_int (typoAscender p) * sc
               else real_of_int (hheaAscender p) * sc);
          d = (if hasTypoMetrics p then - real_of_int (typoDescender p) * sc
               else - real_of_int (hheaDescender p) * sc);
          g = (if hasTypoMetrics p then real_of_int (typoLineGap p) * sc
               else real_of_int (hheaLineGap p) * sc);
          rlh0 = a + d + g;
          rlh = (if rlh0 \<le> 1/1000 then fontSize * (6/5) else rlh0);
          has_os2 = (case os2_table face of None \<Rightarrow> False | Some t \<Rightarrow> os2_version t \<noteq> 65535);
          cap = (case os2_table face of
                   None \<Rightarrow> a * (7/10)
                 | Some t \<Rightarrow> if os2_version t \<noteq> 65535 \<and> sCapHeight t \<noteq> 0
                             then real_of_int (sCapHeight t) * sc else a * (7/10));
          xh = (case os2_table face of
                  None \<Rightarrow> a * (45/100)
                | Some t \<Rightarrow> if os2_version t \<noteq> 65535 \<and> sxHeight t \<noteq> 0
                            then real_of_int (sxHeight t) * sc else a * (45/100));
          sp = (if has_os2 then real_of_int (yStrikeoutPosition_fontUnits fontData) * sc else xh / 2);
          st = (if has_os2 then real_of_int (yStrikeoutSize_fontUnits fontData) * sc else fontSize / 20)
      in \<lparr>scale = sc, ascent = a, descent = d, lineGap = g, recommendedLineHeight = rlh,
          capHeight = cap, xHeight = xh,
          underlinePosition = real_of_int (underline_position face) * sc,
          underlineThickness = clamp_thickness (real_of_int (underline_thickness face) * sc),
          strikeoutPosition = sp,
          strikeoutThickness = clamp_thickness st\<rparr>)"

definition GetScaledFontMetrics :: "engine \<Rightarrow> FontId \<Rightarrow> real \<Rightarrow> ScaledFontMetrics" where
  "GetScaledFontMetrics s fontId fontSize =
     (if \<not> IsFontValid s fontId \<or> fontSize \<le> 0 then sentinel_metrics fontSize
      else case loadedFonts s fontId of
             None \<Rightarrow> sentinel_metrics fontSize
           | Some fontData \<Rightarrow>
               (case ftFace fontData of
                  None \<Rightarrow> sentinel_metrics fontSize
                | Some face \<Rightarrow>
                    if set_pixel_sizes_error face (nat (round fontSize))
                    then sentinel_metrics fontSize
                    else scaled_metrics_of_face fontData face fontSize))"

section \<open>Glyph cache and atlas packer\<close>

type_synonym Rectangle = "real \<times> real \<times> real \<times> real"

text \<open>
  Creating an atlas page calls \<open>GenImageColor\<close> and \<open>LoadTextureFromImage\<close> of
  raylib; \<open>alloc i\<close> is their outcome for page \<open>i\<close>.
\<close>

datatype alloc_result = ImageAllocFailed | TextureAllocFailed | Allocated nat

text \<open>The final check of \<open>findSpaceInAtlasAndPack\<close> and the placement at the pen.\<close>

definition place_in_atlas :: "engine \<Rightarrow> int \<Rightarrow> int \<Rightarrow> Rectangle \<times> engine" where
  "place_in_atlas s width height =
     (let w = real_of_int width; h = real_of_int height;
          (px, py) = current_atlas_pen_pos s
      in if current_atlas_idx s < 0 \<or> nat (current_atlas_idx s) \<ge> length (atlas_textures s) \<or>
            width > atlas_width s \<or> height > atlas_height s \<or>
            py + h > real_of_int (atlas_height s) \<or> px + w > real_of_int (atlas_width s)
         then ((0, 0, 0, 0), s)
         else ((px, py, w, h),
               s\<lparr>current_atlas_pen_pos := (px + w, py),
                 current_atlas_max_row_height := max (current_atlas_max_row_height s) h\<rparr>))"

definition findSpaceInAtlasAndPack ::
  "(int \<Rightarrow> alloc_result) \<Rightarrow> engine \<Rightarrow> int \<Rightarrow> int \<Rightarrow> bool \<Rightarrow> Rectangle \<times> engine" where
  "findSpaceInAtlasAndPack alloc s width height bitmapData =
     (if width \<le> 0 \<or> height \<le> 0 \<or> \<not> bitmapData then ((0, 0, 0, 0), s)
      else
        let w = real_of_int width; h = real_of_int height;
            aw = real_of_int (atlas_width s); ah = real_of_int (atlas_height s);
            (px, py) = current_atlas_pen_pos s;
            fits_row = (px + w \<le> aw \<and> py + h \<le> ah);
            s1 = (if current_atlas_idx s \<noteq> -1 \<and> \<not> fits_row
                  then s\<lparr>current_atlas_pen_pos := (0, py + current_atlas_max_row_height s),
                         current_atlas_max_row_height := 0\<rparr>
                  else s);
            packed_in_current_atlas =
              (current_atlas_idx s \<noteq> -1 \<and>
               snd (current_atlas_pen_pos s1) + h \<le> ah \<and> fst (current_atlas_pen_pos s1) + w \<le> aw)
        in
          if packed_in_current_atlas then place_in_atlas s1 width height
          else
            let s2 = s1\<lparr>current_atlas_idx := current_atlas_idx s1 + 1,
                          current_atlas_pen_pos := (0, 0),
                          current_atlas_max_row_height := 0\<rparr>
            in if nat (current_atlas_idx s2) \<ge> length (atlas_images s2) then
                 (case alloc (current_atlas_idx s2) of
                    ImageAllocFailed \<Rightarrow>
                      ((0, 0, 0, 0), s2\<lparr>current_atlas_idx := current_atlas_idx s2 - 1\<rparr>)
                  | TextureAllocFailed \<Rightarrow>
                      ((0, 0, 0, 0), s2\<lparr>current_atlas_idx := current_atlas_idx s2 - 1\<rparr>)
                  | Allocated tex \<Rightarrow>
                      if tex = 0
                      then ((0, 0, 0, 0), s2\<lparr>current_atlas_idx := current_atlas_idx s2 - 1\<rparr>)
                      else place_in_atlas
                             (s2\<lparr>atlas_images := atlas_images s2 @ [nat (current_atlas_idx s2)],
                                 atlas_textures := atlas_textures s2 @ [tex]\<rparr>) width height)
               else place_in_atlas s2 width height)"


definition FTCachedGlyph_default :: FTCachedGlyph where
  "FTCachedGlyph_default =
     \<lparr>renderInfo = \<lparr>atlasTextureId = 0, atlasRect = (0, 0, 0, 0), drawOffset = (0, 0), ri_isSDF = False\<rparr>,
      advanceX_at_cached_size = 0, ascent_at_cached_size = 0, descent_at_cached_size = 0\<rparr>"

text \<open>
  A cache hit: \<open>lru_glyph_list_.splice(begin, list, it)\<close> moves the node of the key to the
  front. The iterator stored in the map is represented by the key it points to.
\<close>

definition cache_touch :: "engine \<Rightarrow> FTGlyphCacheKey \<Rightarrow> engine" where
  "cache_touch s key = s\<lparr>lru_glyph_list := key # remove1 key (lru_glyph_list s)\<rparr>"

text \<open>
  The block ``cache management'' that ends both get-or-create functions: evict the back of
  the LRU list when the map has reached the capacity, then insert the new key at the front.
\<close>

definition cache_insert :: "engine \<Rightarrow> FTGlyphCacheKey \<Rightarrow> FTCachedGlyph \<Rightarrow> engine" where
  "cache_insert s key g =
     (let s1 = (if card (dom (glyph_cache_map s)) \<ge> glyph_cache_capacity s \<and> lru_glyph_list s \<noteq> []
                then s\<lparr>glyph_cache_map := (glyph_cache_map s)(last (lru_glyph_list s) := None),
                       lru_glyph_list := butlast (lru_glyph_list s)\<rparr>
                else s)
      in s1\<lparr>lru_glyph_list := key # lru_glyph_list s1,
            glyph_cache_map := (glyph_cache_map s1)(key \<mapsto> g)\<rparr>)"

definition sdfGenSize_of :: "FTFontData \<Rightarrow> int" where
  "sdfGenSize_of fontData = (if sdfPixelSizeHint fontData > 0 then sdfPixelSizeHint fontData else 64)"

text \<open>
  Metrics of the glyph slot at the cached size, and packing of its bitmap. In
  \<open>getOrCacheGlyph\<close> an empty bitmap resets the render info explicitly; in
  \<open>getCachedGlyphByGID\<close> that branch is empty and the defaults stay. Both give the same
  value here.
\<close>

definition glyph_from_slot ::
  "(int \<Rightarrow> alloc_result) \<Rightarrow> engine \<Rightarrow> bool \<Rightarrow> FT_GlyphSlot \<Rightarrow> FTCachedGlyph \<times> engine" where
  "glyph_from_slot alloc s isSDF slot =
     (let g0 = FTCachedGlyph_default
                 \<lparr>renderInfo := (renderInfo FTCachedGlyph_default)\<lparr>ri_isSDF := isSDF\<rparr>,
                  advanceX_at_cached_size := real_of_int (horiAdvance slot) / 64,
                  ascent_at_cached_size := real_of_int (horiBearingY slot) / 64,
                  descent_at_cached_size := real_of_int (metrics_height slot - horiBearingY slot) / 64\<rparr>
      in if bitmap_buffer slot \<and> bitmap_width slot > 0 \<and> bitmap_rows slot > 0 then
           (let (pack_rect, s1) =
                  findSpaceInAtlasAndPack alloc s (bitmap_width slot) (bitmap_rows slot) (bitmap_buffer slot)
            in if fst (snd (snd pack_rect)) > 0 then
                 (g0\<lparr>renderInfo := (renderInfo g0)
                        \<lparr>atlasTextureId := atlas_textures s1 ! nat (current_atlas_idx s1),
                         atlasRect := pack_rect,
                         drawOffset := (real_of_int (bitmap_left slot), - real_of_int (bitmap_top slot))\<rparr>\<rparr>, s1)
               else (g0\<lparr>renderInfo := (renderInfo g0)\<lparr>atlasTextureId := 0\<rparr>\<rparr>, s1))
         else (g0, s))"

text \<open>
  \<open>getCachedGlyphByGID\<close>, the get-or-create that layout calls with a glyph index from
  HarfBuzz. The result is the cached glyph, \<open>actualFontIdUsed\<close> and the new engine. The
  value \<open>None\<close> stands for the dereference of a null face, which the source does not
  guard against.
\<close>

definition getCachedGlyphByGID ::
  "(int \<Rightarrow> alloc_result) \<Rightarrow> engine \<Rightarrow> FontId \<Rightarrow> nat \<Rightarrow> (FTCachedGlyph \<times> FontId \<times> engine) option" where
  "getCachedGlyphByGID alloc s fontId glyphID_from_harfbuzz =
     (if \<not> IsFontValid s fontId \<and> \<not> IsFontValid s (defaultFontId s)
      then Some (FTCachedGlyph_default, fontId, s)
      else
        let actualFontIdUsed = (if IsFontValid s fontId then fontId else defaultFontId s);
            gid = (if IsFontValid s fontId then glyphID_from_harfbuzz else 0)
        in case loadedFonts s actualFontIdUsed of
             None \<Rightarrow> None
           | Some chosenFontData \<Rightarrow>
               let key = \<lparr>key_fontId = actualFontIdUsed, key_glyphIndex = gid,
                          key_sdfPixelSize = sdfGenSize_of chosenFontData,
                          key_isSDF = (atlas_type_hint s = SDF_BITMAP)\<rparr>
               in (case glyph_cache_map s key of
                     Some cached \<Rightarrow> Some (cached, actualFontIdUsed, cache_touch s key)
                   | None \<Rightarrow>
                       (case ftFace chosenFontData of
                          None \<Rightarrow> None
                        | Some face \<Rightarrow>
                            let slot = snd (load_render face gid (nat (sdfGenSize_of chosenFontData)) (key_isSDF key));
                                (newCachedGlyph, s1) = glyph_from_slot alloc s (key_isSDF key) slot
                            in Some (newCachedGlyph, actualFontIdUsed, cache_insert s1 key newCachedGlyph))))"

text \<open>
  Steps 1 to 4 of \<open>getOrCacheGlyph\<close>: the font that renders a codepoint and the glyph index
  in it, or \<open>None\<close> when no valid font is left (``Cannot proceed'').
\<close>

definition face_char_index :: "engine \<Rightarrow> FontId \<Rightarrow> nat \<Rightarrow> nat" where
  "face_char_index s fontId codepoint =
     (case loadedFonts s fontId of
        None \<Rightarrow> 0
      | Some fontData \<Rightarrow> (case ftFace fontData of None \<Rightarrow> 0 | Some face \<Rightarrow> char_index face codepoint))"

fun try_fallbacks :: "engine \<Rightarrow> nat \<Rightarrow> FontId list \<Rightarrow> nat \<Rightarrow> FontId \<times> nat" where
  "try_fallbacks s codepoint [] glyphIndex = (INVALID_FONT_ID, glyphIndex)"
| "try_fallbacks s codepoint (fallbackFontId # rest) glyphIndex =
     (if IsFontValid s fallbackFontId then
        (if face_char_index s fallbackFontId codepoint \<noteq> 0
         then (fallbackFontId, face_char_index s fallbackFontId codepoint)
         else try_fallbacks s codepoint rest (face_char_index s fallbackFontId codepoint))
      else try_fallbacks s codepoint rest glyphIndex)"

definition resolve_glyph_font :: "engine \<Rightarrow> FontId \<Rightarrow> nat \<Rightarrow> (FontId \<times> nat) option" where
  "resolve_glyph_font s requestedFontId codepoint =
     (let isWhitespace = (codepoint = 32 \<or> codepoint = 9 \<or> codepoint = 10 \<or> codepoint = 12288);
          g1 = (if IsFontValid s requestedFontId then face_char_index s requestedFontId codepoint else 0);
          a1 = (if IsFontValid s requestedFontId \<and> (g1 \<noteq> 0 \<or> isWhitespace)
                then requestedFontId else INVALID_FONT_ID);
          (a2, g2) = (if a1 = INVALID_FONT_ID \<and> \<not> isWhitespace then
                        (case fontFallbackChains s requestedFontId of
                           None \<Rightarrow> (a1, g1)
                         | Some chain \<Rightarrow> try_fallbacks s codepoint chain g1)
                      else (a1, g1));
          (a3, g3) = (if a2 = INVALID_FONT_ID \<and> \<not> isWhitespace \<and>
                         defaultFontId s \<noteq> INVALID_FONT_ID \<and> defaultFontId s \<noteq> requestedFontId then
                        (let defaultWasInFallback =
                               (case fontFallbackChains s requestedFontId of
                                  None \<Rightarrow> False
                                | Some chain \<Rightarrow> list_ex (\<lambda>fid. fid = defaultFontId s) chain)
                         in if \<not> defaultWasInFallback \<and> IsFontValid s (defaultFontId s) then
                              (if face_char_index s (defaultFontId s) codepoint \<noteq> 0
                               then (defaultFontId s, face_char_index s (defaultFontId s) codepoint)
                               else (a2, face_char_index s (defaultFontId s) codepoint))
                            else (a2, g2))
                      else (a2, g2))
      in if a3 = INVALID_FONT_ID then
           (let fontForNotdef = (if IsFontValid s requestedFontId then requestedFontId
                                 else if IsFontValid s (defaultFontId s) then defaultFontId s
                                 else INVALID_FONT_ID)
            in if IsFontValid s fontForNotdef
               then Some (fontForNotdef, face_char_index s fontForNotdef codepoint)
               else None)
         else Some (a3, g3))"

text \<open>
  \<open>getOrCacheGlyph\<close>, the get-or-create by codepoint. A failed \<open>FT_Load_Glyph\<close> of a glyph
  other than 0 calls the function again for codepoint 0 in the font just chosen; nothing
  bounds that recursion, so the function is partial: \<open>None\<close> is a call that does not return
  (or dereferences a null face).
\<close>

partial_function (option) getOrCacheGlyph ::
  "(int \<Rightarrow> alloc_result) \<Rightarrow> engine \<Rightarrow> FontId \<Rightarrow> nat \<Rightarrow> (FTCachedGlyph \<times> FontId \<times> engine) option" where
  "getOrCacheGlyph alloc s requestedFontId codepoint =
     (case resolve_glyph_font s requestedFontId codepoint of
        None \<Rightarrow> Some (FTCachedGlyph_default, INVALID_FONT_ID, s)
      | Some (actualFontIdUsed, glyphIndex) \<Rightarrow>
          (case loadedFonts s actualFontIdUsed of
             None \<Rightarrow> None
           | Some chosenFontData \<Rightarrow>
               let key = \<lparr>key_fontId = actualFontIdUsed, key_glyphIndex = glyphIndex,
                          key_sdfPixelSize = sdfGenSize_of chosenFontData,
                          key_isSDF = (atlas_type_hint s = SDF_BITMAP)\<rparr>
               in (case glyph_cache_map s key of
                    Some cached \<Rightarrow> Some (cached, actualFontIdUsed, cache_touch s key)
                  | None \<Rightarrow>
                      (case ftFace chosenFontData of
                         None \<Rightarrow> None
                       | Some face \<Rightarrow>
                           if set_pixel_sizes_error face (nat (sdfGenSize_of chosenFontData))
                           then Some (FTCachedGlyph_default, actualFontIdUsed, s)
                           else
                             let loaded = load_render face glyphIndex (nat (sdfGenSize_of chosenFontData)) (key_isSDF key)
                             in if fst loaded = FT_Load_Error then
                                  (if glyphIndex \<noteq> 0 then getOrCacheGlyph alloc s actualFontIdUsed 0
                                   else Some (FTCachedGlyph_default, actualFontIdUsed, s))
                                else if fst loaded = FT_Render_Error
                                then Some (FTCachedGlyph_default, actualFontIdUsed, s)
                                else
                                  Some (fst (glyph_from_slot alloc s (key_isSDF key) (snd loaded)),
                                        actualFontIdUsed,
                                        cache_insert (snd (glyph_from_slot alloc s (key_isSDF key) (snd loaded))) key
                                          (fst (glyph_from_slot alloc s (key_isSDF key) (snd loaded))))))))"


section \<open>Registry and cache operations\<close>

text \<open>The engine as the constructor leaves it; \<open>ft_ok\<close> is the outcome of \<open>FT_Init_FreeType\<close>.\<close>

definition new_engine :: "bool \<Rightarrow> engine" where
  "new_engine ft_ok =
     \<lparr>ftLibrary = ft_ok, loadedFonts = Map.empty, nextFontId = 1, defaultFontId = INVALID_FONT_ID,
      fontFallbackChains = Map.empty, lru_glyph_list = [], glyph_cache_map = Map.empty,
      glyph_cache_capacity = 512, atlas_images = [], atlas_textures = [],
      current_atlas_idx = -1, current_atlas_pen_pos = (0, 0), current_atlas_max_row_height = 0,
      atlas_width = 1024, atlas_height = 1024, atlas_type_hint = SDF_BITMAP\<rparr>"

definition SetDefaultFont :: "engine \<Rightarrow> FontId \<Rightarrow> engine" where
  "SetDefaultFont s fontId =
     (if IsFontValid s fontId \<or> fontId = INVALID_FONT_ID then s\<lparr>defaultFontId := fontId\<rparr> else s)"

text \<open>
  \<open>LoadFont\<close>: reading the file and creating the FreeType and HarfBuzz objects either fails
  (\<open>None\<close>, the function returns \<open>INVALID_FONT_ID\<close> and keeps nothing) or gives the font data
  that is stored under a fresh id.
\<close>

definition LoadFont :: "engine \<Rightarrow> FTFontData option \<Rightarrow> FontId \<times> engine" where
  "LoadFont s loaded =
     (if \<not> ftLibrary s then (INVALID_FONT_ID, s)
      else case loaded of
             None \<Rightarrow> (INVALID_FONT_ID, s)
           | Some fontData \<Rightarrow>
               let id = nextFontId s;
                   s1 = s\<lparr>nextFontId := nextFontId s + 1, loadedFonts := (loadedFonts s)(id \<mapsto> fontData)\<rparr>;
                   s2 = (if defaultFontId s1 = INVALID_FONT_ID then SetDefaultFont s1 id else s1)
               in (id, s2))"

text \<open>
  The loop of \<open>UnloadFont\<close> over the LRU list: every key of the font is erased from the map
  and from the list; the result is the remaining list and the map.
\<close>

fun evict_font ::
  "FontId \<Rightarrow> FTGlyphCacheKey list \<Rightarrow> (FTGlyphCacheKey \<rightharpoonup> FTCachedGlyph) \<Rightarrow>
   FTGlyphCacheKey list \<times> (FTGlyphCacheKey \<rightharpoonup> FTCachedGlyph)" where
  "evict_font fontId [] m = ([], m)"
| "evict_font fontId (k # ks) m =
     (if key_fontId k = fontId then evict_font fontId ks (m(k := None))
      else (let (ks', m') = evict_font fontId ks m in (k # ks', m')))"

definition UnloadFont :: "engine \<Rightarrow> FontId \<Rightarrow> engine" where
  "UnloadFont s fontId =
     (if fontId \<in> dom (loadedFonts s) then
        (let fonts = (loadedFonts s)(fontId := None);
             chains = (\<lambda>p. map_option (filter (\<lambda>x. x \<noteq> fontId)) (((fontFallbackChains s)(fontId := None)) p));
             (lru, m) = evict_font fontId (lru_glyph_list s) (glyph_cache_map s)
         in s\<lparr>loadedFonts := fonts, fontFallbackChains := chains,
              lru_glyph_list := lru, glyph_cache_map := m,
              defaultFontId := (if defaultFontId s = fontId
                                then (if dom fonts = {} then INVALID_FONT_ID else Min (dom fonts))
                                else defaultFontId s)\<rparr>)
      else s)"

definition SetFontFallbackChain :: "engine \<Rightarrow> FontId \<Rightarrow> FontId list \<Rightarrow> engine" where
  "SetFontFallbackChain s primaryFont fallbackChain =
     (if \<not> IsFontValid s primaryFont then s
      else s\<lparr>fontFallbackChains :=
                (fontFallbackChains s)(primaryFont \<mapsto> filter (IsFontValid s) fallbackChain)\<rparr>)"

definition performCacheCleanup :: "engine \<Rightarrow> engine" where
  "performCacheCleanup s =
     s\<lparr>atlas_textures := [], atlas_images := [], glyph_cache_map := Map.empty, lru_glyph_list := [],
       current_atlas_idx := -1, current_atlas_pen_pos := (0, 0), current_atlas_max_row_height := 0\<rparr>"

definition SetGlyphAtlasOptions :: "engine \<Rightarrow> nat \<Rightarrow> int \<Rightarrow> int \<Rightarrow> GlyphAtlasType \<Rightarrow> engine" where
  "SetGlyphAtlasOptions s maxGlyphsEstimate atlasWidth atlasHeight typeHint =
     (let optionsChanged = (glyph_cache_capacity s \<noteq> maxGlyphsEstimate \<or> atlas_width s \<noteq> atlasWidth \<or>
                            atlas_height s \<noteq> atlasHeight \<or> atlas_type_hint s \<noteq> typeHint);
          s1 = (if optionsChanged \<and> (atlas_textures s \<noteq> [] \<or> atlas_images s \<noteq> [])
                then performCacheCleanup s else s)
      in s1\<lparr>glyph_cache_capacity := (if maxGlyphsEstimate > 0 then maxGlyphsEstimate else 1),
            atlas_width := (if atlasWidth > 0 then atlasWidth else 256),
            atlas_height := (if atlasHeight > 0 then atlasHeight else 256),
            atlas_type_hint := typeHint\<rparr>)"

text \<open>
  The properties of the engine state that the registry and cache operations keep: the map
  and the LRU list of the glyph cache hold the same keys, each once, and the default font is
  invalid or loaded.
\<close>

definition cache_consistent :: "engine \<Rightarrow> bool" where
  "cache_consistent s \<longleftrightarrow>
     dom (glyph_cache_map s) = set (lru_glyph_list s) \<and> distinct (lru_glyph_list s)"

definition default_font_ok :: "engine \<Rightarrow> bool" where
  "default_font_ok s \<longleftrightarrow>
     finite (dom (loadedFonts s)) \<and>
     (defaultFontId s = INVALID_FONT_ID \<or> defaultFontId s \<in> dom (loadedFonts s))"

text \<open>
  \<open>same_cache s s'\<close>: the registry and the glyph cache are the same in both engines (the atlas
  may differ). \<open>cache_effect s s'\<close> lists what a get-or-create call can do to the cache: nothing,
  a hit that moves the key to the front, or a miss that inserts the key after packing.
\<close>

definition same_cache :: "engine \<Rightarrow> engine \<Rightarrow> bool" where
  "same_cache s s' \<longleftrightarrow>
     lru_glyph_list s' = lru_glyph_list s \<and> glyph_cache_map s' = glyph_cache_map s \<and>
     glyph_cache_capacity s' = glyph_cache_capacity s \<and> loadedFonts s' = loadedFonts s \<and>
     defaultFontId s' = defaultFontId s \<and> fontFallbackChains s' = fontFallbackChains s"

definition cache_effect :: "engine \<Rightarrow> engine \<Rightarrow> bool" where
  "cache_effect s s' \<longleftrightarrow>
     same_cache s s' \<or>
     (\<exists>key g. glyph_cache_map s key = Some g \<and> s' = cache_touch s key) \<or>
     (\<exists>key g s1. same_cache s s1 \<and> glyph_cache_map s key = None \<and> s' = cache_insert s1 key g)"

definition engine_ok :: "engine \<Rightarrow> bool" where
  "engine_ok s \<longleftrightarrow> cache_consistent s \<and> default_font_ok s \<and> 0 < glyph_cache_capacity s"

definition fonts_have_faces :: "engine \<Rightarrow> bool" where
  "fonts_have_faces s \<longleftrightarrow> (\<forall>fontData \<in> ran (loadedFonts s). ftFace fontData \<noteq> None)"

section \<open>Styles, positioned elements, lines and text blocks\<close>

text \<open>
  The structures of \<open>text_engine.h\<close>. Fill and effect parameters of a character style,
  tab stops and the visual-run list of a line do not take part in line breaking, line
  metrics or cursor placement and are left out. A span text is well-formed UTF-8 and is
  represented by its Unicode scalar values; byte offsets are counted in its UTF-8 form and
  UTF-16 offsets in its UTF-16 form.
\<close>

datatype HorizontalAlignment = LEFT | CENTER | RIGHT | JUSTIFY

datatype LineHeightType =
  NORMAL_SCALED_FONT_METRICS | FACTOR_SCALED_FONT_SIZE | ABSOLUTE_POINTS | CONTENT_SCALED

datatype TextDirection = AUTO_DETECT_FROM_TEXT | DIR_LTR | DIR_RTL

datatype LineBreakStrategy = SIMPLE_BY_WIDTH | ICU_WORD_BOUNDARIES | ICU_CHARACTER_BOUNDARIES

datatype VAlign = BASELINE | MIDDLE_OF_TEXT | TEXT_TOP | TEXT_BOTTOM | LINE_TOP | LINE_BOTTOM

datatype BiDiDirectionHint = UNSPECIFIED | LTR | RTL

record InlineImageParams =
  texture_id :: nat
  texture_width :: int
  texture_height :: int
  displayWidth :: real
  displayHeight :: real
  vAlign :: VAlign

record CharacterStyle =
  fontId :: FontId
  fontSize :: real
  scriptTag :: string
  languageTag :: string
  isImage :: bool
  imageParams :: InlineImageParams

record TextSpan =
  span_text :: "nat list"
  style :: CharacterStyle

record ParagraphStyle =
  alignment :: HorizontalAlignment
  lineHeightType :: LineHeightType
  lineHeightValue :: real
  firstLineIndent :: real
  wrapWidth :: real
  baseDirection :: TextDirection
  lineBreakStrategy :: LineBreakStrategy
  defaultCharacterStyle :: CharacterStyle

record PositionedGlyph =
  glyphId :: nat
  sourceFont :: FontId
  sourceSize :: real
  g_position :: "real \<times> real"
  xAdvance :: real
  yAdvance :: real
  xOffset :: real
  yOffset :: real
  g_renderInfo :: GlyphRenderInfo
  g_sourceSpanIndex :: nat
  g_sourceCharByteOffsetInSpan :: nat
  g_numSourceCharBytesInSpan :: nat
  appliedStyle :: CharacterStyle
  g_ascent :: real
  g_descent :: real
  visualLeft :: real
  visualRight :: real
  visualRunDirectionHint :: BiDiDirectionHint

record PositionedImage =
  i_position :: "real \<times> real"
  i_width :: real
  i_height :: real
  penAdvanceX :: real
  i_imageParams :: InlineImageParams
  i_sourceSpanIndex :: nat
  i_sourceCharByteOffsetInSpan :: nat
  i_numSourceCharBytesInSpan :: nat
  i_ascent :: real
  i_descent :: real

datatype PositionedElementVariant = Glyph PositionedGlyph | Image PositionedImage

record LineLayoutInfo =
  firstElementIndexInBlockElements :: nat
  numElementsInLine :: nat
  lineBoxY :: real
  baselineYInBox :: real
  lineWidth :: real
  lineBoxHeight :: real
  maxContentAscent :: real
  maxContentDescent :: real
  sourceTextByteStartIndexInBlockText :: nat
  sourceTextByteEndIndexInBlockText :: nat
  visualToLogicalMap :: "int list"
  logicalToVisualMap :: "int list"

definition LineLayoutInfo_default :: LineLayoutInfo where
  "LineLayoutInfo_default =
     \<lparr>firstElementIndexInBlockElements = 0, numElementsInLine = 0, lineBoxY = 0,
      baselineYInBox = 0, lineWidth = 0, lineBoxHeight = 0, maxContentAscent = 0,
      maxContentDescent = 0, sourceTextByteStartIndexInBlockText = 0,
      sourceTextByteEndIndexInBlockText = 0, visualToLogicalMap = [], logicalToVisualMap = []\<rparr>"

record TextBlock =
  elements :: "PositionedElementVariant list"
  lines :: "LineLayoutInfo list"
  overallBounds :: Rectangle
  paragraphStyleUsed :: ParagraphStyle
  sourceTextConcatenated :: "nat list"
  sourceSpansCopied :: "TextSpan list"

subsection \<open>UTF-8 and UTF-16 lengths\<close>

text \<open>
  ICU's \<open>u_strFromUTF8\<close> and \<open>u_strToUTF8\<close> are the standard encodings. \<open>Utf8ToUtf16\<close>
  of a well-formed text is the UTF-16 form of its scalar values. \<open>Utf16ToUtf8\<close> fails on
  an unpaired surrogate, and the engine's wrapper then returns the empty string: its
  length is 0.
\<close>

definition utf8_len :: "nat \<Rightarrow> nat" where
  "utf8_len cp = (if cp < 128 then 1 else if cp < 2048 then 2 else if cp < 65536 then 3 else 4)"

definition byte_length :: "nat list \<Rightarrow> nat" where
  "byte_length cps = sum_list (map utf8_len cps)"

definition utf16_units :: "nat \<Rightarrow> nat list" where
  "utf16_units cp =
     (if cp < 65536 then [cp]
      else [55296 + (cp - 65536) div 1024, 56320 + (cp - 65536) mod 1024])"

definition Utf8ToUtf16 :: "nat list \<Rightarrow> nat list" where
  "Utf8ToUtf16 cps = concat (map utf16_units cps)"

definition is_lead :: "nat \<Rightarrow> bool" where
  "is_lead u \<longleftrightarrow> 55296 \<le> u \<and> u < 56320"

definition is_trail :: "nat \<Rightarrow> bool" where
  "is_trail u \<longleftrightarrow> 56320 \<le> u \<and> u < 57344"

fun utf16_to_utf8_len :: "nat list \<Rightarrow> nat option" where
  "utf16_to_utf8_len [] = Some 0"
| "utf16_to_utf8_len [u] =
     (if is_lead u \<or> is_trail u then None else Some (utf8_len u))"
| "utf16_to_utf8_len (u # v # rest) =
     (if is_lead u then
        (if is_trail v then map_option (\<lambda>n. 4 + n) (utf16_to_utf8_len rest) else None)
      else if is_trail u then None
      else map_option (\<lambda>n. utf8_len u + n) (utf16_to_utf8_len (v # rest)))"

definition Utf16ToUtf8_length :: "nat list \<Rightarrow> nat" where
  "Utf16ToUtf8_length us = (case utf16_to_utf8_len us of None \<Rightarrow> 0 | Some n \<Rightarrow> n)"

definition scalar_value :: "nat \<Rightarrow> bool" where
  "scalar_value cp \<longleftrightarrow> cp < 55296 \<or> (57344 \<le> cp \<and> cp < 1114112)"

section \<open>Cursor placement: the line of a byte offset\<close>

text \<open>
  The condition under which the loop of \<open>GetCursorInfoFromByteOffset\<close> stops at line \<open>i\<close>
  for the clamped offset \<open>b\<close>; \<open>tlen\<close> is the byte length of the concatenated text.
\<close>

definition line_hit :: "LineLayoutInfo list \<Rightarrow> nat \<Rightarrow> nat \<Rightarrow> nat \<Rightarrow> bool" where
  "line_hit ls tlen b i \<longleftrightarrow>
     (b \<ge> sourceTextByteStartIndexInBlockText (ls ! i) \<and> b < sourceTextByteEndIndexInBlockText (ls ! i)) \<or>
     (b = sourceTextByteEndIndexInBlockText (ls ! i) \<and>
      (i = length ls - 1 \<or> b < sourceTextByteStartIndexInBlockText (ls ! (i + 1)))) \<or>
     (b = tlen \<and> i = length ls - 1)"

text \<open>
  The part of \<open>GetCursorInfoFromByteOffset\<close> that chooses the line: the result is
  \<open>cInfo.lineIndex\<close> and \<open>cInfo.byteOffset\<close>. A block without lines gives line index 0.
  When no line is hit the last line is taken and the offset moves to its end byte.
\<close>

definition cursor_line_of_offset :: "TextBlock \<Rightarrow> nat \<Rightarrow> int \<times> nat" where
  "cursor_line_of_offset textBlock byteOffsetInConcatenatedText =
     (let tlen = byte_length (sourceTextConcatenated textBlock);
          byteOffset = min byteOffsetInConcatenatedText tlen
      in if lines textBlock = [] then (0, byteOffset)
         else
           (case find (line_hit (lines textBlock) tlen byteOffset) [0..<length (lines textBlock)] of
              Some i \<Rightarrow> (int i, byteOffset)
            | None \<Rightarrow>
                (int (length (lines textBlock) - 1),
                 sourceTextByteEndIndexInBlockText (lines textBlock ! (length (lines textBlock) - 1)))))"

text \<open>
  The rule of the specification: a line owns an offset inside its byte range, and an
  offset at its end byte when there is no next line or the next line starts after the
  offset.
\<close>

definition spec_line_owns_offset :: "LineLayoutInfo list \<Rightarrow> nat \<Rightarrow> nat \<Rightarrow> bool" where
  "spec_line_owns_offset ls b i \<longleftrightarrow>
     (sourceTextByteStartIndexInBlockText (ls ! i) \<le> b \<and> b < sourceTextByteEndIndexInBlockText (ls ! i)) \<or>
     (b = sourceTextByteEndIndexInBlockText (ls ! i) \<and>
      (i + 1 = length ls \<or> b < sourceTextByteStartIndexInBlockText (ls ! (i + 1))))"

text \<open>
  Byte ranges as \<open>LayoutStyledText\<close> produces them: the first starts at 0, every range is
  ordered and each line starts where the previous one ends.
\<close>

definition lines_contiguous :: "LineLayoutInfo list \<Rightarrow> bool" where
  "lines_contiguous ls \<longleftrightarrow>
     (ls \<noteq> [] \<longrightarrow> sourceTextByteStartIndexInBlockText (ls ! 0) = 0) \<and>
     (\<forall>i < length ls. sourceTextByteStartIndexInBlockText (ls ! i) \<le> sourceTextByteEndIndexInBlockText (ls ! i)) \<and>
     (\<forall>i. i + 1 < length ls \<longrightarrow>
        sourceTextByteEndIndexInBlockText (ls ! i) = sourceTextByteStartIndexInBlockText (ls ! (i + 1)))"

section \<open>Layout: line accumulation and line finalization\<close>

subsection \<open>What layout reads from ICU and HarfBuzz\<close>

text \<open>
  For one call of \<open>LayoutStyledText\<close> the external libraries are the record \<open>layout_env\<close>:
  \<^item> \<open>icu_setup_ok\<close>: \<open>ubidi_openSized\<close>, \<open>ubidi_setPara\<close>, \<open>ubrk_open\<close> and
    \<open>ubrk_setText\<close> on the paragraph succeed;
  \<^item> \<open>is_boundary p\<close>: the break iterator has a boundary at UTF-16 position \<open>p\<close>;
  \<^item> \<open>visual_runs start len\<close>: the visual runs ICU reports for the segment of \<open>len\<close>
    code units at \<open>start\<close>, each with its logical start in the segment, its length and
    whether it is left-to-right (no runs when \<open>ubidi_countRuns\<close> fails);
  \<^item> \<open>shape_run font size span start len ltr penX\<close>: the elements that the glyph loop
    (HarfBuzz shaping, FreeType metrics, glyph cache) pushes for one run placed at
    \<open>penX\<close> in the segment, and the pen advance of the run;
  \<^item> \<open>line_bidi_maps start len\<close>: the visual-to-logical and logical-to-visual maps ICU
    computes for the \<open>len\<close> bytes of text at byte \<open>start\<close> (empty when a call fails).
\<close>

record layout_env =
  icu_setup_ok :: bool
  is_boundary :: "nat \<Rightarrow> bool"
  visual_runs :: "nat \<Rightarrow> nat \<Rightarrow> (nat \<times> nat \<times> bool) list"
  shape_run :: "FontId \<Rightarrow> real \<Rightarrow> nat \<Rightarrow> nat \<Rightarrow> nat \<Rightarrow> bool \<Rightarrow> real \<Rightarrow> PositionedElementVariant list \<times> real"
  line_bidi_maps :: "nat \<Rightarrow> nat \<Rightarrow> int list \<times> int list"

definition UBRK_DONE :: int where
  "UBRK_DONE = -1"

text \<open>
  \<open>ubrk_following\<close> returns the first boundary after the offset; the end of the text is
  always a boundary, and past it the answer is \<open>UBRK_DONE\<close>.
\<close>

function next_boundary :: "(nat \<Rightarrow> bool) \<Rightarrow> nat \<Rightarrow> nat \<Rightarrow> nat" where
  "next_boundary isb len p = (if p \<ge> len then len else if isb p then p else next_boundary isb len (p + 1))"
  by pat_completeness auto
termination
  by (relation "measure (\<lambda>(isb, len, p). len - p)") auto

definition ubrk_following :: "(nat \<Rightarrow> bool) \<Rightarrow> nat \<Rightarrow> nat \<Rightarrow> int" where
  "ubrk_following isb len offset =
     (if offset \<ge> len then UBRK_DONE else int (next_boundary isb len (offset + 1)))"

subsection \<open>Line box\<close>

text \<open>
  \<open>calculateLineBoxHeight\<close> in three parts: the content extent it works with (replaced when
  ascent plus descent is below 0.001), the result of the line-height policy, and their
  maximum.
\<close>

definition contentActualHeight_of :: "ScaledFontMetrics \<Rightarrow> real \<Rightarrow> real \<Rightarrow> real \<Rightarrow> real" where
  "contentActualHeight_of defaultMetrics currentMaxAscent currentMaxDescent paraPrimaryFontSizeForFactor =
     (if currentMaxAscent + currentMaxDescent < 1/1000 then
        (if ascent defaultMetrics + descent defaultMetrics > 1/1000
         then ascent defaultMetrics + descent defaultMetrics
         else (if paraPrimaryFontSizeForFactor > 0 then paraPrimaryFontSizeForFactor * (6/5)
               else 16 * (6/5)))
      else currentMaxAscent + currentMaxDescent)"

definition line_height_policy :: "ParagraphStyle \<Rightarrow> ScaledFontMetrics \<Rightarrow> real \<Rightarrow> real \<Rightarrow> real" where
  "line_height_policy pStyle defaultMetrics contentActualHeight paraPrimaryFontSizeForFactor =
     (case lineHeightType pStyle of
        NORMAL_SCALED_FONT_METRICS \<Rightarrow> recommendedLineHeight defaultMetrics * lineHeightValue pStyle
      | FACTOR_SCALED_FONT_SIZE \<Rightarrow> paraPrimaryFontSizeForFactor * lineHeightValue pStyle
      | ABSOLUTE_POINTS \<Rightarrow> lineHeightValue pStyle
      | CONTENT_SCALED \<Rightarrow> contentActualHeight * lineHeightValue pStyle)"

definition calculateLineBoxHeight ::
  "ParagraphStyle \<Rightarrow> ScaledFontMetrics \<Rightarrow> real \<Rightarrow> real \<Rightarrow> real \<Rightarrow> real" where
  "calculateLineBoxHeight pStyle defaultMetrics currentMaxAscent currentMaxDescent paraPrimaryFontSizeForFactor =
     (let contentActualHeight =
            contentActualHeight_of defaultMetrics currentMaxAscent currentMaxDescent paraPrimaryFontSizeForFactor;
          calculatedHeight =
            line_height_policy pStyle defaultMetrics contentActualHeight paraPrimaryFontSizeForFactor
      in max calculatedHeight contentActualHeight)"

definition shift_x :: "real \<Rightarrow> PositionedElementVariant \<Rightarrow> PositionedElementVariant" where
  "shift_x dx e =
     (case e of
        Glyph g \<Rightarrow> Glyph (g\<lparr>g_position := (fst (g_position g) + dx, snd (g_position g))\<rparr>)
      | Image i \<Rightarrow> Image (i\<lparr>i_position := (fst (i_position i) + dx, snd (i_position i))\<rparr>))"

text \<open>Subtraction of \<open>uint32_t\<close> values.\<close>

definition u32_sub :: "nat \<Rightarrow> nat \<Rightarrow> nat" where
  "u32_sub a b = nat ((int a - int b) mod 4294967296)"

text \<open>
  The guard at the head of \<open>finalizeCurrentLine\<close>: an empty pending line that is not the
  first line of an empty text is dropped when it starts at a byte other than 0 and the next
  line does not start after it.
\<close>

definition finalize_skips ::
  "TextBlock \<Rightarrow> PositionedElementVariant list \<Rightarrow> LineLayoutInfo \<Rightarrow> nat \<Rightarrow> bool" where
  "finalize_skips textBlock pendingElements lineInfoTemplate nextLineU8StartOffsetInFull \<longleftrightarrow>
     pendingElements = [] \<and>
     \<not> (lines textBlock = [] \<and> sourceTextConcatenated textBlock = [] \<and>
        sourceTextByteStartIndexInBlockText lineInfoTemplate = 0) \<and>
     sourceTextByteStartIndexInBlockText lineInfoTemplate \<ge> nextLineU8StartOffsetInFull \<and>
     sourceTextConcatenated textBlock \<noteq> [] \<and>
     sourceTextByteStartIndexInBlockText lineInfoTemplate \<noteq> 0"

text \<open>
  \<open>finalizeCurrentLine\<close>, local variable by local variable: the content ascent and descent
  of the line, the alignment shift, and the line record that is appended.
\<close>

definition finalized_ascent :: "PositionedElementVariant list \<Rightarrow> real \<Rightarrow> ScaledFontMetrics \<Rightarrow> real" where
  "finalized_ascent pendingElements lineMaxAscent defaultPStyleMetrics =
     (if lineMaxAscent > 1/1000 \<or> pendingElements = [] then lineMaxAscent
      else ascent defaultPStyleMetrics)"

definition finalized_descent :: "PositionedElementVariant list \<Rightarrow> real \<Rightarrow> ScaledFontMetrics \<Rightarrow> real" where
  "finalized_descent pendingElements lineMaxDescent defaultPStyleMetrics =
     (if lineMaxDescent > 1/1000 \<or> pendingElements = [] then lineMaxDescent
      else descent defaultPStyleMetrics)"

definition lineShiftX_of :: "ParagraphStyle \<Rightarrow> bool \<Rightarrow> real \<Rightarrow> real" where
  "lineShiftX_of pStyle isFirstLineOfPara committedLineWidthNoIndent =
     (let linePhysicalStartX = (if isFirstLineOfPara then firstLineIndent pStyle else 0);
          visualLineWidthWithIndentActual = linePhysicalStartX + committedLineWidthNoIndent;
          effectiveWrapWidth0 = (if wrapWidth pStyle > 0 then wrapWidth pStyle
                                 else visualLineWidthWithIndentActual);
          effectiveWrapWidthForAlign =
            (if effectiveWrapWidth0 < 1/100 \<and> visualLineWidthWithIndentActual > 1/100
             then visualLineWidthWithIndentActual else effectiveWrapWidth0)
      in if alignment pStyle = RIGHT \<and> visualLineWidthWithIndentActual < effectiveWrapWidthForAlign
         then effectiveWrapWidthForAlign - visualLineWidthWithIndentActual
         else if alignment pStyle = CENTER \<and> visualLineWidthWithIndentActual < effectiveWrapWidthForAlign
         then (effectiveWrapWidthForAlign - visualLineWidthWithIndentActual) / 2
         else 0)"

definition baselineYInBox_of :: "ParagraphStyle \<Rightarrow> real \<Rightarrow> real \<Rightarrow> real \<Rightarrow> real" where
  "baselineYInBox_of pStyle boxHeight asc desc =
     (if boxHeight > (asc + desc) + 1/1000 \<and> lineHeightType pStyle \<noteq> CONTENT_SCALED
      then asc + (boxHeight - (asc + desc)) / 2 else asc)"

definition line_maps ::
  "layout_env \<Rightarrow> TextBlock \<Rightarrow> LineLayoutInfo \<Rightarrow> nat \<Rightarrow> int list \<times> int list" where
  "line_maps env textBlock lineInfoTemplate nextLineU8StartOffsetInFull =
     (let lineU8Len = u32_sub nextLineU8StartOffsetInFull
                        (sourceTextByteStartIndexInBlockText lineInfoTemplate)
      in if lineU8Len > 0 \<and>
            nextLineU8StartOffsetInFull \<le> byte_length (sourceTextConcatenated textBlock)
         then line_bidi_maps env (sourceTextByteStartIndexInBlockText lineInfoTemplate) lineU8Len
         else (visualToLogicalMap lineInfoTemplate, logicalToVisualMap lineInfoTemplate))"

definition finalized_line ::
  "layout_env \<Rightarrow> TextBlock \<Rightarrow> PositionedElementVariant list \<Rightarrow> LineLayoutInfo \<Rightarrow> real \<Rightarrow> real \<Rightarrow> real \<Rightarrow>
   real \<Rightarrow> ParagraphStyle \<Rightarrow> ScaledFontMetrics \<Rightarrow> real \<Rightarrow> nat \<Rightarrow> LineLayoutInfo" where
  "finalized_line env textBlock pendingElements lineInfoTemplate committedLineWidthNoIndent
     lineMaxAscent lineMaxDescent currentLineBoxTopY pStyle defaultPStyleMetrics
     paraDefaultFontSize nextLineU8StartOffsetInFull =
     (let asc = finalized_ascent pendingElements lineMaxAscent defaultPStyleMetrics;
          desc = finalized_descent pendingElements lineMaxDescent defaultPStyleMetrics;
          boxHeight = calculateLineBoxHeight pStyle defaultPStyleMetrics asc desc paraDefaultFontSize;
          maps = line_maps env textBlock lineInfoTemplate nextLineU8StartOffsetInFull
      in lineInfoTemplate
           \<lparr>lineWidth := committedLineWidthNoIndent,
            maxContentAscent := asc,
            maxContentDescent := desc,
            sourceTextByteEndIndexInBlockText := nextLineU8StartOffsetInFull,
            firstElementIndexInBlockElements := length (elements textBlock),
            numElementsInLine := length pendingElements,
            lineBoxHeight := boxHeight,
            baselineYInBox := baselineYInBox_of pStyle boxHeight asc desc,
            lineBoxY := currentLineBoxTopY,
            visualToLogicalMap := fst maps,
            logicalToVisualMap := snd maps\<rparr>)"

text \<open>
  \<open>finalizeCurrentLine\<close>. The reference parameters \<open>textBlock\<close>, \<open>currentLineBoxTopY\<close> and
  \<open>overallMaxVisualLineWidthInOut\<close> are returned.
\<close>

definition finalizeCurrentLine ::
  "layout_env \<Rightarrow> TextBlock \<Rightarrow> PositionedElementVariant list \<Rightarrow> LineLayoutInfo \<Rightarrow> real \<Rightarrow> real \<Rightarrow> real \<Rightarrow>
   real \<Rightarrow> bool \<Rightarrow> ParagraphStyle \<Rightarrow> ScaledFontMetrics \<Rightarrow> real \<Rightarrow> nat \<Rightarrow> real \<Rightarrow>
   TextBlock \<times> real \<times> real" where
  "finalizeCurrentLine env textBlock pendingElements lineInfoTemplate committedLineWidthNoIndent
     lineMaxAscent lineMaxDescent currentLineBoxTopY isFirstLineOfPara pStyle defaultPStyleMetrics
     paraDefaultFontSize nextLineU8StartOffsetInFull overallMaxVisualLineWidthInOut =
     (if finalize_skips textBlock pendingElements lineInfoTemplate nextLineU8StartOffsetInFull
      then (textBlock, currentLineBoxTopY, overallMaxVisualLineWidthInOut)
      else
        let finalizedLine = finalized_line env textBlock pendingElements lineInfoTemplate
                              committedLineWidthNoIndent lineMaxAscent lineMaxDescent
                              currentLineBoxTopY pStyle defaultPStyleMetrics paraDefaultFontSize
                              nextLineU8StartOffsetInFull;
            lineShiftX = lineShiftX_of pStyle isFirstLineOfPara committedLineWidthNoIndent;
            visualLineWidthWithIndentActual =
              (if isFirstLineOfPara then firstLineIndent pStyle else 0) + committedLineWidthNoIndent;
            placed = (if \<bar>lineShiftX\<bar> > 1/1000 then map (shift_x lineShiftX) pendingElements
                      else pendingElements)
        in (textBlock\<lparr>elements := elements textBlock @ placed,
                      lines := lines textBlock @ [finalizedLine]\<rparr>,
            currentLineBoxTopY + lineBoxHeight finalizedLine,
            max overallMaxVisualLineWidthInOut
              (visualLineWidthWithIndentActual + (if lineShiftX > 0 then lineShiftX else 0))))"

subsection \<open>Shaping one segment\<close>

record SpanMapEntry =
  u8_start_offset_in_full :: nat
  u8_length_in_full :: nat
  u16_start_offset_in_full :: nat
  u16_length_in_full :: nat
  originalSpanIndex :: nat

text \<open>A span that carries an image and no text contributes U+FFFC.\<close>

definition text_to_process :: "TextSpan \<Rightarrow> nat list" where
  "text_to_process sp =
     (if isImage (style sp) \<and> span_text sp = [] then [65532] else span_text sp)"

fun build_spanMap :: "TextSpan list \<Rightarrow> nat \<Rightarrow> nat \<Rightarrow> nat \<Rightarrow> SpanMapEntry list" where
  "build_spanMap [] i currentU8BytePosInFull currentU16CodeUnitPosInFull = []"
| "build_spanMap (sp # rest) i currentU8BytePosInFull currentU16CodeUnitPosInFull =
     (let u8LenOfSpanText = byte_length (text_to_process sp);
          u16LenOfSpanText = length (Utf8ToUtf16 (text_to_process sp))
      in \<lparr>u8_start_offset_in_full = currentU8BytePosInFull, u8_length_in_full = u8LenOfSpanText,
          u16_start_offset_in_full = currentU16CodeUnitPosInFull, u16_length_in_full = u16LenOfSpanText,
          originalSpanIndex = i\<rparr>
         # build_spanMap rest (i + 1) (currentU8BytePosInFull + u8LenOfSpanText)
             (currentU16CodeUnitPosInFull + u16LenOfSpanText))"

fun dominant_span :: "SpanMapEntry list \<Rightarrow> nat \<Rightarrow> nat \<Rightarrow> nat \<Rightarrow> nat" where
  "dominant_span [] runU8StartByteInFull tlen nspans = 0"
| "dominant_span (mapEntry # rest) runU8StartByteInFull tlen nspans =
     (let spanU8EndInFull = u8_start_offset_in_full mapEntry + u8_length_in_full mapEntry
      in if runU8StartByteInFull \<ge> u8_start_offset_in_full mapEntry \<and> runU8StartByteInFull < spanU8EndInFull
         then originalSpanIndex mapEntry
         else if runU8StartByteInFull = spanU8EndInFull \<and> spanU8EndInFull = tlen \<and>
                 originalSpanIndex mapEntry = nspans - 1
         then originalSpanIndex mapEntry
         else dominant_span rest runU8StartByteInFull tlen nspans)"

text \<open>What one call of \<open>LayoutStyledText\<close> computes before its loop and does not change in it.\<close>

record layout_ctx =
  ctx_env :: layout_env
  ctx_engine :: engine
  ctx_spans :: "TextSpan list"
  ctx_paragraphStyle :: ParagraphStyle
  ctx_paraDefFontId :: FontId
  ctx_paraDefFontSize :: real
  ctx_paraDefaultMetrics :: ScaledFontMetrics
  ctx_fullUtf8Text :: "nat list"
  ctx_fullU16Text :: "nat list"
  ctx_spanMap :: "SpanMapEntry list"

text \<open>
  What an element adds to the ascent and descent of its segment (a glyph is moved by its
  vertical shaping offset).
\<close>

definition ascent_reach :: "PositionedElementVariant \<Rightarrow> real" where
  "ascent_reach e = (case e of Glyph g \<Rightarrow> g_ascent g - yOffset g | Image i \<Rightarrow> i_ascent i)"

definition descent_reach :: "PositionedElementVariant \<Rightarrow> real" where
  "descent_reach e = (case e of Glyph g \<Rightarrow> g_descent g + yOffset g | Image i \<Rightarrow> i_descent i)"

text \<open>
  One ICU visual run of a segment that starts at UTF-16 position \<open>lastU16BreakPos\<close>: the
  run is skipped when it is empty or when neither the font of its dominant span nor the
  paragraph default font is valid; otherwise its elements are appended and the pen moves on.
\<close>

definition shape_visual_run ::
  "layout_ctx \<Rightarrow> nat \<Rightarrow> nat \<times> nat \<times> bool \<Rightarrow> PositionedElementVariant list \<times> real \<Rightarrow>
   PositionedElementVariant list \<times> real" where
  "shape_visual_run ctx lastU16BreakPos run acc =
     (let logicalStartU16InSegment = fst run;
          runLengthU16InSegment = fst (snd run);
          ltr = snd (snd run);
          penXWithinSegment_for_icu_runs = snd acc
      in if runLengthU16InSegment = 0 then acc
         else
           let logicalStartInOriginalSource = lastU16BreakPos + logicalStartU16InSegment;
               runU8StartByteInFull =
                 Utf16ToUtf8_length (take logicalStartInOriginalSource (ctx_fullU16Text ctx));
               runDominantSpanIdx =
                 dominant_span (ctx_spanMap ctx) runU8StartByteInFull
                   (byte_length (ctx_fullUtf8Text ctx)) (length (ctx_spans ctx));
               runStyle = (if runDominantSpanIdx < length (ctx_spans ctx)
                           then style (ctx_spans ctx ! runDominantSpanIdx)
                           else defaultCharacterStyle (ctx_paragraphStyle ctx));
               runFontId = (if IsFontValid (ctx_engine ctx) (fontId runStyle) then fontId runStyle
                            else ctx_paraDefFontId ctx);
               runFontSize = (if fontSize runStyle > 0 then fontSize runStyle else ctx_paraDefFontSize ctx)
           in if \<not> IsFontValid (ctx_engine ctx) runFontId then acc
              else
                let shaped = shape_run (ctx_env ctx) runFontId runFontSize runDominantSpanIdx
                               logicalStartInOriginalSource runLengthU16InSegment ltr
                               penXWithinSegment_for_icu_runs
                in (fst acc @ fst shaped, penXWithinSegment_for_icu_runs + snd shaped))"

record shaped_segment =
  elements_for_this_segment :: "PositionedElementVariant list"
  width_of_this_segment :: real
  max_ascent_for_this_segment :: real
  max_descent_for_this_segment :: real

definition shapeSegment :: "layout_ctx \<Rightarrow> nat \<Rightarrow> nat \<Rightarrow> shaped_segment" where
  "shapeSegment ctx lastU16BreakPos segmentToShapeLength =
     (if segmentToShapeLength = 0
      then \<lparr>elements_for_this_segment = [], width_of_this_segment = 0,
            max_ascent_for_this_segment = 0, max_descent_for_this_segment = 0\<rparr>
      else
        let shaped = fold (shape_visual_run ctx lastU16BreakPos)
                       (visual_runs (ctx_env ctx) lastU16BreakPos segmentToShapeLength) ([], 0)
        in \<lparr>elements_for_this_segment = fst shaped, width_of_this_segment = snd shaped,
            max_ascent_for_this_segment = fold (\<lambda>e m. max m (ascent_reach e)) (fst shaped) 0,
            max_descent_for_this_segment = fold (\<lambda>e m. max m (descent_reach e)) (fst shaped) 0\<rparr>)"

subsection \<open>The pending line\<close>

text \<open>
  The local variables of \<open>LayoutStyledText\<close> that its loop changes. The byte start of the
  pending line is the field \<open>sourceTextByteStartIndexInBlockText\<close> of the template.
\<close>

record loop_state =
  textBlock :: TextBlock
  pendingLineElements :: "PositionedElementVariant list"
  currentLineCommittedWidth :: real
  currentLineMaxAscent :: real
  currentLineMaxDescent :: real
  currentLineBoxTopY :: real
  isFirstLineOfParagraph :: bool
  overallMaxVisualLineWidth :: real
  currentLineInfoTemplate :: LineLayoutInfo
  lastU16BreakPos :: nat

text \<open>The call of \<open>finalizeCurrentLine\<close> on the pending line, with the next line starting at \<open>next\<close>.\<close>

definition finalize_pending :: "layout_ctx \<Rightarrow> loop_state \<Rightarrow> nat \<Rightarrow> loop_state" where
  "finalize_pending ctx st next =
     (let r = finalizeCurrentLine (ctx_env ctx) (textBlock st) (pendingLineElements st)
                (currentLineInfoTemplate st) (currentLineCommittedWidth st)
                (currentLineMaxAscent st) (currentLineMaxDescent st) (currentLineBoxTopY st)
                (isFirstLineOfParagraph st) (ctx_paragraphStyle ctx) (ctx_paraDefaultMetrics ctx)
                (ctx_paraDefFontSize ctx) next (overallMaxVisualLineWidth st)
      in st\<lparr>textBlock := fst r, currentLineBoxTopY := fst (snd r),
            overallMaxVisualLineWidth := snd (snd r)\<rparr>)"

text \<open>The reset after a line is finalized: an empty pending line that starts at byte \<open>start\<close>.\<close>

definition start_new_line :: "layout_ctx \<Rightarrow> loop_state \<Rightarrow> nat \<Rightarrow> loop_state" where
  "start_new_line ctx st start =
     st\<lparr>pendingLineElements := [], currentLineCommittedWidth := 0, isFirstLineOfParagraph := False,
        currentLineMaxAscent := ascent (ctx_paraDefaultMetrics ctx),
        currentLineMaxDescent := descent (ctx_paraDefaultMetrics ctx),
        currentLineInfoTemplate := LineLayoutInfo_default
          \<lparr>firstElementIndexInBlockElements := length (elements (textBlock st)),
           sourceTextByteStartIndexInBlockText := start,
           maxContentAscent := ascent (ctx_paraDefaultMetrics ctx),
           maxContentDescent := descent (ctx_paraDefaultMetrics ctx)\<rparr>\<rparr>"

text \<open>The test that decides whether the pending line is finalized before the segment is committed.\<close>

definition wrap_before_segment :: "layout_ctx \<Rightarrow> loop_state \<Rightarrow> shaped_segment \<Rightarrow> bool" where
  "wrap_before_segment ctx st seg =
     (let lineStartXWithIndent =
            (if isFirstLineOfParagraph st then firstLineIndent (ctx_paragraphStyle ctx) else 0)
      in wrapWidth (ctx_paragraphStyle ctx) > 0 \<and>
         lineStartXWithIndent + currentLineCommittedWidth st + width_of_this_segment seg
           > wrapWidth (ctx_paragraphStyle ctx) \<and>
         pendingLineElements st \<noteq> [] \<and> width_of_this_segment seg > 1/1000)"

text \<open>
  ``Line breaking and element commitment'': a segment that starts at byte
  \<open>segmentU8StartByteInFull\<close> is added to the pending line, after the pending line has been
  finalized when the test asks for it.
\<close>

definition commit_segment :: "layout_ctx \<Rightarrow> loop_state \<Rightarrow> nat \<Rightarrow> shaped_segment \<Rightarrow> loop_state" where
  "commit_segment ctx st segmentU8StartByteInFull seg =
     (let st1 = (if wrap_before_segment ctx st seg
                 then start_new_line ctx (finalize_pending ctx st segmentU8StartByteInFull)
                        segmentU8StartByteInFull
                 else st)
      in if elements_for_this_segment seg \<noteq> [] then
           st1\<lparr>pendingLineElements :=
                  pendingLineElements st1 @
                  map (shift_x (currentLineCommittedWidth st1)) (elements_for_this_segment seg),
               currentLineCommittedWidth := currentLineCommittedWidth st1 + width_of_this_segment seg,
               currentLineMaxAscent := max (currentLineMaxAscent st1) (max_ascent_for_this_segment seg),
               currentLineMaxDescent := max (currentLineMaxDescent st1) (max_descent_for_this_segment seg)\<rparr>
         else st1)"

text \<open>
  One pass of the \<open>while\<close> loop; the second component tells whether the pass ends with
  \<open>break\<close>.
\<close>

definition layout_body :: "layout_ctx \<Rightarrow> loop_state \<Rightarrow> loop_state \<times> bool" where
  "layout_body ctx st =
     (let full = ctx_fullU16Text ctx;
          len = length full;
          last = lastU16BreakPos st;
          following = ubrk_following (is_boundary (ctx_env ctx)) len last;
          atEndOfParagraph = (following = UBRK_DONE);
          cur1 = (if atEndOfParagraph then int len else following);
          cur2 = (if int last = cur1 \<and> \<not> atEndOfParagraph \<and> cur1 < int len then cur1 + 1 else cur1);
          currentU16BreakPos = (if cur2 > int len then int len else cur2);
          segmentU16 = (if currentU16BreakPos < int last then drop last full
                        else take (nat (currentU16BreakPos - int last)) (drop last full));
          segmentU8StartByteInFull = Utf16ToUtf8_length (take last full);
          containsHardNewline = (10 \<in> set segmentU16);
          segmentToShapeU16 = (if containsHardNewline then takeWhile (\<lambda>c. c \<noteq> 10) segmentU16
                               else segmentU16);
          seg = shapeSegment ctx last (length segmentToShapeU16);
          st1 = commit_segment ctx st segmentU8StartByteInFull seg;
          st2 = (if containsHardNewline then
                   (let u8OffsetAfterNewline =
                          Utf16ToUtf8_length (take (last + length segmentToShapeU16 + 1) full)
                    in (start_new_line ctx (finalize_pending ctx st1 u8OffsetAfterNewline)
                          u8OffsetAfterNewline)
                       \<lparr>lastU16BreakPos := last + length segmentToShapeU16 + 1\<rparr>)
                 else st1\<lparr>lastU16BreakPos := nat currentU16BreakPos\<rparr>)
      in (st2, atEndOfParagraph \<and> lastU16BreakPos st2 \<ge> len))"

subsection \<open>The loop over the segments\<close>

text \<open>Each pass that does not end with \<open>break\<close> moves the break position forward.\<close>

declare next_boundary.simps [simp del]

lemma next_boundary_bounds:
  "p \<le> len \<Longrightarrow> p \<le> next_boundary isb len p \<and> next_boundary isb len p \<le> len"
proof (induction isb len p rule: next_boundary.induct)
  case (1 isb len p)
  show ?case
  proof (cases "p \<ge> len \<or> isb p")
    case True
    with "1.prems" show ?thesis by (subst (1 2) next_boundary.simps) auto
  next
    case False
    with "1.IH" "1.prems"
    have "p + 1 \<le> next_boundary isb len (p + 1) \<and> next_boundary isb len (p + 1) \<le> len"
      by simp
    with False show ?thesis by (subst (1 2) next_boundary.simps) auto
  qed
qed

lemma ubrk_following_range:
  "offset < len \<Longrightarrow>
   int offset < ubrk_following isb len offset \<and> ubrk_following isb len offset \<le> int len"
  using next_boundary_bounds [of "offset + 1" len isb] by (simp add: ubrk_following_def)

lemma ubrk_following_not_done: "offset < len \<Longrightarrow> ubrk_following isb len offset \<noteq> UBRK_DONE"
  using ubrk_following_range [of offset len isb] by (simp add: UBRK_DONE_def)

lemma lastU16BreakPos_finalize_pending [simp]:
  "lastU16BreakPos (finalize_pending ctx st n) = lastU16BreakPos st"
  by (simp add: finalize_pending_def Let_def)

lemma lastU16BreakPos_start_new_line [simp]:
  "lastU16BreakPos (start_new_line ctx st n) = lastU16BreakPos st"
  by (simp add: start_new_line_def)

lemma lastU16BreakPos_commit_segment [simp]:
  "lastU16BreakPos (commit_segment ctx st n seg) = lastU16BreakPos st"
  by (simp add: commit_segment_def Let_def)

lemma layout_body_progress:
  assumes "lastU16BreakPos st < length (ctx_fullU16Text ctx)"
  shows "lastU16BreakPos st < lastU16BreakPos (fst (layout_body ctx st))"
  using ubrk_following_range [OF assms, of "is_boundary (ctx_env ctx)"]
    ubrk_following_not_done [OF assms, of "is_boundary (ctx_env ctx)"]
  by (auto simp: layout_body_def Let_def)

lemma layout_body_empty_breaks:
  assumes "ctx_fullU16Text ctx = []"
  shows "snd (layout_body ctx st)"
  using assms by (simp add: layout_body_def Let_def ubrk_following_def)

function layout_loop :: "layout_ctx \<Rightarrow> loop_state \<Rightarrow> loop_state" where
  "layout_loop ctx st =
     (if lastU16BreakPos st < length (ctx_fullU16Text ctx) \<or>
         (lastU16BreakPos st = 0 \<and> ctx_fullU16Text ctx = [] \<and> lines (textBlock st) = [])
      then (if lastU16BreakPos st \<ge> length (ctx_fullU16Text ctx) \<and> ctx_fullU16Text ctx \<noteq> [] then st
            else if snd (layout_body ctx st) then fst (layout_body ctx st)
            else layout_loop ctx (fst (layout_body ctx st)))
      else st)"
  by pat_completeness auto
termination
proof (relation "measure (\<lambda>(ctx, st). length (ctx_fullU16Text ctx) - lastU16BreakPos st)")
  show "wf (measure (\<lambda>(ctx, st). length (ctx_fullU16Text ctx) - lastU16BreakPos st))"
    by simp
next
  fix ctx :: layout_ctx and st :: loop_state
  assume c: "lastU16BreakPos st < length (ctx_fullU16Text ctx) \<or>
             (lastU16BreakPos st = 0 \<and> ctx_fullU16Text ctx = [] \<and> lines (textBlock st) = [])"
    and n: "\<not> snd (layout_body ctx st)"
  from n layout_body_empty_breaks [of ctx st] have "ctx_fullU16Text ctx \<noteq> []" by blast
  with c have l: "lastU16BreakPos st < length (ctx_fullU16Text ctx)" by simp
  from layout_body_progress [OF l] l
  show "((ctx, fst (layout_body ctx st)), (ctx, st))
          \<in> measure (\<lambda>(ctx, st). length (ctx_fullU16Text ctx) - lastU16BreakPos st)"
    by simp
qed

declare layout_loop.simps [simp del]

subsection \<open>The layout call\<close>

text \<open>The adjustment of images aligned to the top or the bottom of their line box, once the box is known.\<close>

definition align_image_to_line :: "LineLayoutInfo \<Rightarrow> PositionedElementVariant \<Rightarrow> PositionedElementVariant" where
  "align_image_to_line line_info e =
     (case e of
        Glyph g \<Rightarrow> Glyph g
      | Image pImg \<Rightarrow>
          if vAlign (i_imageParams pImg) = LINE_TOP then
            Image (pImg\<lparr>i_position := (fst (i_position pImg), - baselineYInBox line_info),
                        i_ascent := baselineYInBox line_info,
                        i_descent := max 0 (i_height pImg - baselineYInBox line_info)\<rparr>)
          else if vAlign (i_imageParams pImg) = LINE_BOTTOM then
            Image (pImg\<lparr>i_position := (fst (i_position pImg),
                                       (lineBoxHeight line_info - baselineYInBox line_info) - i_height pImg),
                        i_descent := lineBoxHeight line_info - baselineYInBox line_info,
                        i_ascent := max 0 (i_height pImg - (lineBoxHeight line_info - baselineYInBox line_info))\<rparr>)
          else Image pImg)"

definition align_line_images ::
  "LineLayoutInfo \<Rightarrow> PositionedElementVariant list \<Rightarrow> PositionedElementVariant list" where
  "align_line_images line_info els =
     fold (\<lambda>i els. let globalElementIdx = firstElementIndexInBlockElements line_info + i
                    in if globalElementIdx < length els
                       then els[globalElementIdx := align_image_to_line line_info (els ! globalElementIdx)]
                       else els)
          [0..<numElementsInLine line_info] els"

definition initial_loop_state :: "layout_ctx \<Rightarrow> TextBlock \<Rightarrow> loop_state" where
  "initial_loop_state ctx tb =
     \<lparr>textBlock = tb, pendingLineElements = [], currentLineCommittedWidth = 0,
      currentLineMaxAscent = ascent (ctx_paraDefaultMetrics ctx),
      currentLineMaxDescent = descent (ctx_paraDefaultMetrics ctx),
      currentLineBoxTopY = 0, isFirstLineOfParagraph = True, overallMaxVisualLineWidth = 0,
      currentLineInfoTemplate = LineLayoutInfo_default
        \<lparr>firstElementIndexInBlockElements := length (elements tb),
         sourceTextByteStartIndexInBlockText := 0,
         maxContentAscent := ascent (ctx_paraDefaultMetrics ctx),
         maxContentDescent := descent (ctx_paraDefaultMetrics ctx)\<rparr>,
      lastU16BreakPos = 0\<rparr>"

text \<open>After the loop: the pending line is finalized when it has elements or no line exists yet.\<close>

definition finish_layout :: "layout_ctx \<Rightarrow> loop_state \<Rightarrow> loop_state" where
  "finish_layout ctx st =
     (if pendingLineElements st \<noteq> [] \<or> lines (textBlock st) = []
      then finalize_pending ctx st (byte_length (sourceTextConcatenated (textBlock st)))
      else st)"

definition block_with_bounds :: "layout_ctx \<Rightarrow> loop_state \<Rightarrow> TextBlock" where
  "block_with_bounds ctx st =
     (let tb = textBlock st;
          y = (if lines tb = [] then 0 else lineBoxY (hd (lines tb)));
          h0 = currentLineBoxTopY st - y;
          h = (if lines tb = [] \<and> ctx_spans ctx \<noteq> [] \<and> h0 < 1/100
               then (if recommendedLineHeight (ctx_paraDefaultMetrics ctx) > 0
                     then recommendedLineHeight (ctx_paraDefaultMetrics ctx)
                     else ctx_paraDefFontSize ctx * (6/5))
               else h0)
      in tb\<lparr>overallBounds := (0, y, overallMaxVisualLineWidth st, h),
            elements := fold align_line_images (lines tb) (elements tb)\<rparr>)"

definition paragraph_default_metrics :: "engine \<Rightarrow> FontId \<Rightarrow> real \<Rightarrow> ScaledFontMetrics" where
  "paragraph_default_metrics s paraDefFontId paraDefFontSize =
     (if IsFontValid s paraDefFontId then GetScaledFontMetrics s paraDefFontId paraDefFontSize
      else ScaledFontMetrics_default
             \<lparr>ascent := paraDefFontSize * (3/4), descent := paraDefFontSize * (1/4),
              recommendedLineHeight := paraDefFontSize * (3/4) + paraDefFontSize * (1/4),
              scale := 1, xHeight := paraDefFontSize * (45/100)\<rparr>)"

text \<open>The block with the single empty line that a call without spans returns.\<close>

definition empty_spans_block ::
  "TextBlock \<Rightarrow> ParagraphStyle \<Rightarrow> ScaledFontMetrics \<Rightarrow> real \<Rightarrow> TextBlock" where
  "empty_spans_block tb paragraphStyle paraDefaultMetrics paraDefFontSize =
     (let boxHeight = calculateLineBoxHeight paragraphStyle paraDefaultMetrics
                        (ascent paraDefaultMetrics) (descent paraDefaultMetrics) paraDefFontSize;
          baseline = (if boxHeight > (ascent paraDefaultMetrics + descent paraDefaultMetrics) + 1/1000 \<and>
                         lineHeightType paragraphStyle \<noteq> CONTENT_SCALED
                      then ascent paraDefaultMetrics +
                           (boxHeight - (ascent paraDefaultMetrics + descent paraDefaultMetrics)) / 2
                      else ascent paraDefaultMetrics);
          emptyLine = LineLayoutInfo_default
            \<lparr>maxContentAscent := ascent paraDefaultMetrics,
             maxContentDescent := descent paraDefaultMetrics,
             lineBoxHeight := boxHeight, baselineYInBox := baseline\<rparr>
      in tb\<lparr>lines := [emptyLine],
            overallBounds := (0, 0, firstLineIndent paragraphStyle, boxHeight)\<rparr>)"

definition make_layout_ctx :: "layout_env \<Rightarrow> engine \<Rightarrow> TextSpan list \<Rightarrow> ParagraphStyle \<Rightarrow> layout_ctx" where
  "make_layout_ctx env s spans paragraphStyle =
     (let paraDefFontId = (if IsFontValid s (fontId (defaultCharacterStyle paragraphStyle))
                           then fontId (defaultCharacterStyle paragraphStyle) else defaultFontId s);
          paraDefFontSize = (if fontSize (defaultCharacterStyle paragraphStyle) > 0
                             then fontSize (defaultCharacterStyle paragraphStyle) else 16);
          fullUtf8Text = concat (map text_to_process spans)
      in \<lparr>ctx_env = env, ctx_engine = s, ctx_spans = spans, ctx_paragraphStyle = paragraphStyle,
          ctx_paraDefFontId = paraDefFontId, ctx_paraDefFontSize = paraDefFontSize,
          ctx_paraDefaultMetrics = paragraph_default_metrics s paraDefFontId paraDefFontSize,
          ctx_fullUtf8Text = fullUtf8Text, ctx_fullU16Text = Utf8ToUtf16 fullUtf8Text,
          ctx_spanMap = build_spanMap spans 0 0 0\<rparr>)"

text \<open>
  \<open>LayoutStyledText\<close>. The glyph cache and the atlas that the call fills are behind
  \<open>shape_run\<close>; the result is the text block.
\<close>

definition LayoutStyledText :: "layout_env \<Rightarrow> engine \<Rightarrow> TextSpan list \<Rightarrow> ParagraphStyle \<Rightarrow> TextBlock" where
  "LayoutStyledText env s spans paragraphStyle =
     (let tb0 = \<lparr>elements = [], lines = [], overallBounds = (0, 0, 0, 0),
                 paragraphStyleUsed = paragraphStyle, sourceTextConcatenated = [],
                 sourceSpansCopied = spans\<rparr>;
          ctx = make_layout_ctx env s spans paragraphStyle
      in if \<not> ftLibrary s then tb0
         else if spans = []
         then empty_spans_block tb0 paragraphStyle (ctx_paraDefaultMetrics ctx) (ctx_paraDefFontSize ctx)
         else
           let tb1 = tb0\<lparr>sourceTextConcatenated := ctx_fullUtf8Text ctx\<rparr>
           in if ctx_fullU16Text ctx = [] \<and> ctx_fullUtf8Text ctx \<noteq> [] then tb1
              else if \<not> icu_setup_ok env then tb1
              else block_with_bounds ctx
                     (finish_layout ctx (layout_loop ctx (initial_loop_state ctx tb1))))"

text \<open>The UTF-16 position at which code point number \<open>k\<close> of a text starts.\<close>

definition cp_pos :: "nat list \<Rightarrow> nat \<Rightarrow> nat" where
  "cp_pos cps k = length (Utf8ToUtf16 (take k cps))"

subsection \<open>Well-formed line records\<close>

text \<open>
  \<open>lines_chain ls a b\<close>: the byte ranges of the lines \<open>ls\<close> follow one another from byte
  \<open>a\<close> to byte \<open>b\<close>. \<open>block_upto tb b\<close>: the lines of the block account for all its
  elements and their ordered byte ranges follow one another from 0 to \<open>b\<close>.
\<close>

fun lines_chain :: "LineLayoutInfo list \<Rightarrow> nat \<Rightarrow> nat \<Rightarrow> bool" where
  "lines_chain [] a b \<longleftrightarrow> a = b"
| "lines_chain (l # ls) a b \<longleftrightarrow>
     sourceTextByteStartIndexInBlockText l = a \<and>
     lines_chain ls (sourceTextByteEndIndexInBlockText l) b"

definition block_upto :: "TextBlock \<Rightarrow> nat \<Rightarrow> bool" where
  "block_upto tb b \<longleftrightarrow>
     sum_list (map numElementsInLine (lines tb)) = length (elements tb) \<and>
     lines_chain (lines tb) 0 b \<and>
     list_all (\<lambda>l. sourceTextByteStartIndexInBlockText l \<le> sourceTextByteEndIndexInBlockText l) (lines tb)"

text \<open>
  Two properties of the libraries that a layout context may have: the break iterator has no
  boundary in front of a trail surrogate, and shaping a non-empty segment of the text always yields an
  element.
\<close>

definition boundaries_aligned :: "layout_ctx \<Rightarrow> bool" where
  "boundaries_aligned ctx \<longleftrightarrow>
     (\<forall>p < length (ctx_fullU16Text ctx).
        is_boundary (ctx_env ctx) p \<longrightarrow> \<not> is_trail (ctx_fullU16Text ctx ! p))"

definition segments_visible :: "layout_ctx \<Rightarrow> bool" where
  "segments_visible ctx \<longleftrightarrow>
     (\<forall>start len. 0 < len \<and> start + len \<le> length (ctx_fullU16Text ctx) \<longrightarrow>
        elements_for_this_segment (shapeSegment ctx start len) \<noteq> [])"

text \<open>
  What holds of the loop state before and after every pass: the block is well formed up to
  the byte where the pending line starts, the break position is the start of a code point,
  the pending line starts at or before it, and exactly at it when the pending line is
  empty and segments are visible.
\<close>

definition loop_inv :: "layout_ctx \<Rightarrow> loop_state \<Rightarrow> bool" where
  "loop_inv ctx st \<longleftrightarrow>
     block_upto (textBlock st) (sourceTextByteStartIndexInBlockText (currentLineInfoTemplate st)) \<and>
     sourceTextConcatenated (textBlock st) = ctx_fullUtf8Text ctx \<and>
     (\<exists>k j. k \<le> length (ctx_fullUtf8Text ctx) \<and> j \<le> k \<and>
        lastU16BreakPos st = cp_pos (ctx_fullUtf8Text ctx) k \<and>
        sourceTextByteStartIndexInBlockText (currentLineInfoTemplate st) =
          byte_length (take j (ctx_fullUtf8Text ctx)) \<and>
        (pendingLineElements st = [] \<and> segments_visible ctx \<longrightarrow> j = k))"

section \<open>Concrete fonts and engines\<close>

text \<open>
  A Latin font with the vertical metrics of a common sans-serif face (2048 units per em,
  typographic ascender 1536, descender -512, line gap 102) that maps the letter \<open>a\<close>
  to glyph 68 and the space to glyph 3, and a second font that maps U+4E2D to glyph 7 and
  the ideographic space U+3000 to glyph 2. The space glyphs have an empty bitmap, all other
  glyphs a bitmap of 40 by 50 pixels.
\<close>

definition empty_slot :: FT_GlyphSlot where
  "empty_slot =
     \<lparr>horiAdvance = 1024, horiBearingY = 0, metrics_height = 0, bitmap_buffer = False,
      bitmap_width = 0, bitmap_rows = 0, bitmap_left = 0, bitmap_top = 0\<rparr>"

definition ink_slot :: FT_GlyphSlot where
  "ink_slot =
     \<lparr>horiAdvance = 2304, horiBearingY = 2944, metrics_height = 3008, bitmap_buffer = True,
      bitmap_width = 40, bitmap_rows = 50, bitmap_left = 2, bitmap_top = 46\<rparr>"

definition latin_face :: FT_Face where
  "latin_face =
     \<lparr>char_index = (\<lambda>cp. if cp = 97 then 68 else if cp = 32 then 3 else 0),
      load_render = (\<lambda>gid px sdf. if gid = 3 then (FT_Ok, empty_slot) else (FT_Ok, ink_slot)),
      units_per_EM = 2048, underline_position = -150, underline_thickness = 100,
      os2_table = Some \<lparr>os2_version = 4, sCapHeight = 1456, sxHeight = 1082\<rparr>,
      set_pixel_sizes_error = (\<lambda>n. False)\<rparr>"

definition latin_font :: FTFontData where
  "latin_font =
     \<lparr>ftFace = Some latin_face,
      properties = \<lparr>unitsPerEm = 2048, hasTypoMetrics = True, typoAscender = 1536,
                    typoDescender = -512, typoLineGap = 102, hheaAscender = 1900,
                    hheaDescender = -500, hheaLineGap = 0\<rparr>,
      sdfPixelSizeHint = 64, yStrikeoutPosition_fontUnits = 512, yStrikeoutSize_fontUnits = 102\<rparr>"

definition cjk_font :: FTFontData where
  "cjk_font =
     latin_font\<lparr>ftFace := Some (latin_face
       \<lparr>char_index := (\<lambda>cp. if cp = 20013 then 7 else if cp = 12288 then 2 else 0),
        load_render := (\<lambda>gid px sdf. if gid = 2 then (FT_Ok, empty_slot) else (FT_Ok, ink_slot))\<rparr>)\<rparr>"

definition one_font_engine :: engine where
  "one_font_engine = snd (LoadFont (new_engine True) (Some latin_font))"

definition two_font_engine :: engine where
  "two_font_engine = snd (LoadFont one_font_engine (Some cjk_font))"

text \<open>
  Atlas pages can always be allocated. \<open>engine_after\<close> reads the engine out of the result
  of a get-or-create call.
\<close>

definition alloc_ok :: "int \<Rightarrow> alloc_result" where
  "alloc_ok i = Allocated (nat i + 1)"

definition engine_after :: "(FTCachedGlyph \<times> FontId \<times> engine) option \<Rightarrow> engine" where
  "engine_after r = snd (snd (the r))"

text \<open>
  The two space glyphs are cached (neither needs an atlas page), then the capacity is set
  to 1 with otherwise unchanged atlas options.
\<close>

definition spaces_cached_engine :: engine where
  "spaces_cached_engine =
     engine_after (getCachedGlyphByGID alloc_ok
       (engine_after (getCachedGlyphByGID alloc_ok two_font_engine 1 3)) 2 2)"

definition shrunk_engine :: engine where
  "shrunk_engine = SetGlyphAtlasOptions spaces_cached_engine 1 1024 1024 SDF_BITMAP"

text \<open>
  A block for the text \<open>ab\<close>, newline, \<open>cd\<close> with the two lines of scenario S2: bytes 0 to
  3 and bytes 3 to 5.
\<close>

definition plain_style :: CharacterStyle where
  "plain_style =
     \<lparr>fontId = 1, fontSize = 16, scriptTag = [], languageTag = [], isImage = False,
      imageParams = \<lparr>texture_id = 0, texture_width = 0, texture_height = 0, displayWidth = 0,
                     displayHeight = 0, vAlign = BASELINE\<rparr>\<rparr>"

definition plain_paragraph :: ParagraphStyle where
  "plain_paragraph =
     \<lparr>alignment = LEFT, lineHeightType = NORMAL_SCALED_FONT_METRICS, lineHeightValue = 6/5,
      firstLineIndent = 0, wrapWidth = 0, baseDirection = AUTO_DETECT_FROM_TEXT,
      lineBreakStrategy = SIMPLE_BY_WIDTH, defaultCharacterStyle = plain_style\<lparr>fontId := INVALID_FONT_ID\<rparr>\<rparr>"

definition ab_nl_cd :: "nat list" where
  "ab_nl_cd = [97, 98, 10, 99, 100]"

definition two_line_block :: TextBlock where
  "two_line_block =
     \<lparr>elements = [],
      lines = [LineLayoutInfo_default\<lparr>sourceTextByteStartIndexInBlockText := 0,
                                      sourceTextByteEndIndexInBlockText := 3\<rparr>,
               LineLayoutInfo_default\<lparr>sourceTextByteStartIndexInBlockText := 3,
                                      sourceTextByteEndIndexInBlockText := 5\<rparr>],
      overallBounds = (0, 0, 0, 0), paragraphStyleUsed = plain_paragraph,
      sourceTextConcatenated = ab_nl_cd,
      sourceSpansCopied = [\<lparr>span_text = ab_nl_cd, style = plain_style\<rparr>]\<rparr>"

text \<open>
  A layout environment in which every code unit becomes one glyph of advance 10, ascent 12
  and descent 4, every segment is a single left-to-right run, the break iterator has
  boundaries at the UTF-16 positions 2 and 3 (the words \<open>ab\<close> and \<open>cd\<close> around the newline
  at position 2), and every line is left-to-right.
\<close>

definition mono_glyph :: "real \<Rightarrow> FontId \<Rightarrow> real \<Rightarrow> nat \<Rightarrow> PositionedElementVariant" where
  "mono_glyph x font sz spanIndex =
     Glyph \<lparr>glyphId = 68, sourceFont = font, sourceSize = sz, g_position = (x, 0),
            xAdvance = 10, yAdvance = 0, xOffset = 0, yOffset = 0,
            g_renderInfo = renderInfo FTCachedGlyph_default,
            g_sourceSpanIndex = spanIndex, g_sourceCharByteOffsetInSpan = 0,
            g_numSourceCharBytesInSpan = 1, appliedStyle = plain_style,
            g_ascent = 12, g_descent = 4, visualLeft = 0, visualRight = 10,
            visualRunDirectionHint = LTR\<rparr>"

definition mono_env :: layout_env where
  "mono_env =
     \<lparr>icu_setup_ok = True,
      is_boundary = (\<lambda>p. p = 2 \<or> p = 3),
      visual_runs = (\<lambda>start len. [(0, len, True)]),
      shape_run = (\<lambda>font sz spanIndex start len ltr penX.
                     (map (\<lambda>i. mono_glyph (penX + 10 * real i) font sz spanIndex) [0..<len],
                      10 * real len)),
      line_bidi_maps = (\<lambda>start len. (map int [0..<len], map int [0..<len]))\<rparr>"

definition ab_nl_cd_spans :: "TextSpan list" where
  "ab_nl_cd_spans = [\<lparr>span_text = ab_nl_cd, style = plain_style\<rparr>]"

text \<open>A paragraph with an absolute line height just above the content extent 12 + 4.\<close>

definition tight_paragraph :: ParagraphStyle where
  "tight_paragraph = plain_paragraph\<lparr>lineHeightType := ABSOLUTE_POINTS, lineHeightValue := 16 + 1/2048\<rparr>"

definition tight_line :: LineLayoutInfo where
  "tight_line =
     last (lines (fst (finalizeCurrentLine mono_env
       (two_line_block\<lparr>lines := []\<rparr>) [] LineLayoutInfo_default 0 12 4 0 True tight_paragraph
       (sentinel_metrics 16) 16 3 0)))"

text \<open>A paragraph that wraps at width 10, and the loop state after the segment \<open>ab\<close> of width 20.\<close>

definition narrow_paragraph :: ParagraphStyle where
  "narrow_paragraph = plain_paragraph\<lparr>wrapWidth := 10\<rparr>"

definition narrow_ctx :: layout_ctx where
  "narrow_ctx = make_layout_ctx mono_env one_font_engine ab_nl_cd_spans narrow_paragraph"

definition empty_block :: "ParagraphStyle \<Rightarrow> TextSpan list \<Rightarrow> nat list \<Rightarrow> TextBlock" where
  "empty_block p spans t =
     \<lparr>elements = [], lines = [], overallBounds = (0, 0, 0, 0), paragraphStyleUsed = p,
      sourceTextConcatenated = t, sourceSpansCopied = spans\<rparr>"

definition after_ab :: loop_state where
  "after_ab = fst (layout_body narrow_ctx
                (initial_loop_state narrow_ctx (empty_block narrow_paragraph ab_nl_cd_spans ab_nl_cd)))"

definition newline_segment :: shaped_segment where
  "newline_segment = shapeSegment narrow_ctx 2 0"

text \<open>The same line under the default policy, 1.2 times the recommended line height 16.\<close>

definition normal_line :: LineLayoutInfo where
  "normal_line =
     last (lines (fst (finalizeCurrentLine mono_env
       (two_line_block\<lparr>lines := []\<rparr>) [] LineLayoutInfo_default 0 12 4 0 True plain_paragraph
       (sentinel_metrics 16) 16 3 0)))"

section \<open>Properties of the font registry\<close>

lemma one_font_engine_fields:
  "loadedFonts one_font_engine = [1 \<mapsto> latin_font]"
  "defaultFontId one_font_engine = 1"
  "nextFontId one_font_engine = 2"
  "ftLibrary one_font_engine"
  "fontFallbackChains one_font_engine = Map.empty"
  by (simp_all add: one_font_engine_def LoadFont_def new_engine_def SetDefaultFont_def
        INVALID_FONT_ID_def IsFontValid_def Let_def)

lemma two_font_engine_fields:
  "loadedFonts two_font_engine = [1 \<mapsto> latin_font, 2 \<mapsto> cjk_font]"
  "defaultFontId two_font_engine = 1"
  "fontFallbackChains two_font_engine = Map.empty"
  by (simp_all add: two_font_engine_def LoadFont_def one_font_engine_fields
        INVALID_FONT_ID_def Let_def)

text \<open>
  C10. Without fallback checking, \<open>IsCodepointAvailable\<close> still answers true when the
  default font is valid, is not the queried font and covers the codepoint: the default font
  is the last resort whatever \<open>checkFallback\<close> says.
\<close>

theorem IsCodepointAvailable_default_last_resort:
  assumes "defaultFontId s \<noteq> INVALID_FONT_ID" and "defaultFontId s \<noteq> f"
    and "covers s (defaultFontId s) cp"
  shows "IsCodepointAvailable s f cp False"
  using assms by (simp add: IsCodepointAvailable_def)

theorem IsCodepointAvailable_default_last_resort_witness:
  "defaultFontId two_font_engine \<noteq> INVALID_FONT_ID \<and> defaultFontId two_font_engine \<noteq> 2 \<and>
   covers two_font_engine (defaultFontId two_font_engine) 97 \<and>
   \<not> covers two_font_engine 2 97 \<and>
   IsCodepointAvailable two_font_engine 2 97 False"
proof -
  have d: "defaultFontId two_font_engine \<noteq> INVALID_FONT_ID"
    by (simp add: two_font_engine_fields INVALID_FONT_ID_def)
  have n: "defaultFontId two_font_engine \<noteq> 2"
    by (simp add: two_font_engine_fields)
  have c: "covers two_font_engine (defaultFontId two_font_engine) 97"
    by (simp add: covers_def IsFontValid_def two_font_engine_fields latin_font_def latin_face_def)
  have u: "\<not> covers two_font_engine 2 97"
    by (simp add: covers_def IsFontValid_def two_font_engine_fields cjk_font_def latin_font_def
          latin_face_def)
  from IsCodepointAvailable_default_last_resort [OF d n c] d n c u show ?thesis by simp
qed

text \<open>
  C7, as stated, fails: for the Latin font at 32 px the recommended line height is
  \<open>24 + 8 + 102/64\<close>, which is below \<open>32 \<times> 1.2\<close>.
\<close>

theorem recommendedLineHeight_below_floor:
  "IsFontValid one_font_engine 1 \<and> (0::real) < 32 \<and>
   recommendedLineHeight (GetScaledFontMetrics one_font_engine 1 32) < 32 * (6/5)"
  by (simp add: GetScaledFontMetrics_def IsFontValid_def one_font_engine_fields latin_font_def
        latin_face_def scaled_metrics_of_face_def Let_def)

text \<open>
  C7, amended. For a valid font and a positive size the recommended line height is the sum
  of the scaled ascent, descent and line gap whenever that sum is above 0.001; otherwise it
  is that sum or \<open>fontSize \<times> 1.2\<close>. It is always positive. The factor 1.2 is a
  replacement for a degenerate sum, not a lower bound.
\<close>

theorem GetScaledFontMetrics_recommendedLineHeight:
  assumes "IsFontValid s f" and "0 < sz"
  shows "(1/1000 < ascent (GetScaledFontMetrics s f sz) + descent (GetScaledFontMetrics s f sz)
                   + lineGap (GetScaledFontMetrics s f sz) \<longrightarrow>
          recommendedLineHeight (GetScaledFontMetrics s f sz) =
            ascent (GetScaledFontMetrics s f sz) + descent (GetScaledFontMetrics s f sz)
            + lineGap (GetScaledFontMetrics s f sz)) \<and>
         (recommendedLineHeight (GetScaledFontMetrics s f sz) =
            ascent (GetScaledFontMetrics s f sz) + descent (GetScaledFontMetrics s f sz)
            + lineGap (GetScaledFontMetrics s f sz) \<or>
          recommendedLineHeight (GetScaledFontMetrics s f sz) = sz * (6/5)) \<and>
         0 < recommendedLineHeight (GetScaledFontMetrics s f sz)"
  using assms
  by (auto simp: GetScaledFontMetrics_def sentinel_metrics_def ScaledFontMetrics_default_def
        scaled_metrics_of_face_def Let_def split: option.splits)

theorem GetScaledFontMetrics_recommendedLineHeight_witness:
  "IsFontValid one_font_engine 1 \<and> (0::real) < 32 \<and>
   1/1000 < ascent (GetScaledFontMetrics one_font_engine 1 32)
            + descent (GetScaledFontMetrics one_font_engine 1 32)
            + lineGap (GetScaledFontMetrics one_font_engine 1 32) \<and>
   recommendedLineHeight (GetScaledFontMetrics one_font_engine 1 32) =
     ascent (GetScaledFontMetrics one_font_engine 1 32)
     + descent (GetScaledFontMetrics one_font_engine 1 32)
     + lineGap (GetScaledFontMetrics one_font_engine 1 32) \<and>
   0 < recommendedLineHeight (GetScaledFontMetrics one_font_engine 1 32)"
proof -
  have v: "IsFontValid one_font_engine 1"
    by (simp add: IsFontValid_def one_font_engine_fields)
  have p: "(0::real) < 32" by simp
  have g: "1/1000 < ascent (GetScaledFontMetrics one_font_engine 1 32)
            + descent (GetScaledFontMetrics one_font_engine 1 32)
            + lineGap (GetScaledFontMetrics one_font_engine 1 32)"
    by (simp add: GetScaledFontMetrics_def IsFontValid_def one_font_engine_fields latin_font_def
          latin_face_def scaled_metrics_of_face_def Let_def)
  from GetScaledFontMetrics_recommendedLineHeight [OF v p] v g show ?thesis by simp
qed

section \<open>Properties of the glyph cache\<close>
lemma same_cache_refl [simp]: "same_cache s s"
  by (simp add: same_cache_def)

lemma same_cache_trans: "same_cache a b \<Longrightarrow> same_cache b c \<Longrightarrow> same_cache a c"
  by (simp add: same_cache_def)

lemma place_in_atlas_same_cache: "same_cache s (snd (place_in_atlas s w h))"
  by (simp add: place_in_atlas_def same_cache_def Let_def split: prod.splits)

lemma same_cache_place: "same_cache s s1 \<Longrightarrow> same_cache s (snd (place_in_atlas s1 w h))"
  using place_in_atlas_same_cache same_cache_trans by blast

lemma same_cache_upd [simp]:
  "same_cache s (s1\<lparr>current_atlas_idx := i\<rparr>) = same_cache s s1"
  "same_cache s (s1\<lparr>current_atlas_pen_pos := p\<rparr>) = same_cache s s1"
  "same_cache s (s1\<lparr>current_atlas_max_row_height := r\<rparr>) = same_cache s s1"
  "same_cache s (s1\<lparr>atlas_images := im\<rparr>) = same_cache s s1"
  "same_cache s (s1\<lparr>atlas_textures := tx\<rparr>) = same_cache s s1"
  by (simp_all add: same_cache_def)

lemma findSpaceInAtlasAndPack_same_cache:
  "same_cache s (snd (findSpaceInAtlasAndPack alloc s w h b))"
  unfolding findSpaceInAtlasAndPack_def Let_def
  by (simp add: same_cache_place split: prod.splits alloc_result.splits)

lemma glyph_from_slot_same_cache: "same_cache s (snd (glyph_from_slot alloc s isSDF slot))"
  using findSpaceInAtlasAndPack_same_cache [of s alloc "bitmap_width slot" "bitmap_rows slot" "bitmap_buffer slot"]
  by (auto simp: glyph_from_slot_def Let_def split: prod.splits)


lemma cache_consistent_card:
  "cache_consistent s \<Longrightarrow> card (dom (glyph_cache_map s)) = length (lru_glyph_list s)"
  by (simp add: cache_consistent_def distinct_card)

lemma same_cache_consistent: "same_cache s s' \<Longrightarrow> cache_consistent s' = cache_consistent s"
  by (simp add: same_cache_def cache_consistent_def)

lemma cache_touch_consistent:
  assumes "cache_consistent s" and "glyph_cache_map s key = Some g"
  shows "cache_consistent (cache_touch s key)"
    and "length (lru_glyph_list (cache_touch s key)) = length (lru_glyph_list s)"
    and "glyph_cache_map (cache_touch s key) = glyph_cache_map s"
    and "glyph_cache_capacity (cache_touch s key) = glyph_cache_capacity s"
proof -
  from assms have k: "key \<in> set (lru_glyph_list s)" and d: "distinct (lru_glyph_list s)"
    by (auto simp: cache_consistent_def)
  from k d have "set (key # remove1 key (lru_glyph_list s)) = set (lru_glyph_list s)"
    by auto
  with assms d k show "cache_consistent (cache_touch s key)"
    by (simp add: cache_consistent_def cache_touch_def)
  from k show "length (lru_glyph_list (cache_touch s key)) = length (lru_glyph_list s)"
    using length_pos_if_in_set [OF k] by (simp add: cache_touch_def length_remove1)
  show "glyph_cache_map (cache_touch s key) = glyph_cache_map s"
    "glyph_cache_capacity (cache_touch s key) = glyph_cache_capacity s"
    by (simp_all add: cache_touch_def)
qed

lemma cache_insert_fields:
  assumes "cache_consistent s" and "glyph_cache_map s key = None"
  shows "lru_glyph_list (cache_insert s key g) =
           key # (if length (lru_glyph_list s) \<ge> glyph_cache_capacity s \<and> lru_glyph_list s \<noteq> []
                  then butlast (lru_glyph_list s) else lru_glyph_list s)"
    and "dom (glyph_cache_map (cache_insert s key g)) =
           insert key (if length (lru_glyph_list s) \<ge> glyph_cache_capacity s \<and> lru_glyph_list s \<noteq> []
                       then dom (glyph_cache_map s) - {last (lru_glyph_list s)}
                       else dom (glyph_cache_map s))"
    and "glyph_cache_capacity (cache_insert s key g) = glyph_cache_capacity s"
  using assms by (auto simp: cache_insert_def Let_def cache_consistent_card)

lemma cache_insert_consistent:
  assumes c: "cache_consistent s" and n: "glyph_cache_map s key = None"
  shows "cache_consistent (cache_insert s key g)"
proof -
  let ?l = "lru_glyph_list s"
  from c have d: "distinct ?l" and e: "dom (glyph_cache_map s) = set ?l"
    by (auto simp: cache_consistent_def)
  from n have "key \<notin> dom (glyph_cache_map s)" by (simp add: domIff)
  with e have k: "key \<notin> set ?l" by simp
  have b: "set ?l - {last ?l} = set (butlast ?l)" if ne: "?l \<noteq> []"
  proof -
    from ne have eq: "butlast ?l @ [last ?l] = ?l" by simp
    with d have "distinct (butlast ?l @ [last ?l])" by simp
    then have "last ?l \<notin> set (butlast ?l)" by simp
    moreover have "set ?l = insert (last ?l) (set (butlast ?l))"
      using arg_cong [OF eq, of set] by simp
    ultimately show ?thesis by auto
  qed
  show ?thesis
    unfolding cache_consistent_def cache_insert_fields [OF c n]
    using d k e b by (auto simp: distinct_butlast dest: in_set_butlastD)
qed



lemma cache_effect_same: "same_cache s s' \<Longrightarrow> cache_effect s s'"
  by (simp add: cache_effect_def)

lemma cache_effect_touch: "glyph_cache_map s key = Some g \<Longrightarrow> cache_effect s (cache_touch s key)"
  by (auto simp: cache_effect_def)

lemma cache_effect_insert:
  "glyph_cache_map s key = None \<Longrightarrow> same_cache s s1 \<Longrightarrow> cache_effect s (cache_insert s1 key g)"
  unfolding cache_effect_def by blast

lemma cache_effect_insert_eq:
  "glyph_from_slot alloc s b slot = (g', s1) \<Longrightarrow> glyph_cache_map s key = None \<Longrightarrow>
   cache_effect s (cache_insert s1 key g)"
  using glyph_from_slot_same_cache [of s alloc b slot] by (simp add: cache_effect_insert)

lemma cache_effect_insert_slot:
  "glyph_cache_map s key = None \<Longrightarrow>
   cache_effect s (cache_insert (snd (glyph_from_slot alloc s b slot)) key g)"
  by (rule cache_effect_insert [OF _ glyph_from_slot_same_cache])

lemma getCachedGlyphByGID_effect:
  assumes "getCachedGlyphByGID alloc s f gid = Some (g, a, s')"
  shows "cache_effect s s'"
  using assms
  unfolding getCachedGlyphByGID_def Let_def
  by (auto split: if_splits option.splits prod.splits
        intro: cache_effect_same cache_effect_touch cache_effect_insert_eq)

lemma getOrCacheGlyph_effect:
  assumes "getOrCacheGlyph alloc s f cp = Some y"
  shows "cache_effect s (snd (snd y))"
  apply (rule getOrCacheGlyph.raw_induct
           [where P = "\<lambda>alloc s f cp y. cache_effect s (snd (snd y))", OF _ assms])
  subgoal premises prems for rec alloc s f cp y
    using prems(2) prems(1)
    unfolding Let_def
    by (auto split: if_splits option.splits prod.splits
          intro: cache_effect_same cache_effect_touch cache_effect_insert_slot)
  done


text \<open>
  What one get-or-create call does to the cache. The map and the list keep holding the same
  keys, whatever the size of the cache; the capacity does not change; the cache never grows
  beyond the larger of its size before the call and the capacity.
\<close>

lemma cache_effect_keys:
  assumes c: "cache_consistent s" and e: "cache_effect s s'"
  shows "cache_consistent s'" and "glyph_cache_capacity s' = glyph_cache_capacity s"
proof -
  from e consider (same) "same_cache s s'"
    | (touch) key g where "glyph_cache_map s key = Some g" "s' = cache_touch s key"
    | (ins) key g s1 where "same_cache s s1" "glyph_cache_map s key = None" "s' = cache_insert s1 key g"
    unfolding cache_effect_def by blast
  then have "cache_consistent s' \<and> glyph_cache_capacity s' = glyph_cache_capacity s"
  proof cases
    case same
    with c show ?thesis by (simp add: same_cache_def cache_consistent_def)
  next
    case touch
    with cache_touch_consistent [OF c touch(1)] show ?thesis by simp
  next
    case ins
    from ins(1) c have c1: "cache_consistent s1" by (simp add: same_cache_consistent)
    from ins(1,2) have n1: "glyph_cache_map s1 key = None" by (simp add: same_cache_def)
    from ins(1) have "glyph_cache_capacity s1 = glyph_cache_capacity s" by (simp add: same_cache_def)
    with cache_insert_consistent [OF c1 n1, of g] cache_insert_fields(3) [OF c1 n1, of g] ins(3)
    show ?thesis by simp
  qed
  then show "cache_consistent s'" and "glyph_cache_capacity s' = glyph_cache_capacity s" by simp_all
qed

lemma cache_effect_size:
  assumes c: "cache_consistent s" and p: "0 < glyph_cache_capacity s" and e: "cache_effect s s'"
  shows "card (dom (glyph_cache_map s')) \<le> max (card (dom (glyph_cache_map s))) (glyph_cache_capacity s)"
proof -
  from e consider (same) "same_cache s s'"
    | (touch) key g where "glyph_cache_map s key = Some g" "s' = cache_touch s key"
    | (ins) key g s1 where "same_cache s s1" "glyph_cache_map s key = None" "s' = cache_insert s1 key g"
    unfolding cache_effect_def by blast
  then show ?thesis
  proof cases
    case same
    then show ?thesis by (simp add: same_cache_def)
  next
    case touch
    with cache_touch_consistent [OF c touch(1)] show ?thesis by simp
  next
    case ins
    from ins(1) c have c1: "cache_consistent s1" by (simp add: same_cache_consistent)
    from ins(1,2) have n1: "glyph_cache_map s1 key = None" by (simp add: same_cache_def)
    from ins(1) have eq: "lru_glyph_list s1 = lru_glyph_list s" "glyph_cache_map s1 = glyph_cache_map s"
      "glyph_cache_capacity s1 = glyph_cache_capacity s" by (simp_all add: same_cache_def)
    have len: "card (dom (glyph_cache_map s)) = length (lru_glyph_list s)"
      by (rule cache_consistent_card [OF c])
    have "cache_consistent s'" unfolding ins(3) by (rule cache_insert_consistent [OF c1 n1])
    then have len': "card (dom (glyph_cache_map s')) = length (lru_glyph_list s')"
      by (rule cache_consistent_card)
    show ?thesis
      unfolding len len' unfolding ins(3) cache_insert_fields(1) [OF c1 n1, of g, unfolded eq]
      using p by (cases "lru_glyph_list s = []") auto
  qed
qed

text \<open>
  The order of the LRU list: a call leaves the cache alone (an error return), or moves the
  key it hits to the front of the list, or puts the key it misses at the front, after
  removing the key at the back of the list when the map has reached the capacity.
\<close>

lemma cache_effect_lru:
  assumes c: "cache_consistent s" and e: "cache_effect s s'"
  shows "(lru_glyph_list s' = lru_glyph_list s \<and> glyph_cache_map s' = glyph_cache_map s) \<or>
         (\<exists>key. key \<in> dom (glyph_cache_map s) \<and>
            lru_glyph_list s' = key # remove1 key (lru_glyph_list s) \<and>
            glyph_cache_map s' = glyph_cache_map s) \<or>
         (\<exists>key. key \<notin> dom (glyph_cache_map s) \<and>
            (if card (dom (glyph_cache_map s)) \<ge> glyph_cache_capacity s \<and> lru_glyph_list s \<noteq> []
             then lru_glyph_list s' = key # butlast (lru_glyph_list s) \<and>
                  dom (glyph_cache_map s') = insert key (dom (glyph_cache_map s) - {last (lru_glyph_list s)})
             else lru_glyph_list s' = key # lru_glyph_list s \<and>
                  dom (glyph_cache_map s') = insert key (dom (glyph_cache_map s))))"
proof -
  from e consider (same) "same_cache s s'"
    | (touch) key g where "glyph_cache_map s key = Some g" "s' = cache_touch s key"
    | (ins) key g s1 where "same_cache s s1" "glyph_cache_map s key = None" "s' = cache_insert s1 key g"
    unfolding cache_effect_def by blast
  then show ?thesis
  proof cases
    case same
    then show ?thesis by (simp add: same_cache_def)
  next
    case touch
    then have "key \<in> dom (glyph_cache_map s) \<and>
            lru_glyph_list s' = key # remove1 key (lru_glyph_list s) \<and>
            glyph_cache_map s' = glyph_cache_map s"
      by (auto simp: cache_touch_def)
    then show ?thesis by blast
  next
    case ins
    from ins(1) c have c1: "cache_consistent s1" by (simp add: same_cache_consistent)
    from ins(1,2) have n1: "glyph_cache_map s1 key = None" by (simp add: same_cache_def)
    from ins(1) have eq: "lru_glyph_list s1 = lru_glyph_list s" "glyph_cache_map s1 = glyph_cache_map s"
      "glyph_cache_capacity s1 = glyph_cache_capacity s" by (simp_all add: same_cache_def)
    note f = cache_insert_fields [OF c1 n1, of g, unfolded eq]
    have len: "card (dom (glyph_cache_map s)) = length (lru_glyph_list s)"
      by (rule cache_consistent_card [OF c])
    from ins(2) have k: "key \<notin> dom (glyph_cache_map s)" by (simp add: domIff)
    have "key \<notin> dom (glyph_cache_map s) \<and>
            (if card (dom (glyph_cache_map s)) \<ge> glyph_cache_capacity s \<and> lru_glyph_list s \<noteq> []
             then lru_glyph_list s' = key # butlast (lru_glyph_list s) \<and>
                  dom (glyph_cache_map s') = insert key (dom (glyph_cache_map s) - {last (lru_glyph_list s)})
             else lru_glyph_list s' = key # lru_glyph_list s \<and>
                  dom (glyph_cache_map s') = insert key (dom (glyph_cache_map s)))"
      unfolding ins(3) f(1) f(2) len using k by simp
    then show ?thesis by blast
  qed
qed

lemma getCachedGlyphByGID_hit:
  assumes "loadedFonts s f = Some fontData"
    and "glyph_cache_map s
           \<lparr>key_fontId = f, key_glyphIndex = gid, key_sdfPixelSize = sdfGenSize_of fontData,
            key_isSDF = (atlas_type_hint s = SDF_BITMAP)\<rparr> = Some cached"
  shows "getCachedGlyphByGID alloc s f gid =
           Some (cached, f,
             s\<lparr>lru_glyph_list :=
                 \<lparr>key_fontId = f, key_glyphIndex = gid, key_sdfPixelSize = sdfGenSize_of fontData,
                  key_isSDF = (atlas_type_hint s = SDF_BITMAP)\<rparr> #
                 remove1 \<lparr>key_fontId = f, key_glyphIndex = gid, key_sdfPixelSize = sdfGenSize_of fontData,
                          key_isSDF = (atlas_type_hint s = SDF_BITMAP)\<rparr> (lru_glyph_list s)\<rparr>)"
  using assms by (simp add: getCachedGlyphByGID_def IsFontValid_def cache_touch_def Let_def domIff)

lemma getCachedGlyphByGID_miss:
  assumes c: "cache_consistent s"
    and l: "loadedFonts s f = Some fontData"
    and n: "glyph_cache_map s
           \<lparr>key_fontId = f, key_glyphIndex = gid, key_sdfPixelSize = sdfGenSize_of fontData,
            key_isSDF = (atlas_type_hint s = SDF_BITMAP)\<rparr> = None"
    and r: "getCachedGlyphByGID alloc s f gid = Some (g, a, s')"
  shows "lru_glyph_list s' =
           \<lparr>key_fontId = f, key_glyphIndex = gid, key_sdfPixelSize = sdfGenSize_of fontData,
            key_isSDF = (atlas_type_hint s = SDF_BITMAP)\<rparr> #
           (if card (dom (glyph_cache_map s)) \<ge> glyph_cache_capacity s \<and> lru_glyph_list s \<noteq> []
            then butlast (lru_glyph_list s) else lru_glyph_list s)"
    and "dom (glyph_cache_map s') =
           insert \<lparr>key_fontId = f, key_glyphIndex = gid, key_sdfPixelSize = sdfGenSize_of fontData,
                   key_isSDF = (atlas_type_hint s = SDF_BITMAP)\<rparr>
             (if card (dom (glyph_cache_map s)) \<ge> glyph_cache_capacity s \<and> lru_glyph_list s \<noteq> []
              then dom (glyph_cache_map s) - {last (lru_glyph_list s)} else dom (glyph_cache_map s))"
proof -
  let ?key = "\<lparr>key_fontId = f, key_glyphIndex = gid, key_sdfPixelSize = sdfGenSize_of fontData,
            key_isSDF = (atlas_type_hint s = SDF_BITMAP)\<rparr>"
  from r l n obtain face where fc: "ftFace fontData = Some face"
    by (auto simp: getCachedGlyphByGID_def IsFontValid_def Let_def domIff split: option.splits)
  let ?slot = "snd (load_render face gid (nat (sdfGenSize_of fontData)) (atlas_type_hint s = SDF_BITMAP))"
  let ?s1 = "snd (glyph_from_slot alloc s (atlas_type_hint s = SDF_BITMAP) ?slot)"
  from r l n fc have s': "s' = cache_insert ?s1 ?key g"
    by (auto simp: getCachedGlyphByGID_def IsFontValid_def Let_def domIff split: prod.splits)
  have sc: "same_cache s ?s1" by (rule glyph_from_slot_same_cache)
  from sc c have c1: "cache_consistent ?s1" by (simp add: same_cache_consistent)
  from sc n have n1: "glyph_cache_map ?s1 ?key = None" by (simp add: same_cache_def)
  from sc have eq: "lru_glyph_list ?s1 = lru_glyph_list s" "glyph_cache_map ?s1 = glyph_cache_map s"
    "glyph_cache_capacity ?s1 = glyph_cache_capacity s" by (simp_all add: same_cache_def)
  have len: "card (dom (glyph_cache_map s)) = length (lru_glyph_list s)"
    by (rule cache_consistent_card [OF c])
  note f = cache_insert_fields [OF c1 n1, of g, unfolded eq]
  show "lru_glyph_list s' = ?key #
           (if card (dom (glyph_cache_map s)) \<ge> glyph_cache_capacity s \<and> lru_glyph_list s \<noteq> []
            then butlast (lru_glyph_list s) else lru_glyph_list s)"
    unfolding s' f(1) len by simp
  show "dom (glyph_cache_map s') = insert ?key
             (if card (dom (glyph_cache_map s)) \<ge> glyph_cache_capacity s \<and> lru_glyph_list s \<noteq> []
              then dom (glyph_cache_map s) - {last (lru_glyph_list s)} else dom (glyph_cache_map s))"
    unfolding s' f(2) len by simp
qed

lemma get_or_create_cache_step:
  assumes "cache_consistent s"
    and "getCachedGlyphByGID alloc s f gid = Some (g, a, s') \<or>
         getOrCacheGlyph alloc s f cp = Some (g, a, s')"
  shows "cache_consistent s'"
    and "glyph_cache_capacity s' = glyph_cache_capacity s"
    and "0 < glyph_cache_capacity s \<Longrightarrow>
         card (dom (glyph_cache_map s')) \<le> max (card (dom (glyph_cache_map s))) (glyph_cache_capacity s)"
proof -
  from assms(2) have e: "cache_effect s s'"
    using getCachedGlyphByGID_effect getOrCacheGlyph_effect [of alloc s f cp "(g, a, s')"] by auto
  from cache_effect_keys [OF assms(1) e]
  show "cache_consistent s'" and "glyph_cache_capacity s' = glyph_cache_capacity s" .
  show "card (dom (glyph_cache_map s')) \<le> max (card (dom (glyph_cache_map s))) (glyph_cache_capacity s)"
    if "0 < glyph_cache_capacity s"
    by (rule cache_effect_size [OF assms(1) that e])
qed

text \<open>Both get-or-create functions return when every loaded font has a face and, for the
  one by codepoint, no glyph fails to load.\<close>

lemma getCachedGlyphByGID_returns:
  assumes "fonts_have_faces s"
  shows "getCachedGlyphByGID alloc s f gid \<noteq> None"
  using assms
  by (auto simp: getCachedGlyphByGID_def fonts_have_faces_def IsFontValid_def ran_def Let_def
        split: option.splits prod.splits)

lemma try_fallbacks_valid:
  "try_fallbacks s cp chain g0 = (a, g) \<Longrightarrow> a = INVALID_FONT_ID \<or> IsFontValid s a"
  by (induction chain arbitrary: g0) (auto split: if_splits)

lemma resolve_glyph_font_valid:
  assumes "resolve_glyph_font s f cp = Some (a, g)"
  shows "IsFontValid s a"
  using assms try_fallbacks_valid [of s cp _ _ a]
  unfolding resolve_glyph_font_def Let_def
  by (auto split: if_splits option.splits prod.splits)

lemma getOrCacheGlyph_returns:
  assumes "fonts_have_faces s"
    and "\<forall>fontData face gid px sdf. fontData \<in> ran (loadedFonts s) \<longrightarrow> ftFace fontData = Some face \<longrightarrow>
           fst (load_render face gid px sdf) \<noteq> FT_Load_Error"
  shows "getOrCacheGlyph alloc s f cp \<noteq> None"
proof (cases "resolve_glyph_font s f cp")
  case None
  then show ?thesis by (simp add: getOrCacheGlyph.simps)
next
  case (Some r)
  obtain a g where r: "r = (a, g)" by (cases r)
  from resolve_glyph_font_valid [OF Some [unfolded r]] obtain fontData
    where l: "loadedFonts s a = Some fontData" by (auto simp: IsFontValid_def)
  then have rn: "fontData \<in> ran (loadedFonts s)" by (auto simp: ran_def)
  with assms(1) obtain face where fc: "ftFace fontData = Some face"
    by (auto simp: fonts_have_faces_def)
  from assms(2) rn fc have nl: "\<And>gid px sdf. fst (load_render face gid px sdf) \<noteq> FT_Load_Error"
    by blast
  show ?thesis
    by (subst getOrCacheGlyph.simps) (simp add: Some r l fc nl Let_def split: option.splits)
qed

lemma one_font_engine_cache:
  "lru_glyph_list one_font_engine = []" "glyph_cache_map one_font_engine = Map.empty"
  "glyph_cache_capacity one_font_engine = 512" "atlas_type_hint one_font_engine = SDF_BITMAP"
  "atlas_images one_font_engine = []" "atlas_textures one_font_engine = []"
  "current_atlas_idx one_font_engine = -1" "current_atlas_pen_pos one_font_engine = (0, 0)"
  "atlas_width one_font_engine = 1024" "atlas_height one_font_engine = 1024"
  by (simp_all add: one_font_engine_def LoadFont_def new_engine_def SetDefaultFont_def
        INVALID_FONT_ID_def IsFontValid_def Let_def)

lemma first_glyph_call:
  "getCachedGlyphByGID alloc_ok one_font_engine 1 68 \<noteq> None"
  "lru_glyph_list (engine_after (getCachedGlyphByGID alloc_ok one_font_engine 1 68)) =
     [\<lparr>key_fontId = 1, key_glyphIndex = 68, key_sdfPixelSize = 64, key_isSDF = True\<rparr>]"
  "dom (glyph_cache_map (engine_after (getCachedGlyphByGID alloc_ok one_font_engine 1 68))) =
     {\<lparr>key_fontId = 1, key_glyphIndex = 68, key_sdfPixelSize = 64, key_isSDF = True\<rparr>}"
  "glyph_cache_capacity (engine_after (getCachedGlyphByGID alloc_ok one_font_engine 1 68)) = 512"
  "atlas_textures (engine_after (getCachedGlyphByGID alloc_ok one_font_engine 1 68)) = [1]"
  by (simp_all add: getCachedGlyphByGID_def engine_after_def IsFontValid_def one_font_engine_fields
        one_font_engine_cache latin_font_def latin_face_def sdfGenSize_of_def glyph_from_slot_def
        ink_slot_def findSpaceInAtlasAndPack_def place_in_atlas_def alloc_ok_def cache_insert_def
        FTCachedGlyph_default_def Let_def)

lemma two_font_engine_cache:
  "lru_glyph_list two_font_engine = []" "glyph_cache_map two_font_engine = Map.empty"
  "glyph_cache_capacity two_font_engine = 512" "atlas_type_hint two_font_engine = SDF_BITMAP"
  "atlas_images two_font_engine = []" "atlas_textures two_font_engine = []"
  "atlas_width two_font_engine = 1024" "atlas_height two_font_engine = 1024"
  by (simp_all add: two_font_engine_def LoadFont_def one_font_engine_fields one_font_engine_cache
        INVALID_FONT_ID_def Let_def)

lemma space_glyph_1:
  "engine_after (getCachedGlyphByGID alloc_ok two_font_engine 1 3) =
     cache_insert two_font_engine
       \<lparr>key_fontId = 1, key_glyphIndex = 3, key_sdfPixelSize = 64, key_isSDF = True\<rparr>
       (fst (glyph_from_slot alloc_ok two_font_engine True empty_slot))"
  by (simp add: getCachedGlyphByGID_def engine_after_def IsFontValid_def two_font_engine_fields
        two_font_engine_cache latin_font_def latin_face_def sdfGenSize_of_def glyph_from_slot_def
        empty_slot_def Let_def)

lemma spaces_cached_engine_fields:
  "lru_glyph_list spaces_cached_engine =
     [\<lparr>key_fontId = 2, key_glyphIndex = 2, key_sdfPixelSize = 64, key_isSDF = True\<rparr>,
      \<lparr>key_fontId = 1, key_glyphIndex = 3, key_sdfPixelSize = 64, key_isSDF = True\<rparr>]"
  "dom (glyph_cache_map spaces_cached_engine) =
     {\<lparr>key_fontId = 2, key_glyphIndex = 2, key_sdfPixelSize = 64, key_isSDF = True\<rparr>,
      \<lparr>key_fontId = 1, key_glyphIndex = 3, key_sdfPixelSize = 64, key_isSDF = True\<rparr>}"
  "atlas_textures spaces_cached_engine = []" "atlas_images spaces_cached_engine = []"
  "glyph_cache_capacity spaces_cached_engine = 512"
  "atlas_type_hint spaces_cached_engine = SDF_BITMAP"
  "loadedFonts spaces_cached_engine = [1 \<mapsto> latin_font, 2 \<mapsto> cjk_font]"
  unfolding spaces_cached_engine_def space_glyph_1
  by (simp_all add: getCachedGlyphByGID_def engine_after_def IsFontValid_def two_font_engine_fields
        two_font_engine_cache latin_font_def latin_face_def cjk_font_def sdfGenSize_of_def
        glyph_from_slot_def empty_slot_def cache_insert_def Let_def)

lemma shrunk_engine_fields:
  "lru_glyph_list shrunk_engine =
     [\<lparr>key_fontId = 2, key_glyphIndex = 2, key_sdfPixelSize = 64, key_isSDF = True\<rparr>,
      \<lparr>key_fontId = 1, key_glyphIndex = 3, key_sdfPixelSize = 64, key_isSDF = True\<rparr>]"
  "dom (glyph_cache_map shrunk_engine) =
     {\<lparr>key_fontId = 2, key_glyphIndex = 2, key_sdfPixelSize = 64, key_isSDF = True\<rparr>,
      \<lparr>key_fontId = 1, key_glyphIndex = 3, key_sdfPixelSize = 64, key_isSDF = True\<rparr>}"
  "glyph_cache_capacity shrunk_engine = 1"
  "atlas_type_hint shrunk_engine = SDF_BITMAP"
  "loadedFonts shrunk_engine = [1 \<mapsto> latin_font, 2 \<mapsto> cjk_font]"
  by (simp_all add: shrunk_engine_def SetGlyphAtlasOptions_def spaces_cached_engine_fields Let_def)

lemma shrunk_engine_consistent: "cache_consistent shrunk_engine"
  by (simp add: cache_consistent_def shrunk_engine_fields)

lemma latin_font_fields:
  "sdfGenSize_of latin_font = 64"
  by (simp add: latin_font_def sdfGenSize_of_def)

text \<open>
  C4 at a failing input. Two fonts are loaded and the space glyph of each is cached by
  \<open>getCachedGlyphByGID\<close>; neither needs an atlas page. \<open>SetGlyphAtlasOptions\<close> with
  capacity 1 then leaves both entries in the cache, because it clears the cache only when an
  atlas page exists. From that engine a get-or-create call returns with two entries in a
  cache of capacity 1: a hit (glyph 3 of font 1) moves its key to the front of the LRU list,
  and a miss (glyph 68 of font 1) removes the key at the back of the list and puts its own
  at the front.
\<close>

theorem cache_exceeds_capacity_after_get_or_create:
  "glyph_cache_capacity shrunk_engine = 1 \<and>
   getCachedGlyphByGID alloc_ok shrunk_engine 1 3 \<noteq> None \<and>
   glyph_cache_capacity (engine_after (getCachedGlyphByGID alloc_ok shrunk_engine 1 3)) = 1 \<and>
   lru_glyph_list (engine_after (getCachedGlyphByGID alloc_ok shrunk_engine 1 3)) =
     [\<lparr>key_fontId = 1, key_glyphIndex = 3, key_sdfPixelSize = 64, key_isSDF = True\<rparr>,
      \<lparr>key_fontId = 2, key_glyphIndex = 2, key_sdfPixelSize = 64, key_isSDF = True\<rparr>] \<and>
   card (dom (glyph_cache_map (engine_after (getCachedGlyphByGID alloc_ok shrunk_engine 1 3)))) = 2 \<and>
   getCachedGlyphByGID alloc_ok shrunk_engine 1 68 \<noteq> None \<and>
   glyph_cache_capacity (engine_after (getCachedGlyphByGID alloc_ok shrunk_engine 1 68)) = 1 \<and>
   lru_glyph_list (engine_after (getCachedGlyphByGID alloc_ok shrunk_engine 1 68)) =
     [\<lparr>key_fontId = 1, key_glyphIndex = 68, key_sdfPixelSize = 64, key_isSDF = True\<rparr>,
      \<lparr>key_fontId = 2, key_glyphIndex = 2, key_sdfPixelSize = 64, key_isSDF = True\<rparr>] \<and>
   card (dom (glyph_cache_map (engine_after (getCachedGlyphByGID alloc_ok shrunk_engine 1 68)))) = 2"
proof -
  let ?k3 = "\<lparr>key_fontId = 1, key_glyphIndex = 3, key_sdfPixelSize = 64, key_isSDF = True\<rparr>"
  let ?k68 = "\<lparr>key_fontId = 1, key_glyphIndex = 68, key_sdfPixelSize = 64, key_isSDF = True\<rparr>"
  have l: "loadedFonts shrunk_engine 1 = Some latin_font" by (simp add: shrunk_engine_fields)
  have "?k3 \<in> dom (glyph_cache_map shrunk_engine)" by (simp add: shrunk_engine_fields)
  then obtain g3 where g3: "glyph_cache_map shrunk_engine ?k3 = Some g3" by blast
  have hit: "getCachedGlyphByGID alloc_ok shrunk_engine 1 3 =
               Some (g3, 1, shrunk_engine\<lparr>lru_glyph_list := ?k3 # remove1 ?k3 (lru_glyph_list shrunk_engine)\<rparr>)"
    using getCachedGlyphByGID_hit [OF l, of 3 g3 alloc_ok] g3
    by (simp add: latin_font_fields shrunk_engine_fields)
  have "?k68 \<notin> dom (glyph_cache_map shrunk_engine)" by (simp add: shrunk_engine_fields)
  then have n68: "glyph_cache_map shrunk_engine ?k68 = None" by (simp add: domIff)
  have ff: "fonts_have_faces shrunk_engine"
    by (auto simp: fonts_have_faces_def shrunk_engine_fields ran_def latin_font_def cjk_font_def
          split: if_splits)
  from getCachedGlyphByGID_returns [OF ff, of alloc_ok 1 68]
  obtain g a s' where miss: "getCachedGlyphByGID alloc_ok shrunk_engine 1 68 = Some (g, a, s')"
    by (cases "getCachedGlyphByGID alloc_ok shrunk_engine 1 68") auto
  have n68': "glyph_cache_map shrunk_engine
           \<lparr>key_fontId = 1, key_glyphIndex = 68, key_sdfPixelSize = sdfGenSize_of latin_font,
            key_isSDF = (atlas_type_hint shrunk_engine = SDF_BITMAP)\<rparr> = None"
    using n68 by (simp add: latin_font_fields shrunk_engine_fields)
  note M = getCachedGlyphByGID_miss [OF shrunk_engine_consistent l n68' miss]
  have cap: "glyph_cache_capacity s' = 1"
    using get_or_create_cache_step(2) [OF shrunk_engine_consistent disjI1 [OF miss]]
    by (simp add: shrunk_engine_fields)
  show ?thesis
    unfolding hit miss engine_after_def
    using M cap
    by (simp add: shrunk_engine_fields latin_font_fields)
qed

section \<open>Unloading a font\<close>
lemma evict_font_spec:
  "evict_font f l m =
     (filter (\<lambda>k. key_fontId k \<noteq> f) l,
      (\<lambda>k. if k \<in> set l \<and> key_fontId k = f then None else m k))"
  by (induction l arbitrary: m) (auto simp: fun_eq_iff)

lemma UnloadFont_fields:
  assumes "f \<in> dom (loadedFonts s)"
  shows "loadedFonts (UnloadFont s f) = (loadedFonts s)(f := None)"
    and "lru_glyph_list (UnloadFont s f) = filter (\<lambda>k. key_fontId k \<noteq> f) (lru_glyph_list s)"
    and "glyph_cache_map (UnloadFont s f) =
           (\<lambda>k. if k \<in> set (lru_glyph_list s) \<and> key_fontId k = f then None else glyph_cache_map s k)"
    and "fontFallbackChains (UnloadFont s f) =
           (\<lambda>p. map_option (filter (\<lambda>x. x \<noteq> f)) (((fontFallbackChains s)(f := None)) p))"
    and "defaultFontId (UnloadFont s f) =
           (if defaultFontId s = f
            then (if dom ((loadedFonts s)(f := None)) = {} then INVALID_FONT_ID
                  else Min (dom ((loadedFonts s)(f := None))))
            else defaultFontId s)"
  using assms by (simp_all add: UnloadFont_def evict_font_spec Let_def)

text \<open>
  C8. In an engine whose cache map and LRU list hold the same keys and whose default font
  is invalid or loaded (both hold in every engine the operations can reach), after
  \<open>UnloadFont f\<close> of a loaded font \<open>f\<close> no key of the glyph cache, in the map or in the
  LRU list, references \<open>f\<close>, \<open>f\<close> has no fallback chain, no fallback chain contains \<open>f\<close>,
  and the default font id is \<open>INVALID_FONT_ID\<close> or the id of a font still in the registry.
\<close>

theorem UnloadFont_purges_font:
  assumes "cache_consistent s" and "default_font_ok s" and "f \<in> dom (loadedFonts s)"
  shows "(\<forall>k \<in> dom (glyph_cache_map (UnloadFont s f)). key_fontId k \<noteq> f) \<and>
         (\<forall>k \<in> set (lru_glyph_list (UnloadFont s f)). key_fontId k \<noteq> f) \<and>
         fontFallbackChains (UnloadFont s f) f = None \<and>
         (\<forall>p chain. fontFallbackChains (UnloadFont s f) p = Some chain \<longrightarrow> f \<notin> set chain) \<and>
         (defaultFontId (UnloadFont s f) = INVALID_FONT_ID \<or>
          defaultFontId (UnloadFont s f) \<in> dom (loadedFonts (UnloadFont s f))) \<and>
         f \<notin> dom (loadedFonts (UnloadFont s f))"
proof -
  note F = UnloadFont_fields [OF assms(3)]
  from assms(1) have d: "dom (glyph_cache_map s) = set (lru_glyph_list s)"
    by (simp add: cache_consistent_def)
  have 1: "\<forall>k \<in> dom (glyph_cache_map (UnloadFont s f)). key_fontId k \<noteq> f"
    unfolding F using d by (auto simp: domIff split: if_splits)
  have 2: "\<forall>k \<in> set (lru_glyph_list (UnloadFont s f)). key_fontId k \<noteq> f"
    unfolding F by simp
  have 3: "fontFallbackChains (UnloadFont s f) f = None"
    unfolding F by simp
  have 4: "\<forall>p chain. fontFallbackChains (UnloadFont s f) p = Some chain \<longrightarrow> f \<notin> set chain"
    unfolding F by (auto split: if_splits)
  from assms(2) have fin: "finite (dom ((loadedFonts s)(f := None)))"
    by (simp add: default_font_ok_def)
  have 5: "defaultFontId (UnloadFont s f) = INVALID_FONT_ID \<or>
          defaultFontId (UnloadFont s f) \<in> dom (loadedFonts (UnloadFont s f))"
  proof (cases "defaultFontId s = f")
    case True
    show ?thesis
    proof (cases "dom ((loadedFonts s)(f := None)) = {}")
      case True
      with \<open>defaultFontId s = f\<close> show ?thesis unfolding F by simp
    next
      case False
      from Min_in [OF fin False] \<open>defaultFontId s = f\<close> False show ?thesis
        unfolding F by simp
    qed
  next
    case False
    with assms(2) show ?thesis unfolding F by (auto simp: default_font_ok_def)
  qed
  have 6: "f \<notin> dom (loadedFonts (UnloadFont s f))" unfolding F by simp
  from 1 2 3 4 5 6 show ?thesis by blast
qed



lemma new_engine_ok: "engine_ok (new_engine b)"
  by (simp add: engine_ok_def cache_consistent_def default_font_ok_def new_engine_def)

lemma SetDefaultFont_ok: "engine_ok s \<Longrightarrow> engine_ok (SetDefaultFont s f)"
  by (auto simp: engine_ok_def cache_consistent_def default_font_ok_def SetDefaultFont_def IsFontValid_def)

lemma LoadFont_ok: "engine_ok s \<Longrightarrow> engine_ok (snd (LoadFont s l))"
  by (auto simp: engine_ok_def cache_consistent_def default_font_ok_def LoadFont_def Let_def
      SetDefaultFont_def IsFontValid_def split: option.splits)

lemma SetFontFallbackChain_ok: "engine_ok s \<Longrightarrow> engine_ok (SetFontFallbackChain s p c)"
  by (auto simp: engine_ok_def cache_consistent_def default_font_ok_def SetFontFallbackChain_def)

lemma performCacheCleanup_ok: "engine_ok s \<Longrightarrow> engine_ok (performCacheCleanup s)"
  by (auto simp: engine_ok_def cache_consistent_def default_font_ok_def performCacheCleanup_def)

lemma SetGlyphAtlasOptions_ok: "engine_ok s \<Longrightarrow> engine_ok (SetGlyphAtlasOptions s n w h t)"
  by (auto simp: engine_ok_def cache_consistent_def default_font_ok_def SetGlyphAtlasOptions_def
      performCacheCleanup_def Let_def)

lemma UnloadFont_ok:
  assumes "engine_ok s" shows "engine_ok (UnloadFont s f)"
proof (cases "f \<in> dom (loadedFonts s)")
  case False
  with assms show ?thesis by (simp add: UnloadFont_def)
next
  case True
  note F = UnloadFont_fields [OF True]
  from assms have c: "cache_consistent s" and d: "default_font_ok s" and p: "0 < glyph_cache_capacity s"
    by (simp_all add: engine_ok_def)
  from UnloadFont_purges_font [OF c d True]
  have df: "defaultFontId (UnloadFont s f) = INVALID_FONT_ID \<or>
          defaultFontId (UnloadFont s f) \<in> dom (loadedFonts (UnloadFont s f))" by blast
  from d have fin: "finite (dom (loadedFonts (UnloadFont s f)))"
    unfolding F by (simp add: default_font_ok_def)
  have "dom (glyph_cache_map (UnloadFont s f)) =
          {k \<in> dom (glyph_cache_map s). \<not> (k \<in> set (lru_glyph_list s) \<and> key_fontId k = f)}"
    unfolding F by (auto simp: domIff split: if_splits)
  with c have cc: "cache_consistent (UnloadFont s f)"
    unfolding cache_consistent_def F(2) by auto
  from p True have "0 < glyph_cache_capacity (UnloadFont s f)"
    by (simp add: UnloadFont_def Let_def split: prod.splits)
  with cc df fin show ?thesis by (simp add: engine_ok_def default_font_ok_def)
qed

lemma two_font_engine_ok: "engine_ok two_font_engine"
  unfolding two_font_engine_def one_font_engine_def
  by (intro LoadFont_ok new_engine_ok)

theorem UnloadFont_purges_font_witness:
  "cache_consistent two_font_engine \<and> default_font_ok two_font_engine \<and>
   1 \<in> dom (loadedFonts two_font_engine) \<and>
   fontFallbackChains (UnloadFont two_font_engine 1) 1 = None \<and>
   defaultFontId (UnloadFont two_font_engine 1) = 2 \<and>
   defaultFontId (UnloadFont two_font_engine 1) \<in> dom (loadedFonts (UnloadFont two_font_engine 1)) \<and>
   1 \<notin> dom (loadedFonts (UnloadFont two_font_engine 1))"
proof -
  from two_font_engine_ok have c: "cache_consistent two_font_engine"
    and d: "default_font_ok two_font_engine"
    by (simp_all add: engine_ok_def)
  have l: "1 \<in> dom (loadedFonts two_font_engine)"
    by (simp add: two_font_engine_fields)
  have e: "defaultFontId (UnloadFont two_font_engine 1) = 2"
    by (simp add: UnloadFont_fields [OF l] two_font_engine_fields)
  have "INVALID_FONT_ID \<noteq> (2::int)" by (simp add: INVALID_FONT_ID_def)
  with UnloadFont_purges_font [OF c d l] c d l e show ?thesis by simp
qed

section \<open>The line of a byte offset\<close>

lemma find_upt_from:
  "m \<le> i \<Longrightarrow> i < n \<Longrightarrow> P i \<Longrightarrow> (\<forall>j. m \<le> j \<and> j < i \<longrightarrow> \<not> P j) \<Longrightarrow> find P [m..<n] = Some i"
proof (induction "i - m" arbitrary: m)
  case 0
  then have "m = i" by simp
  with 0 show ?case by (simp add: upt_conv_Cons)
next
  case (Suc k)
  then have "m < i" and "m < n" by simp_all
  with Suc.prems have "\<not> P m" by simp
  moreover from Suc have "find P [Suc m..<n] = Some i" by simp
  ultimately show ?case using \<open>m < n\<close> by (simp add: upt_conv_Cons)
qed

lemma find_first:
  assumes "i < n" and "P i" and "\<forall>j<i. \<not> P j"
  shows "find P [0..<n] = Some i"
  using find_upt_from [of 0 i n P] assms by simp

lemma spec_owns_imp_hit:
  "i < length ls \<Longrightarrow> spec_line_owns_offset ls b i \<Longrightarrow> line_hit ls tlen b i"
  by (auto simp: spec_line_owns_offset_def line_hit_def)

lemma hit_imp_spec_owns_or_last:
  "i < length ls \<Longrightarrow> line_hit ls tlen b i \<Longrightarrow> spec_line_owns_offset ls b i \<or> i = length ls - 1"
  by (auto simp: spec_line_owns_offset_def line_hit_def)

text \<open>
  C6. \<open>GetCursorInfoFromByteOffset\<close> selects, for the offset clamped to the text length,
  the first line that owns it by the rule of the specification: the offset lies in the
  line's byte range, or it equals the line's end byte and there is no next line or the next
  line starts after it. The cursor keeps the clamped offset.
\<close>

theorem cursor_line_is_first_owner:
  assumes "i < length (lines tb)"
    and "spec_line_owns_offset (lines tb) (min b (byte_length (sourceTextConcatenated tb))) i"
    and "\<forall>j<i. \<not> spec_line_owns_offset (lines tb) (min b (byte_length (sourceTextConcatenated tb))) j"
  shows "cursor_line_of_offset tb b = (int i, min b (byte_length (sourceTextConcatenated tb)))"
proof -
  let ?b = "min b (byte_length (sourceTextConcatenated tb))"
  let ?t = "byte_length (sourceTextConcatenated tb)"
  have h: "line_hit (lines tb) ?t ?b i" by (rule spec_owns_imp_hit [OF assms(1,2)])
  have n: "\<forall>j<i. \<not> line_hit (lines tb) ?t ?b j"
  proof (intro allI impI)
    fix j assume "j < i"
    with assms(1) have jl: "j < length (lines tb)" and "j \<noteq> length (lines tb) - 1" by auto
    with hit_imp_spec_owns_or_last [OF jl] assms(3) \<open>j < i\<close>
    show "\<not> line_hit (lines tb) ?t ?b j" by blast
  qed
  from find_first [OF assms(1), of "line_hit (lines tb) ?t ?b", OF h n] assms(1)
  show ?thesis by (auto simp: cursor_line_of_offset_def Let_def)
qed

lemma contiguous_start_mono:
  assumes "lines_contiguous ls" and "j \<le> i" and "i < length ls"
  shows "sourceTextByteEndIndexInBlockText (ls ! j) \<le> sourceTextByteEndIndexInBlockText (ls ! i)"
  using assms(2,3)
proof (induction i)
  case 0
  then show ?case by simp
next
  case (Suc i)
  show ?case
  proof (cases "j = Suc i")
    case True
    then show ?thesis by simp
  next
    case False
    with Suc have "sourceTextByteEndIndexInBlockText (ls ! j) \<le> sourceTextByteEndIndexInBlockText (ls ! i)"
      by simp
    also from assms(1) Suc.prems have "\<dots> = sourceTextByteStartIndexInBlockText (ls ! Suc i)"
      by (simp add: lines_contiguous_def)
    also from assms(1) Suc.prems have "\<dots> \<le> sourceTextByteEndIndexInBlockText (ls ! Suc i)"
      by (simp add: lines_contiguous_def)
    finally show ?thesis .
  qed
qed

lemma contiguous_owner_unique:
  assumes c: "lines_contiguous ls" and "i < length ls" and "j < i"
    and "spec_line_owns_offset ls b i"
  shows "\<not> spec_line_owns_offset ls b j"
proof
  assume o: "spec_line_owns_offset ls b j"
  from assms have js: "j + 1 < length ls \<or> j + 1 = length ls" and jl: "j < length ls" by auto
  from assms have nl: "j + 1 \<noteq> length ls" by auto
  from c jl nl have e: "sourceTextByteEndIndexInBlockText (ls ! j) = sourceTextByteStartIndexInBlockText (ls ! (j + 1))"
    by (simp add: lines_contiguous_def)
  from o nl e have lt: "b < sourceTextByteEndIndexInBlockText (ls ! j)"
    by (auto simp: spec_line_owns_offset_def)
  have "sourceTextByteEndIndexInBlockText (ls ! j) \<le> sourceTextByteEndIndexInBlockText (ls ! (i - 1))"
    using contiguous_start_mono [OF c, of j "i - 1"] assms by simp
  also from c assms have "\<dots> = sourceTextByteStartIndexInBlockText (ls ! i)"
    by (simp add: lines_contiguous_def)
  also from c assms have "\<dots> \<le> sourceTextByteEndIndexInBlockText (ls ! i)"
    by (simp add: lines_contiguous_def)
  finally have le: "sourceTextByteEndIndexInBlockText (ls ! j) \<le> sourceTextByteEndIndexInBlockText (ls ! i)" .
  have "sourceTextByteEndIndexInBlockText (ls ! j) \<le> sourceTextByteStartIndexInBlockText (ls ! i)"
    using contiguous_start_mono [OF c, of j "i - 1"] assms c
    by (simp add: lines_contiguous_def)
  with lt le assms(4) show False
    by (auto simp: spec_line_owns_offset_def)
qed

text \<open>When the byte ranges are contiguous at most one line owns an offset, so the owner is selected.\<close>

lemma cursor_line_contiguous:
  assumes "lines_contiguous (lines tb)" and "i < length (lines tb)"
    and "spec_line_owns_offset (lines tb) (min b (byte_length (sourceTextConcatenated tb))) i"
  shows "cursor_line_of_offset tb b = (int i, min b (byte_length (sourceTextConcatenated tb)))"
  using cursor_line_is_first_owner [OF assms(2,3)] contiguous_owner_unique [OF assms(1,2) _ assms(3)]
  by blast

theorem cursor_line_is_first_owner_witness:
  "1 < length (lines two_line_block) \<and>
   min 3 (byte_length (sourceTextConcatenated two_line_block)) = 3 \<and>
   spec_line_owns_offset (lines two_line_block) 3 1 \<and>
   \<not> spec_line_owns_offset (lines two_line_block) 3 0 \<and>
   cursor_line_of_offset two_line_block 3 = (1, 3)"
proof -
  have l: "1 < length (lines two_line_block)"
    by (simp add: two_line_block_def)
  have m: "min 3 (byte_length (sourceTextConcatenated two_line_block)) = 3"
    by (simp add: two_line_block_def ab_nl_cd_def byte_length_def utf8_len_def)
  have o: "spec_line_owns_offset (lines two_line_block) 3 1"
    by (simp add: two_line_block_def spec_line_owns_offset_def LineLayoutInfo_default_def)
  have n: "\<not> spec_line_owns_offset (lines two_line_block) 3 0"
    by (simp add: two_line_block_def spec_line_owns_offset_def LineLayoutInfo_default_def)
  then have a: "\<forall>j<1. \<not> spec_line_owns_offset (lines two_line_block)
                  (min 3 (byte_length (sourceTextConcatenated two_line_block))) j"
    by (simp add: m)
  from cursor_line_is_first_owner [OF l, of 3] o a m l n show ?thesis by simp
qed

section \<open>UTF-8 and UTF-16 offsets\<close>

lemma Utf8ToUtf16_append: "Utf8ToUtf16 (xs @ ys) = Utf8ToUtf16 xs @ Utf8ToUtf16 ys"
  by (simp add: Utf8ToUtf16_def)

lemma Utf8ToUtf16_Nil [simp]: "Utf8ToUtf16 [] = []"
  by (simp add: Utf8ToUtf16_def)

lemma Utf8ToUtf16_Cons: "Utf8ToUtf16 (c # cs) = utf16_units c @ Utf8ToUtf16 cs"
  by (simp add: Utf8ToUtf16_def)

lemma byte_length_append: "byte_length (xs @ ys) = byte_length xs + byte_length ys"
  by (simp add: byte_length_def)

lemma byte_length_Nil [simp]: "byte_length [] = 0"
  by (simp add: byte_length_def)

lemma utf8_len_pos: "0 < utf8_len c"
  by (simp add: utf8_len_def)

lemma utf16_units_nonempty: "utf16_units c \<noteq> []"
  by (simp add: utf16_units_def)

lemma utf16_to_utf8_len_units:
  assumes "scalar_value c"
  shows "utf16_to_utf8_len (utf16_units c @ us) = map_option (\<lambda>n. utf8_len c + n) (utf16_to_utf8_len us)"
proof (cases "c < 65536")
  case True
  with assms have ns: "\<not> is_lead c" "\<not> is_trail c"
    by (auto simp: scalar_value_def is_lead_def is_trail_def)
  show ?thesis
  proof (cases us)
    case Nil
    with True ns show ?thesis by (simp add: utf16_units_def)
  next
    case (Cons v vs)
    with True ns show ?thesis by (simp add: utf16_units_def)
  qed
next
  case False
  with assms have r: "65536 \<le> c" "c < 1114112" by (auto simp: scalar_value_def)
  then have "(c - 65536) div 1024 < 1024" by simp
  then have l: "is_lead (55296 + (c - 65536) div 1024)" by (simp add: is_lead_def)
  have t: "is_trail (56320 + (c - 65536) mod 1024)" by (simp add: is_trail_def)
  from False l t show ?thesis by (simp add: utf16_units_def utf8_len_def)
qed

lemma utf16_to_utf8_len_roundtrip:
  "\<forall>c \<in> set cps. scalar_value c \<Longrightarrow> utf16_to_utf8_len (Utf8ToUtf16 cps) = Some (byte_length cps)"
  by (induction cps) (simp_all add: Utf8ToUtf16_Cons utf16_to_utf8_len_units byte_length_def)

lemma Utf16ToUtf8_length_roundtrip:
  "\<forall>c \<in> set cps. scalar_value c \<Longrightarrow> Utf16ToUtf8_length (Utf8ToUtf16 cps) = byte_length cps"
  by (simp add: Utf16ToUtf8_length_def utf16_to_utf8_len_roundtrip)

text \<open>Positions of code points in the UTF-16 form, and the bytes before them.\<close>

lemma take_cp_pos: "take (cp_pos cps k) (Utf8ToUtf16 cps) = Utf8ToUtf16 (take k cps)"
proof -
  have "Utf8ToUtf16 cps = Utf8ToUtf16 (take k cps) @ Utf8ToUtf16 (drop k cps)"
    by (simp add: Utf8ToUtf16_append [symmetric])
  then show ?thesis by (simp add: cp_pos_def)
qed

lemma drop_cp_pos: "drop (cp_pos cps k) (Utf8ToUtf16 cps) = Utf8ToUtf16 (drop k cps)"
proof -
  have "Utf8ToUtf16 cps = Utf8ToUtf16 (take k cps) @ Utf8ToUtf16 (drop k cps)"
    by (simp add: Utf8ToUtf16_append [symmetric])
  then show ?thesis by (simp add: cp_pos_def)
qed

lemma u8off_cp_pos:
  assumes "\<forall>c \<in> set cps. scalar_value c"
  shows "Utf16ToUtf8_length (take (cp_pos cps k) (Utf8ToUtf16 cps)) = byte_length (take k cps)"
proof -
  from assms have "\<forall>c \<in> set (take k cps). scalar_value c" by (auto dest: in_set_takeD)
  then show ?thesis by (simp add: take_cp_pos Utf16ToUtf8_length_roundtrip)
qed

lemma cp_pos_mono: "j \<le> k \<Longrightarrow> cp_pos cps j \<le> cp_pos cps k"
proof -
  assume "j \<le> k"
  then have "take k cps = take j cps @ take (k - j) (drop j cps)"
    by (metis le_add_diff_inverse take_add)
  then show ?thesis by (simp add: cp_pos_def Utf8ToUtf16_append)
qed

lemma byte_length_take_mono: "j \<le> k \<Longrightarrow> byte_length (take j cps) \<le> byte_length (take k cps)"
proof -
  assume "j \<le> k"
  then have "take k cps = take j cps @ take (k - j) (drop j cps)"
    by (metis le_add_diff_inverse take_add)
  then show ?thesis by (simp add: byte_length_append)
qed

lemma cp_pos_full: "length cps \<le> k \<Longrightarrow> cp_pos cps k = length (Utf8ToUtf16 cps)"
  by (simp add: cp_pos_def)

lemma cp_pos_0 [simp]: "cp_pos cps 0 = 0"
  by (simp add: cp_pos_def)

lemma cp_pos_Suc: "k < length cps \<Longrightarrow> cp_pos cps (Suc k) = cp_pos cps k + length (utf16_units (cps ! k))"
  by (simp add: cp_pos_def take_Suc_conv_app_nth Utf8ToUtf16_append Utf8ToUtf16_Cons)

lemma byte_length_take_Suc:
  "k < length cps \<Longrightarrow> byte_length (take (Suc k) cps) = byte_length (take k cps) + utf8_len (cps ! k)"
  by (simp add: take_Suc_conv_app_nth byte_length_def)

text \<open>A position that is not in front of a trail surrogate is the start of a code point.\<close>

lemma nontrail_is_cp_pos:
  assumes "\<forall>c \<in> set cps. scalar_value c" and "p \<le> length (Utf8ToUtf16 cps)"
    and "p < length (Utf8ToUtf16 cps) \<longrightarrow> \<not> is_trail (Utf8ToUtf16 cps ! p)"
  shows "\<exists>k \<le> length cps. p = cp_pos cps k"
  using assms
proof (induction cps arbitrary: p)
  case Nil
  then show ?case by (simp add: cp_pos_def)
next
  case (Cons c cs)
  show ?case
  proof (cases "p = 0")
    case True
    then show ?thesis by (intro exI [of _ 0]) simp
  next
    case False
    show ?thesis
    proof (cases "c < 65536")
      case True
      then have u: "utf16_units c = [c]" by (simp add: utf16_units_def)
      from False obtain q where q: "p = Suc q" by (cases p) auto
      from Cons.prems u q have "q \<le> length (Utf8ToUtf16 cs)"
        and "q < length (Utf8ToUtf16 cs) \<longrightarrow> \<not> is_trail (Utf8ToUtf16 cs ! q)"
        by (auto simp: Utf8ToUtf16_Cons)
      with Cons.IH [of q] Cons.prems(1) obtain k where "k \<le> length cs" "q = cp_pos cs k" by auto
      then show ?thesis using u q
        by (intro exI [of _ "Suc k"]) (simp add: cp_pos_def Utf8ToUtf16_Cons)
    next
      case big: False
      then have u: "utf16_units c = [55296 + (c - 65536) div 1024, 56320 + (c - 65536) mod 1024]"
        by (simp add: utf16_units_def)
      have t: "is_trail (56320 + (c - 65536) mod 1024)" by (simp add: is_trail_def)
      have "p \<noteq> 1"
      proof
        assume "p = 1"
        with Cons.prems(3) u t show False by (simp add: Utf8ToUtf16_Cons)
      qed
      with False obtain q where q: "p = Suc (Suc q)" by (cases p; cases "p - 1") auto
      from Cons.prems u q have "q \<le> length (Utf8ToUtf16 cs)"
        and "q < length (Utf8ToUtf16 cs) \<longrightarrow> \<not> is_trail (Utf8ToUtf16 cs ! q)"
        by (auto simp: Utf8ToUtf16_Cons)
      with Cons.IH [of q] Cons.prems(1) obtain k where "k \<le> length cs" "q = cp_pos cs k" by auto
      then show ?thesis using u q
        by (intro exI [of _ "Suc k"]) (simp add: cp_pos_def Utf8ToUtf16_Cons)
    qed
  qed
qed

text \<open>A newline code unit is a newline code point.\<close>

lemma newline_units: "10 \<in> set (utf16_units c) \<longleftrightarrow> c = 10"
  by (auto simp: utf16_units_def)

lemma takeWhile_newline_units:
  "takeWhile (\<lambda>c. c \<noteq> 10) (Utf8ToUtf16 cs) = Utf8ToUtf16 (takeWhile (\<lambda>c. c \<noteq> 10) cs)"
proof (induction cs)
  case Nil
  then show ?case by simp
next
  case (Cons c cs)
  show ?case
  proof (cases "c = 10")
    case True
    then show ?thesis by (simp add: Utf8ToUtf16_Cons utf16_units_def)
  next
    case False
    then have "\<forall>u \<in> set (utf16_units c). u \<noteq> 10" using newline_units [of c] by auto
    then have "takeWhile (\<lambda>c. c \<noteq> 10) (utf16_units c @ Utf8ToUtf16 cs) =
               utf16_units c @ takeWhile (\<lambda>c. c \<noteq> 10) (Utf8ToUtf16 cs)"
      by (simp add: takeWhile_append2)
    with False Cons show ?thesis by (simp add: Utf8ToUtf16_Cons)
  qed
qed

lemma newline_in_units: "10 \<in> set (Utf8ToUtf16 cs) \<longleftrightarrow> 10 \<in> set cs"
  by (induction cs) (auto simp: Utf8ToUtf16_Cons newline_units)

section \<open>Finalized lines\<close>

lemma finalizeCurrentLine_skipped:
  "finalize_skips tb pending tmpl nxt \<Longrightarrow>
   finalizeCurrentLine env tb pending tmpl w a d y isf p dm sz nxt om = (tb, y, om)"
  by (simp add: finalizeCurrentLine_def)

lemma finalized_line_fields [simp]:
  "numElementsInLine (finalized_line env tb pending tmpl w a d y p dm sz nxt) = length pending"
  "firstElementIndexInBlockElements (finalized_line env tb pending tmpl w a d y p dm sz nxt) = length (elements tb)"
  "sourceTextByteStartIndexInBlockText (finalized_line env tb pending tmpl w a d y p dm sz nxt) =
     sourceTextByteStartIndexInBlockText tmpl"
  "sourceTextByteEndIndexInBlockText (finalized_line env tb pending tmpl w a d y p dm sz nxt) = nxt"
  "maxContentAscent (finalized_line env tb pending tmpl w a d y p dm sz nxt) = finalized_ascent pending a dm"
  "maxContentDescent (finalized_line env tb pending tmpl w a d y p dm sz nxt) = finalized_descent pending d dm"
  "lineBoxHeight (finalized_line env tb pending tmpl w a d y p dm sz nxt) =
     calculateLineBoxHeight p dm (finalized_ascent pending a dm) (finalized_descent pending d dm) sz"
  "baselineYInBox (finalized_line env tb pending tmpl w a d y p dm sz nxt) =
     baselineYInBox_of p (calculateLineBoxHeight p dm (finalized_ascent pending a dm) (finalized_descent pending d dm) sz)
       (finalized_ascent pending a dm) (finalized_descent pending d dm)"
  "lineBoxY (finalized_line env tb pending tmpl w a d y p dm sz nxt) = y"
  "lineWidth (finalized_line env tb pending tmpl w a d y p dm sz nxt) = w"
  by (simp_all add: finalized_line_def Let_def)

lemma finalizeCurrentLine_pushed:
  assumes "\<not> finalize_skips tb pending tmpl nxt"
  shows "lines (fst (finalizeCurrentLine env tb pending tmpl w a d y isf p dm sz nxt om)) =
           lines tb @ [finalized_line env tb pending tmpl w a d y p dm sz nxt]"
    and "elements (fst (finalizeCurrentLine env tb pending tmpl w a d y isf p dm sz nxt om)) =
           elements tb @ (if \<bar>lineShiftX_of p isf w\<bar> > 1/1000 then map (shift_x (lineShiftX_of p isf w)) pending
                          else pending)"
    and "sourceTextConcatenated (fst (finalizeCurrentLine env tb pending tmpl w a d y isf p dm sz nxt om)) =
           sourceTextConcatenated tb"
  using assms by (simp_all add: finalizeCurrentLine_def Let_def)


text \<open>
  C3, amended. For every line that \<open>finalizeCurrentLine\<close> appends, the line-box height is the
  maximum of the line-height-policy result and the content extent the function works with:
  \<open>maxContentAscent + maxContentDescent\<close> when that sum is at least 0.001 (so the box is then
  never shorter than the content), otherwise the default metrics' ascent plus descent or 1.2
  times the font size. The baseline position is \<open>maxContentAscent\<close>, increased by half of
  \<open>lineBoxHeight - (maxContentAscent + maxContentDescent)\<close> exactly when the box exceeds
  the content extent by more than 0.001 and the policy is not content-scaled.
\<close>

theorem finalized_line_box_and_baseline:
  fixes env tb pending tmpl w a d y isf p dm sz nxt om
  defines "l \<equiv> last (lines (fst (finalizeCurrentLine env tb pending tmpl w a d y isf p dm sz nxt om)))"
  assumes "\<not> finalize_skips tb pending tmpl nxt"
  shows "lines (fst (finalizeCurrentLine env tb pending tmpl w a d y isf p dm sz nxt om)) = lines tb @ [l] \<and>
         lineBoxHeight l =
           max (line_height_policy p dm
                  (contentActualHeight_of dm (maxContentAscent l) (maxContentDescent l) sz) sz)
               (contentActualHeight_of dm (maxContentAscent l) (maxContentDescent l) sz) \<and>
         (1/1000 \<le> maxContentAscent l + maxContentDescent l \<longrightarrow>
            lineBoxHeight l =
              max (line_height_policy p dm (maxContentAscent l + maxContentDescent l) sz)
                  (maxContentAscent l + maxContentDescent l)) \<and>
         baselineYInBox l =
           (if lineBoxHeight l > maxContentAscent l + maxContentDescent l + 1/1000 \<and>
               lineHeightType p \<noteq> CONTENT_SCALED
            then maxContentAscent l + (lineBoxHeight l - (maxContentAscent l + maxContentDescent l)) / 2
            else maxContentAscent l)"
proof -
  have l: "l = finalized_line env tb pending tmpl w a d y p dm sz nxt"
    unfolding l_def by (simp add: finalizeCurrentLine_pushed [OF assms(2)])
  show ?thesis
    unfolding l
    by (simp add: finalizeCurrentLine_pushed [OF assms(2)] calculateLineBoxHeight_def
          baselineYInBox_of_def contentActualHeight_of_def Let_def)
qed

lemma tight_line_eq:
  "tight_line = finalized_line mono_env (two_line_block\<lparr>lines := []\<rparr>) [] LineLayoutInfo_default
                  0 12 4 0 tight_paragraph (sentinel_metrics 16) 16 3"
  unfolding tight_line_def
  by (subst finalizeCurrentLine_pushed)
     (simp_all add: finalize_skips_def LineLayoutInfo_default_def)

text \<open>
  C3, as stated, fails: with an absolute line height of \<open>16 + 1/2048\<close> the box is taller
  than the content extent \<open>12 + 4\<close> and the policy is not content-scaled, yet the baseline
  stays at the ascent.
\<close>

theorem baseline_not_centred_in_taller_box:
  "maxContentAscent tight_line + maxContentDescent tight_line < lineBoxHeight tight_line \<and>
   lineHeightType tight_paragraph \<noteq> CONTENT_SCALED \<and>
   baselineYInBox tight_line = maxContentAscent tight_line \<and>
   baselineYInBox tight_line \<noteq>
     maxContentAscent tight_line +
       (lineBoxHeight tight_line - (maxContentAscent tight_line + maxContentDescent tight_line)) / 2"
  unfolding tight_line_eq
  by (simp add: finalized_ascent_def finalized_descent_def calculateLineBoxHeight_def
        contentActualHeight_of_def line_height_policy_def baselineYInBox_of_def tight_paragraph_def
        plain_paragraph_def Let_def)


lemma normal_line_eq:
  "normal_line = finalized_line mono_env (two_line_block\<lparr>lines := []\<rparr>) [] LineLayoutInfo_default
                   0 12 4 0 plain_paragraph (sentinel_metrics 16) 16 3"
  unfolding normal_line_def
  by (subst finalizeCurrentLine_pushed)
     (simp_all add: finalize_skips_def LineLayoutInfo_default_def)

theorem finalized_line_box_and_baseline_witness:
  "\<not> finalize_skips (two_line_block\<lparr>lines := []\<rparr>) [] LineLayoutInfo_default 3 \<and>
   1/1000 \<le> maxContentAscent normal_line + maxContentDescent normal_line \<and>
   lineBoxHeight normal_line = 96/5 \<and>
   maxContentAscent normal_line + maxContentDescent normal_line + 1/1000 < lineBoxHeight normal_line \<and>
   baselineYInBox normal_line = 68/5"
proof -
  have n: "\<not> finalize_skips (two_line_block\<lparr>lines := []\<rparr>) [] LineLayoutInfo_default 3"
    by (simp add: finalize_skips_def LineLayoutInfo_default_def)
  have e: "maxContentAscent normal_line = 12" "maxContentDescent normal_line = 4"
    unfolding normal_line_eq by (simp_all add: finalized_ascent_def finalized_descent_def)
  have p: "line_height_policy plain_paragraph (sentinel_metrics 16) 16 16 = 96/5"
    by (simp add: line_height_policy_def plain_paragraph_def sentinel_metrics_def
          ScaledFontMetrics_default_def Let_def)
  have t: "lineHeightType plain_paragraph \<noteq> CONTENT_SCALED"
    by (simp add: plain_paragraph_def)
  from finalized_line_box_and_baseline [OF n, of mono_env 0 12 4 0 True plain_paragraph
      "sentinel_metrics 16" 16 0, folded normal_line_def] n e p t
  show ?thesis by simp
qed

section \<open>Committing a segment to the pending line\<close>

lemma finalize_pending_fields [simp]:
  "pendingLineElements (finalize_pending ctx st n) = pendingLineElements st"
  "currentLineCommittedWidth (finalize_pending ctx st n) = currentLineCommittedWidth st"
  "currentLineInfoTemplate (finalize_pending ctx st n) = currentLineInfoTemplate st"
  "isFirstLineOfParagraph (finalize_pending ctx st n) = isFirstLineOfParagraph st"
  "textBlock (finalize_pending ctx st n) =
     fst (finalizeCurrentLine (ctx_env ctx) (textBlock st) (pendingLineElements st)
            (currentLineInfoTemplate st) (currentLineCommittedWidth st)
            (currentLineMaxAscent st) (currentLineMaxDescent st) (currentLineBoxTopY st)
            (isFirstLineOfParagraph st) (ctx_paragraphStyle ctx) (ctx_paraDefaultMetrics ctx)
            (ctx_paraDefFontSize ctx) n (overallMaxVisualLineWidth st))"
  by (simp_all add: finalize_pending_def Let_def)

lemma start_new_line_fields [simp]:
  "pendingLineElements (start_new_line ctx st n) = []"
  "currentLineCommittedWidth (start_new_line ctx st n) = 0"
  "isFirstLineOfParagraph (start_new_line ctx st n) = False"
  "textBlock (start_new_line ctx st n) = textBlock st"
  "sourceTextByteStartIndexInBlockText (currentLineInfoTemplate (start_new_line ctx st n)) = n"
  by (simp_all add: start_new_line_def)

lemma shift_x_0 [simp]: "shift_x 0 e = e"
  by (cases e) (simp_all add: shift_x_def)

lemma map_shift_x_0 [simp]: "map (shift_x 0) es = es"
  by (induction es) simp_all

lemma commit_segment_wrapped:
  assumes "wrap_before_segment ctx st seg"
  shows "lines (textBlock (commit_segment ctx st b seg)) =
           lines (textBlock st) @
           [finalized_line (ctx_env ctx) (textBlock st) (pendingLineElements st)
              (currentLineInfoTemplate st) (currentLineCommittedWidth st) (currentLineMaxAscent st)
              (currentLineMaxDescent st) (currentLineBoxTopY st) (ctx_paragraphStyle ctx)
              (ctx_paraDefaultMetrics ctx) (ctx_paraDefFontSize ctx) b]"
    and "length (elements (textBlock (commit_segment ctx st b seg))) =
           length (elements (textBlock st)) + length (pendingLineElements st)"
    and "pendingLineElements (commit_segment ctx st b seg) = elements_for_this_segment seg"
    and "sourceTextByteStartIndexInBlockText (currentLineInfoTemplate (commit_segment ctx st b seg)) = b"
    and "sourceTextConcatenated (textBlock (commit_segment ctx st b seg)) = sourceTextConcatenated (textBlock st)"
proof -
  from assms have ne: "pendingLineElements st \<noteq> []" by (simp add: wrap_before_segment_def Let_def)
  then have ns: "\<not> finalize_skips (textBlock st) (pendingLineElements st) (currentLineInfoTemplate st) b"
    by (simp add: finalize_skips_def)
  note P = finalizeCurrentLine_pushed [OF ns]
  show "lines (textBlock (commit_segment ctx st b seg)) =
           lines (textBlock st) @
           [finalized_line (ctx_env ctx) (textBlock st) (pendingLineElements st)
              (currentLineInfoTemplate st) (currentLineCommittedWidth st) (currentLineMaxAscent st)
              (currentLineMaxDescent st) (currentLineBoxTopY st) (ctx_paragraphStyle ctx)
              (ctx_paraDefaultMetrics ctx) (ctx_paraDefFontSize ctx) b]"
    using assms by (simp add: commit_segment_def Let_def P)
  show "length (elements (textBlock (commit_segment ctx st b seg))) =
           length (elements (textBlock st)) + length (pendingLineElements st)"
    using assms by (simp add: commit_segment_def Let_def P)
  show "pendingLineElements (commit_segment ctx st b seg) = elements_for_this_segment seg"
    using assms by (simp add: commit_segment_def Let_def)
  show "sourceTextByteStartIndexInBlockText (currentLineInfoTemplate (commit_segment ctx st b seg)) = b"
    using assms by (simp add: commit_segment_def Let_def)
  show "sourceTextConcatenated (textBlock (commit_segment ctx st b seg)) = sourceTextConcatenated (textBlock st)"
    using assms by (simp add: commit_segment_def Let_def P)
qed

lemma commit_segment_unwrapped:
  assumes "\<not> wrap_before_segment ctx st seg"
  shows "textBlock (commit_segment ctx st b seg) = textBlock st"
    and "pendingLineElements (commit_segment ctx st b seg) =
           pendingLineElements st @
           map (shift_x (currentLineCommittedWidth st)) (elements_for_this_segment seg)"
    and "currentLineInfoTemplate (commit_segment ctx st b seg) = currentLineInfoTemplate st"
  using assms by (simp_all add: commit_segment_def Let_def)

text \<open>
  C1, amended. For every layout call with \<open>wrap_width > 0\<close>: when a segment is committed,
  the pending line is finalized first and a new pending line is started exactly when the
  indent of the line (the first-line indent on the first line, 0 otherwise) plus the
  committed width of the pending line plus the width of the segment exceeds \<open>wrap_width\<close>,
  the pending line is non-empty and the segment is wider than 0.001. In both cases the
  elements of the segment are placed whole at the end of one pending line: a segment wider
  than \<open>wrap_width\<close> is not split.
\<close>

theorem commit_segment_wraps_iff:
  fixes ctx st b seg
  defines "overflow \<equiv>
     (if isFirstLineOfParagraph st then firstLineIndent (ctx_paragraphStyle ctx) else 0)
       + currentLineCommittedWidth st + width_of_this_segment seg > wrapWidth (ctx_paragraphStyle ctx) \<and>
     pendingLineElements st \<noteq> [] \<and> width_of_this_segment seg > 1/1000"
  assumes "0 < wrapWidth (ctx_paragraphStyle ctx)"
  shows "(overflow \<longrightarrow>
            length (lines (textBlock (commit_segment ctx st b seg))) = length (lines (textBlock st)) + 1 \<and>
            numElementsInLine (last (lines (textBlock (commit_segment ctx st b seg)))) =
              length (pendingLineElements st) \<and>
            pendingLineElements (commit_segment ctx st b seg) = elements_for_this_segment seg) \<and>
         (\<not> overflow \<longrightarrow>
            textBlock (commit_segment ctx st b seg) = textBlock st \<and>
            pendingLineElements (commit_segment ctx st b seg) =
              pendingLineElements st @
              map (shift_x (currentLineCommittedWidth st)) (elements_for_this_segment seg))"
proof -
  from assms(2) have w: "wrap_before_segment ctx st seg \<longleftrightarrow> overflow"
    by (simp add: wrap_before_segment_def overflow_def Let_def)
  show ?thesis
    using commit_segment_wrapped [of ctx st seg b] commit_segment_unwrapped [of ctx st seg b]
    unfolding w by auto
qed

section \<open>One pass of the segment loop\<close>

lemma takeWhile_take_hit:
  "\<exists>x \<in> set (take n xs). \<not> P x \<Longrightarrow> takeWhile P (take n xs) = takeWhile P xs"
proof (induction xs arbitrary: n)
  case Nil
  then show ?case by simp
next
  case (Cons x xs)
  then show ?case by (cases n) auto
qed

lemma length_takeWhile_hit:
  "\<exists>x \<in> set xs. \<not> P x \<Longrightarrow> length (takeWhile P xs) < length xs"
  by (induction xs) auto

lemma layout_body_no_newline:
  assumes l: "lastU16BreakPos st < length (ctx_fullU16Text ctx)"
    and n: "10 \<notin> set (take (nat (ubrk_following (is_boundary (ctx_env ctx)) (length (ctx_fullU16Text ctx))
                                  (lastU16BreakPos st)) - lastU16BreakPos st)
                         (drop (lastU16BreakPos st) (ctx_fullU16Text ctx)))"
  shows "layout_body ctx st =
           ((commit_segment ctx st
               (Utf16ToUtf8_length (take (lastU16BreakPos st) (ctx_fullU16Text ctx)))
               (shapeSegment ctx (lastU16BreakPos st)
                  (nat (ubrk_following (is_boundary (ctx_env ctx)) (length (ctx_fullU16Text ctx))
                          (lastU16BreakPos st)) - lastU16BreakPos st)))
            \<lparr>lastU16BreakPos := nat (ubrk_following (is_boundary (ctx_env ctx))
                                     (length (ctx_fullU16Text ctx)) (lastU16BreakPos st))\<rparr>,
            False)"
proof -
  let ?f = "ubrk_following (is_boundary (ctx_env ctx)) (length (ctx_fullU16Text ctx)) (lastU16BreakPos st)"
  from ubrk_following_range [OF l, of "is_boundary (ctx_env ctx)"]
  have r: "int (lastU16BreakPos st) < ?f" "?f \<le> int (length (ctx_fullU16Text ctx))" by simp_all
  from ubrk_following_not_done [OF l, of "is_boundary (ctx_env ctx)"] have d: "?f \<noteq> UBRK_DONE" .
  have e: "nat (?f - int (lastU16BreakPos st)) = nat ?f - lastU16BreakPos st"
    using r by (simp add: nat_diff_distrib)
  have len: "length (take (nat ?f - lastU16BreakPos st) (drop (lastU16BreakPos st) (ctx_fullU16Text ctx)))
             = nat ?f - lastU16BreakPos st"
    using r by simp
  show ?thesis
    using r d n unfolding layout_body_def Let_def
    by (simp add: e len del: length_take length_drop)
qed

lemma layout_body_newline:
  assumes l: "lastU16BreakPos st < length (ctx_fullU16Text ctx)"
    and n: "10 \<in> set (take (nat (ubrk_following (is_boundary (ctx_env ctx)) (length (ctx_fullU16Text ctx))
                                  (lastU16BreakPos st)) - lastU16BreakPos st)
                         (drop (lastU16BreakPos st) (ctx_fullU16Text ctx)))"
  shows "layout_body ctx st =
           ((start_new_line ctx
               (finalize_pending ctx
                  (commit_segment ctx st
                     (Utf16ToUtf8_length (take (lastU16BreakPos st) (ctx_fullU16Text ctx)))
                     (shapeSegment ctx (lastU16BreakPos st)
                        (length (takeWhile (\<lambda>c. c \<noteq> 10) (drop (lastU16BreakPos st) (ctx_fullU16Text ctx))))))
                  (Utf16ToUtf8_length
                     (take (lastU16BreakPos st +
                            length (takeWhile (\<lambda>c. c \<noteq> 10) (drop (lastU16BreakPos st) (ctx_fullU16Text ctx))) + 1)
                        (ctx_fullU16Text ctx))))
               (Utf16ToUtf8_length
                  (take (lastU16BreakPos st +
                         length (takeWhile (\<lambda>c. c \<noteq> 10) (drop (lastU16BreakPos st) (ctx_fullU16Text ctx))) + 1)
                     (ctx_fullU16Text ctx))))
            \<lparr>lastU16BreakPos := lastU16BreakPos st +
               length (takeWhile (\<lambda>c. c \<noteq> 10) (drop (lastU16BreakPos st) (ctx_fullU16Text ctx))) + 1\<rparr>,
            False)"
proof -
  let ?f = "ubrk_following (is_boundary (ctx_env ctx)) (length (ctx_fullU16Text ctx)) (lastU16BreakPos st)"
  let ?seg = "take (nat ?f - lastU16BreakPos st) (drop (lastU16BreakPos st) (ctx_fullU16Text ctx))"
  from ubrk_following_range [OF l, of "is_boundary (ctx_env ctx)"]
  have r: "int (lastU16BreakPos st) < ?f" "?f \<le> int (length (ctx_fullU16Text ctx))" by simp_all
  from ubrk_following_not_done [OF l, of "is_boundary (ctx_env ctx)"] have d: "?f \<noteq> UBRK_DONE" .
  have e: "nat (?f - int (lastU16BreakPos st)) = nat ?f - lastU16BreakPos st"
    using r by (simp add: nat_diff_distrib)
  have tw: "takeWhile (\<lambda>c. c \<noteq> 10) ?seg =
            takeWhile (\<lambda>c. c \<noteq> 10) (drop (lastU16BreakPos st) (ctx_fullU16Text ctx))"
    using n by (intro takeWhile_take_hit) auto
  from n have "10 \<in> set (drop (lastU16BreakPos st) (ctx_fullU16Text ctx))"
    by (auto dest: in_set_takeD)
  then have "length (takeWhile (\<lambda>c. c \<noteq> 10) (drop (lastU16BreakPos st) (ctx_fullU16Text ctx)))
             < length (drop (lastU16BreakPos st) (ctx_fullU16Text ctx))"
    by (intro length_takeWhile_hit) auto
  then have lt: "lastU16BreakPos st + length (takeWhile (\<lambda>c. c \<noteq> 10) (drop (lastU16BreakPos st) (ctx_fullU16Text ctx)))
            < length (ctx_fullU16Text ctx)"
    by simp
  show ?thesis
    using r d n lt unfolding layout_body_def Let_def
    by (simp add: e tw)
qed

section \<open>The layout of a two-line text\<close>

lemma utf16_ab_nl_cd: "Utf8ToUtf16 ab_nl_cd = [97, 98, 10, 99, 100]"
  by (simp add: Utf8ToUtf16_def ab_nl_cd_def utf16_units_def)

lemma byte_length_ab_nl_cd: "byte_length ab_nl_cd = 5"
  by (simp add: byte_length_def ab_nl_cd_def utf8_len_def)

lemma mono_ctx_fields:
  "ctx_env (make_layout_ctx mono_env s ab_nl_cd_spans p) = mono_env"
  "ctx_engine (make_layout_ctx mono_env s ab_nl_cd_spans p) = s"
  "ctx_spans (make_layout_ctx mono_env s ab_nl_cd_spans p) = ab_nl_cd_spans"
  "ctx_paragraphStyle (make_layout_ctx mono_env s ab_nl_cd_spans p) = p"
  "ctx_fullUtf8Text (make_layout_ctx mono_env s ab_nl_cd_spans p) = ab_nl_cd"
  "ctx_fullU16Text (make_layout_ctx mono_env s ab_nl_cd_spans p) = [97, 98, 10, 99, 100]"
  "ctx_spanMap (make_layout_ctx mono_env s ab_nl_cd_spans p) =
     [\<lparr>u8_start_offset_in_full = 0, u8_length_in_full = 5, u16_start_offset_in_full = 0,
       u16_length_in_full = 5, originalSpanIndex = 0\<rparr>]"
  by (simp_all add: make_layout_ctx_def Let_def ab_nl_cd_spans_def text_to_process_def plain_style_def
        utf16_ab_nl_cd byte_length_ab_nl_cd)

lemma following_mono:
  "ubrk_following (is_boundary mono_env) 5 0 = 2"
  "ubrk_following (is_boundary mono_env) 5 2 = 3"
  "ubrk_following (is_boundary mono_env) 5 3 = 5"
  by (simp_all add: ubrk_following_def mono_env_def next_boundary.simps)

lemma mono_env_fields:
  "icu_setup_ok mono_env"
  "visual_runs mono_env start len = [(0, len, True)]"
  "shape_run mono_env font sz spanIndex start len ltr penX =
     (map (\<lambda>i. mono_glyph (penX + 10 * real i) font sz spanIndex) [0..<len], 10 * real len)"
  "line_bidi_maps mono_env start len = (map int [0..<len], map int [0..<len])"
  by (simp_all add: mono_env_def)

lemma ab_nl_cd_spans_fields:
  "length ab_nl_cd_spans = 1"
  "style (ab_nl_cd_spans ! 0) = plain_style"
  "fontId plain_style = 1"
  "fontSize plain_style = 16"
  by (simp_all add: ab_nl_cd_spans_def plain_style_def)

lemma mono_shapeSegment:
  assumes "IsFontValid s 1" and "0 < len"
  shows "elements_for_this_segment (shapeSegment (make_layout_ctx mono_env s ab_nl_cd_spans p) start len) =
           map (\<lambda>i. mono_glyph (10 * real i) 1 16 0) [0..<len]"
    and "width_of_this_segment (shapeSegment (make_layout_ctx mono_env s ab_nl_cd_spans p) start len) =
           10 * real len"
  using assms
  by (simp_all add: shapeSegment_def shape_visual_run_def mono_ctx_fields mono_env_fields Let_def
        ab_nl_cd_spans_fields)

lemma mono_shapeSegment_no_font:
  assumes "loadedFonts s = Map.empty"
  shows "elements_for_this_segment (shapeSegment (make_layout_ctx mono_env s ab_nl_cd_spans p) start len) = []"
    and "width_of_this_segment (shapeSegment (make_layout_ctx mono_env s ab_nl_cd_spans p) start len) = 0"
  using assms
  by (simp_all add: shapeSegment_def shape_visual_run_def mono_ctx_fields mono_env_fields Let_def
        IsFontValid_def)

lemma shapeSegment_0 [simp]:
  "elements_for_this_segment (shapeSegment ctx start 0) = []"
  "width_of_this_segment (shapeSegment ctx start 0) = 0"
  by (simp_all add: shapeSegment_def)

lemma one_font_valid: "IsFontValid one_font_engine 1"
  by (simp add: IsFontValid_def one_font_engine_fields)

lemma initial_loop_state_fields [simp]:
  "textBlock (initial_loop_state ctx tb) = tb"
  "pendingLineElements (initial_loop_state ctx tb) = []"
  "currentLineCommittedWidth (initial_loop_state ctx tb) = 0"
  "isFirstLineOfParagraph (initial_loop_state ctx tb) = True"
  "lastU16BreakPos (initial_loop_state ctx tb) = 0"
  "sourceTextByteStartIndexInBlockText (currentLineInfoTemplate (initial_loop_state ctx tb)) = 0"
  by (simp_all add: initial_loop_state_def)

lemma commit_segment_other_fields:
  "\<not> wrap_before_segment ctx st seg \<Longrightarrow> elements_for_this_segment seg \<noteq> [] \<Longrightarrow>
   currentLineCommittedWidth (commit_segment ctx st b seg) =
     currentLineCommittedWidth st + width_of_this_segment seg"
  "\<not> wrap_before_segment ctx st seg \<Longrightarrow>
   isFirstLineOfParagraph (commit_segment ctx st b seg) = isFirstLineOfParagraph st"
  by (simp_all add: commit_segment_def Let_def)

lemma narrow_ctx_fields:
  "ctx_env narrow_ctx = mono_env"
  "ctx_fullU16Text narrow_ctx = [97, 98, 10, 99, 100]"
  by (simp_all add: narrow_ctx_def mono_ctx_fields)

lemma narrow_len: "length (ctx_fullU16Text narrow_ctx) = 5"
  by (simp add: narrow_ctx_fields)

lemma after_ab_eq:
  "after_ab = (commit_segment narrow_ctx
                 (initial_loop_state narrow_ctx (empty_block narrow_paragraph ab_nl_cd_spans ab_nl_cd))
                 0 (shapeSegment narrow_ctx 0 2))\<lparr>lastU16BreakPos := 2\<rparr>"
proof -
  let ?st = "initial_loop_state narrow_ctx (empty_block narrow_paragraph ab_nl_cd_spans ab_nl_cd)"
  have l: "lastU16BreakPos ?st < length (ctx_fullU16Text narrow_ctx)"
    by (simp add: narrow_ctx_def mono_ctx_fields)
  have n: "10 \<notin> set (take (nat (ubrk_following (is_boundary (ctx_env narrow_ctx)) (length (ctx_fullU16Text narrow_ctx))
                                  (lastU16BreakPos ?st)) - lastU16BreakPos ?st)
                         (drop (lastU16BreakPos ?st) (ctx_fullU16Text narrow_ctx)))"
    by (simp only: narrow_len narrow_ctx_fields(1) initial_loop_state_fields following_mono) (simp add: narrow_ctx_fields)
  have "layout_body narrow_ctx ?st =
          ((commit_segment narrow_ctx ?st 0 (shapeSegment narrow_ctx 0 2))\<lparr>lastU16BreakPos := 2\<rparr>, False)"
    unfolding layout_body_no_newline [OF l n]
    by (simp only: narrow_len narrow_ctx_fields(1) initial_loop_state_fields following_mono)
       (simp add: Utf16ToUtf8_length_def narrow_ctx_fields)
  then show ?thesis by (simp add: after_ab_def)
qed

lemma after_ab_fields:
  "pendingLineElements after_ab = [mono_glyph 0 1 16 0, mono_glyph 10 1 16 0]"
  "currentLineCommittedWidth after_ab = 20"
  "isFirstLineOfParagraph after_ab"
  "lines (textBlock after_ab) = []"
proof -
  let ?st = "initial_loop_state narrow_ctx (empty_block narrow_paragraph ab_nl_cd_spans ab_nl_cd)"
  let ?seg = "shapeSegment narrow_ctx 0 2"
  have w: "\<not> wrap_before_segment narrow_ctx ?st ?seg"
    by (simp add: wrap_before_segment_def Let_def)
  have e: "elements_for_this_segment ?seg = [mono_glyph 0 1 16 0, mono_glyph 10 1 16 0]"
    unfolding narrow_ctx_def by (simp add: mono_shapeSegment [OF one_font_valid] upt_rec)
  have wd: "width_of_this_segment ?seg = 20"
    unfolding narrow_ctx_def by (simp add: mono_shapeSegment [OF one_font_valid])
  show "pendingLineElements after_ab = [mono_glyph 0 1 16 0, mono_glyph 10 1 16 0]"
    by (simp add: after_ab_eq commit_segment_unwrapped [OF w] e)
  show "currentLineCommittedWidth after_ab = 20"
    using e by (simp add: after_ab_eq commit_segment_other_fields [OF w] wd)
  show "isFirstLineOfParagraph after_ab"
    by (simp add: after_ab_eq commit_segment_other_fields [OF w])
  show "lines (textBlock after_ab) = []"
    unfolding after_ab_eq by (simp add: commit_segment_unwrapped [OF w], simp add: empty_block_def)
qed

lemma narrow_ctx_paragraph:
  "wrapWidth (ctx_paragraphStyle narrow_ctx) = 10"
  "firstLineIndent (ctx_paragraphStyle narrow_ctx) = 0"
  by (simp_all add: narrow_ctx_def mono_ctx_fields narrow_paragraph_def plain_paragraph_def)

text \<open>
  C1, the claim as stated fails. In the layout of \<open>ab\<close>, newline, \<open>cd\<close> with wrap width 10,
  after the segment \<open>ab\<close> (width 20) is pending, the empty segment in front of the newline
  arrives: indent 0 plus committed width 20 plus segment width 0 exceeds 10 and the pending
  line is not empty, yet no line is finalized and the pending line stays as it is.
\<close>

theorem newline_segment_overflows_without_wrap:
  "0 < wrapWidth (ctx_paragraphStyle narrow_ctx) \<and>
   firstLineIndent (ctx_paragraphStyle narrow_ctx) + currentLineCommittedWidth after_ab
     + width_of_this_segment newline_segment > wrapWidth (ctx_paragraphStyle narrow_ctx) \<and>
   pendingLineElements after_ab \<noteq> [] \<and>
   textBlock (commit_segment narrow_ctx after_ab 2 newline_segment) = textBlock after_ab \<and>
   pendingLineElements (commit_segment narrow_ctx after_ab 2 newline_segment) = pendingLineElements after_ab"
proof -
  have w: "\<not> wrap_before_segment narrow_ctx after_ab newline_segment"
    by (simp add: wrap_before_segment_def Let_def newline_segment_def)
  show ?thesis
    using commit_segment_unwrapped [OF w, of 2]
    by (simp add: narrow_ctx_paragraph after_ab_fields newline_segment_def)
qed

text \<open>
  The amended rule at work: in the same state the segment \<open>cd\<close> of width 20 finalizes the
  pending line with its two glyphs and starts a new pending line with its own two glyphs.
\<close>

theorem commit_segment_wraps_iff_witness:
  "0 < wrapWidth (ctx_paragraphStyle narrow_ctx) \<and>
   (if isFirstLineOfParagraph after_ab then firstLineIndent (ctx_paragraphStyle narrow_ctx) else 0)
     + currentLineCommittedWidth after_ab + width_of_this_segment (shapeSegment narrow_ctx 3 2)
     > wrapWidth (ctx_paragraphStyle narrow_ctx) \<and>
   pendingLineElements after_ab \<noteq> [] \<and> width_of_this_segment (shapeSegment narrow_ctx 3 2) > 1/1000 \<and>
   length (lines (textBlock (commit_segment narrow_ctx after_ab 3 (shapeSegment narrow_ctx 3 2)))) = 1 \<and>
   numElementsInLine (last (lines (textBlock (commit_segment narrow_ctx after_ab 3 (shapeSegment narrow_ctx 3 2))))) = 2 \<and>
   pendingLineElements (commit_segment narrow_ctx after_ab 3 (shapeSegment narrow_ctx 3 2)) =
     [mono_glyph 0 1 16 0, mono_glyph 10 1 16 0]"
proof -
  have e: "elements_for_this_segment (shapeSegment narrow_ctx 3 2) = [mono_glyph 0 1 16 0, mono_glyph 10 1 16 0]"
    unfolding narrow_ctx_def by (simp add: mono_shapeSegment [OF one_font_valid] upt_rec)
  have wd: "width_of_this_segment (shapeSegment narrow_ctx 3 2) = 20"
    unfolding narrow_ctx_def by (simp add: mono_shapeSegment [OF one_font_valid])
  show ?thesis
    using commit_segment_wraps_iff [where ctx = narrow_ctx and st = after_ab and b = 3
        and seg = "shapeSegment narrow_ctx 3 2"]
    by (simp add: narrow_ctx_paragraph after_ab_fields e wd)
qed

section \<open>Line records after a layout call\<close>

lemma lines_chain_snoc:
  "lines_chain (ls @ [l]) a b \<longleftrightarrow>
     lines_chain ls a (sourceTextByteStartIndexInBlockText l) \<and> sourceTextByteEndIndexInBlockText l = b"
  by (induction ls arbitrary: a) auto

lemma block_upto_snoc:
  assumes "block_upto tb a"
    and "lines tb' = lines tb @ [l]"
    and "length (elements tb') = length (elements tb) + numElementsInLine l"
    and "sourceTextByteStartIndexInBlockText l = a"
    and "a \<le> sourceTextByteEndIndexInBlockText l"
  shows "block_upto tb' (sourceTextByteEndIndexInBlockText l)"
  using assms by (simp add: block_upto_def lines_chain_snoc)

lemma block_upto_push:
  assumes "block_upto tb (sourceTextByteStartIndexInBlockText tmpl)"
    and "\<not> finalize_skips tb pending tmpl nxt"
    and "sourceTextByteStartIndexInBlockText tmpl \<le> nxt"
  shows "block_upto (fst (finalizeCurrentLine env tb pending tmpl w a d y isf p dm sz nxt om)) nxt"
proof -
  note P = finalizeCurrentLine_pushed [OF assms(2), of env w a d y isf p dm sz om]
  have "block_upto (fst (finalizeCurrentLine env tb pending tmpl w a d y isf p dm sz nxt om))
          (sourceTextByteEndIndexInBlockText (finalized_line env tb pending tmpl w a d y p dm sz nxt))"
    using assms(3) by (intro block_upto_snoc [OF assms(1) P(1)]) (simp_all add: P(2))
  then show ?thesis by simp
qed

lemma byte_length_take_strict:
  assumes "j < k" and "k \<le> length cps"
  shows "byte_length (take j cps) < byte_length (take k cps)"
proof -
  from assms have "byte_length (take (Suc j) cps) \<le> byte_length (take k cps)"
    by (intro byte_length_take_mono) simp
  moreover from assms have "byte_length (take j cps) < byte_length (take (Suc j) cps)"
    using utf8_len_pos [of "cps ! j"] by (simp add: byte_length_take_Suc)
  ultimately show ?thesis by simp
qed

lemma cp_pos_strict:
  assumes "j < k" and "k \<le> length cps"
  shows "cp_pos cps j < cp_pos cps k"
proof -
  from assms have "cp_pos cps (Suc j) \<le> cp_pos cps k"
    by (intro cp_pos_mono) simp
  moreover from assms have "cp_pos cps j < cp_pos cps (Suc j)"
    using utf16_units_nonempty [of "cps ! j"] by (simp add: cp_pos_Suc)
  ultimately show ?thesis by simp
qed

lemma cp_pos_less_imp:
  assumes "cp_pos cps j < cp_pos cps k"
  shows "j < k"
  using assms cp_pos_mono [of k j cps] by (cases "j < k") auto

lemma next_boundary_is_boundary:
  "p \<le> len \<Longrightarrow> next_boundary isb len p < len \<Longrightarrow> isb (next_boundary isb len p)"
proof (induction isb len p rule: next_boundary.induct)
  case (1 isb len p)
  show ?case
  proof (cases "p \<ge> len \<or> isb p")
    case True
    then have e: "next_boundary isb len p = (if p \<ge> len then len else p)"
      by (subst next_boundary.simps) auto
    with "1.prems" True show ?thesis by (auto split: if_splits)
  next
    case False
    with "1.prems" have "next_boundary isb len p = next_boundary isb len (p + 1)"
      by (subst next_boundary.simps) simp
    with "1.IH" "1.prems" False show ?thesis by simp
  qed
qed

lemma following_aligned:
  assumes A1: "ctx_fullU16Text ctx = Utf8ToUtf16 (ctx_fullUtf8Text ctx)"
    and A2: "\<forall>c \<in> set (ctx_fullUtf8Text ctx). scalar_value c"
    and A3: "boundaries_aligned ctx"
    and l: "p < length (ctx_fullU16Text ctx)"
  shows "\<exists>k \<le> length (ctx_fullUtf8Text ctx).
           nat (ubrk_following (is_boundary (ctx_env ctx)) (length (ctx_fullU16Text ctx)) p) =
             cp_pos (ctx_fullUtf8Text ctx) k"
proof -
  let ?len = "length (ctx_fullU16Text ctx)"
  let ?b = "next_boundary (is_boundary (ctx_env ctx)) ?len (p + 1)"
  have f: "ubrk_following (is_boundary (ctx_env ctx)) ?len p = int ?b"
    using l by (simp add: ubrk_following_def)
  have le: "?b \<le> ?len"
    using next_boundary_bounds [of "p + 1" ?len "is_boundary (ctx_env ctx)"] l by simp
  have nt: "?b < ?len \<longrightarrow> \<not> is_trail (ctx_fullU16Text ctx ! ?b)"
    using next_boundary_is_boundary [of "p + 1" ?len "is_boundary (ctx_env ctx)"] l A3
    by (auto simp: boundaries_aligned_def)
  from nontrail_is_cp_pos [OF A2, of ?b] le nt
  show ?thesis unfolding f A1 [symmetric] by simp
qed

lemma commit_segment_inv:
  assumes bu: "block_upto (textBlock st) (sourceTextByteStartIndexInBlockText (currentLineInfoTemplate st))"
    and le: "sourceTextByteStartIndexInBlockText (currentLineInfoTemplate st) \<le> b"
  shows "block_upto (textBlock (commit_segment ctx st b seg))
           (sourceTextByteStartIndexInBlockText (currentLineInfoTemplate (commit_segment ctx st b seg)))"
    and "sourceTextByteStartIndexInBlockText (currentLineInfoTemplate (commit_segment ctx st b seg)) =
           sourceTextByteStartIndexInBlockText (currentLineInfoTemplate st) \<or>
         sourceTextByteStartIndexInBlockText (currentLineInfoTemplate (commit_segment ctx st b seg)) = b"
    and "sourceTextConcatenated (textBlock (commit_segment ctx st b seg)) =
           sourceTextConcatenated (textBlock st)"
    and "elements_for_this_segment seg \<noteq> [] \<longrightarrow> pendingLineElements (commit_segment ctx st b seg) \<noteq> []"
proof -
  let ?st' = "commit_segment ctx st b seg"
  have "block_upto (textBlock ?st') (sourceTextByteStartIndexInBlockText (currentLineInfoTemplate ?st')) \<and>
        (sourceTextByteStartIndexInBlockText (currentLineInfoTemplate ?st') =
           sourceTextByteStartIndexInBlockText (currentLineInfoTemplate st) \<or>
         sourceTextByteStartIndexInBlockText (currentLineInfoTemplate ?st') = b) \<and>
        sourceTextConcatenated (textBlock ?st') = sourceTextConcatenated (textBlock st) \<and>
        (elements_for_this_segment seg \<noteq> [] \<longrightarrow> pendingLineElements ?st' \<noteq> [])"
  proof (cases "wrap_before_segment ctx st seg")
    case True
    note W = commit_segment_wrapped [OF True, of b]
    let ?l = "finalized_line (ctx_env ctx) (textBlock st) (pendingLineElements st)
              (currentLineInfoTemplate st) (currentLineCommittedWidth st) (currentLineMaxAscent st)
              (currentLineMaxDescent st) (currentLineBoxTopY st) (ctx_paragraphStyle ctx)
              (ctx_paraDefaultMetrics ctx) (ctx_paraDefFontSize ctx) b"
    have "block_upto (textBlock ?st') (sourceTextByteEndIndexInBlockText ?l)"
      using le by (intro block_upto_snoc [OF bu W(1)]) (simp_all add: W(2))
    then show ?thesis by (simp add: W)
  next
    case False
    note U = commit_segment_unwrapped [OF False, of b]
    show ?thesis using bu by (simp add: U)
  qed
  then show "block_upto (textBlock ?st') (sourceTextByteStartIndexInBlockText (currentLineInfoTemplate ?st'))"
    and "sourceTextByteStartIndexInBlockText (currentLineInfoTemplate ?st') =
           sourceTextByteStartIndexInBlockText (currentLineInfoTemplate st) \<or>
         sourceTextByteStartIndexInBlockText (currentLineInfoTemplate ?st') = b"
    and "sourceTextConcatenated (textBlock ?st') = sourceTextConcatenated (textBlock st)"
    and "elements_for_this_segment seg \<noteq> [] \<longrightarrow> pendingLineElements ?st' \<noteq> []"
    by simp_all
qed

lemma layout_body_inv:
  assumes A1: "ctx_fullU16Text ctx = Utf8ToUtf16 (ctx_fullUtf8Text ctx)"
    and A2: "\<forall>c \<in> set (ctx_fullUtf8Text ctx). scalar_value c"
    and A3: "boundaries_aligned ctx"
    and inv: "loop_inv ctx st"
    and l: "lastU16BreakPos st < length (ctx_fullU16Text ctx)"
  shows "loop_inv ctx (fst (layout_body ctx st))"
proof -
  let ?cps = "ctx_fullUtf8Text ctx"
  let ?full = "ctx_fullU16Text ctx"
  let ?last = "lastU16BreakPos st"
  let ?f = "ubrk_following (is_boundary (ctx_env ctx)) (length ?full) ?last"
  let ?start = "\<lambda>s. sourceTextByteStartIndexInBlockText (currentLineInfoTemplate s)"
  from inv obtain k j where k: "k \<le> length ?cps" and jk: "j \<le> k"
    and last: "?last = cp_pos ?cps k"
    and st: "?start st = byte_length (take j ?cps)"
    and vis: "pendingLineElements st = [] \<and> segments_visible ctx \<longrightarrow> j = k"
    and bu: "block_upto (textBlock st) (?start st)"
    and src: "sourceTextConcatenated (textBlock st) = ?cps"
    unfolding loop_inv_def by blast
  have u8: "Utf16ToUtf8_length (take ?last ?full) = byte_length (take k ?cps)"
    unfolding A1 last by (rule u8off_cp_pos [OF A2])
  have sle: "?start st \<le> byte_length (take k ?cps)"
    unfolding st using jk by (rule byte_length_take_mono)
  from ubrk_following_range [OF l, of "is_boundary (ctx_env ctx)"]
  have r: "?last < nat ?f" "nat ?f \<le> length ?full" by linarith+
  show ?thesis
  proof (cases "10 \<in> set (take (nat ?f - ?last) (drop ?last ?full))")
    case False
    let ?seg = "shapeSegment ctx ?last (nat ?f - ?last)"
    let ?st1 = "commit_segment ctx st (byte_length (take k ?cps)) ?seg"
    note C = commit_segment_inv [where ctx = ctx and seg = ?seg, OF bu sle]
    have body: "fst (layout_body ctx st) = ?st1\<lparr>lastU16BreakPos := nat ?f\<rparr>"
      by (simp add: layout_body_no_newline [OF l False] u8)
    from following_aligned [OF A1 A2 A3 l] obtain k' where k': "k' \<le> length ?cps"
      and f: "nat ?f = cp_pos ?cps k'" by blast
    from r(1) f last have "cp_pos ?cps k < cp_pos ?cps k'" by simp
    then have kk': "k < k'" by (rule cp_pos_less_imp)
    have ne: "segments_visible ctx \<longrightarrow> pendingLineElements ?st1 \<noteq> []"
    proof
      assume "segments_visible ctx"
      with r have "elements_for_this_segment ?seg \<noteq> []"
        unfolding segments_visible_def by simp
      with C(4) show "pendingLineElements ?st1 \<noteq> []" by simp
    qed
    from C(2) obtain j' where j': "j' \<le> k" "?start ?st1 = byte_length (take j' ?cps)"
      using st jk by auto
    show ?thesis
      unfolding loop_inv_def body
      using C(1) C(3) src k' f kk' j' ne
      apply (intro conjI)
        apply simp
       apply simp
      apply (rule exI [of _ k'], rule exI [of _ j'])
      apply auto
      done
  next
    case True
    let ?m = "length (takeWhile (\<lambda>c. c \<noteq> 10) (drop ?last ?full))"
    let ?m' = "length (takeWhile (\<lambda>c. c \<noteq> 10) (drop k ?cps))"
    let ?k' = "Suc (k + ?m')"
    have dr: "drop ?last ?full = Utf8ToUtf16 (drop k ?cps)"
      unfolding A1 last by (rule drop_cp_pos)
    have tw: "takeWhile (\<lambda>c. c \<noteq> 10) (drop ?last ?full) =
              Utf8ToUtf16 (takeWhile (\<lambda>c. c \<noteq> 10) (drop k ?cps))"
      unfolding dr by (rule takeWhile_newline_units)
    from True have "10 \<in> set (drop ?last ?full)" by (auto dest: in_set_takeD)
    then have in10: "10 \<in> set (drop k ?cps)" unfolding dr by (simp add: newline_in_units)
    then have m'lt: "?m' < length (drop k ?cps)" by (intro length_takeWhile_hit) auto
    then have klt: "k + ?m' < length ?cps" by simp
    from m'lt have "\<not> (drop k ?cps ! ?m') \<noteq> 10" by (rule nth_length_takeWhile)
    with klt have at10: "?cps ! (k + ?m') = 10" by simp
    have tk: "take (k + ?m') ?cps = take k ?cps @ takeWhile (\<lambda>c. c \<noteq> 10) (drop k ?cps)"
      by (simp add: take_add takeWhile_eq_take [symmetric])
    have pos: "?last + ?m = cp_pos ?cps (k + ?m')"
    proof -
      have "?m = length (Utf8ToUtf16 (takeWhile (\<lambda>c. c \<noteq> 10) (drop k ?cps)))"
        using tw by simp
      moreover have "cp_pos ?cps (k + ?m') =
          cp_pos ?cps k + length (Utf8ToUtf16 (takeWhile (\<lambda>c. c \<noteq> 10) (drop k ?cps)))"
        by (simp add: cp_pos_def tk Utf8ToUtf16_append)
      ultimately show ?thesis using last by simp
    qed
    have pos1: "?last + ?m + 1 = cp_pos ?cps ?k'"
      using klt by (simp add: cp_pos_Suc at10 pos [symmetric] utf16_units_def)
    have u8': "Utf16ToUtf8_length (take (?last + ?m + 1) ?full) = byte_length (take ?k' ?cps)"
    proof -
      have "Utf16ToUtf8_length (take (cp_pos ?cps ?k') (Utf8ToUtf16 ?cps)) = byte_length (take ?k' ?cps)"
        by (rule u8off_cp_pos [OF A2])
      then show ?thesis unfolding pos1 [symmetric] A1 [symmetric] .
    qed
    let ?seg = "shapeSegment ctx ?last ?m"
    let ?st1 = "commit_segment ctx st (byte_length (take k ?cps)) ?seg"
    note C = commit_segment_inv [where ctx = ctx and seg = ?seg, OF bu sle]
    let ?u = "byte_length (take ?k' ?cps)"
    have body: "fst (layout_body ctx st) =
                  (start_new_line ctx (finalize_pending ctx ?st1 ?u) ?u)\<lparr>lastU16BreakPos := ?last + ?m + 1\<rparr>"
      using u8' by (simp add: layout_body_newline [OF l True] u8)
    have "byte_length (take k ?cps) < ?u"
      using klt by (intro byte_length_take_strict) simp_all
    with C(2) sle have lt: "?start ?st1 < ?u" by auto
    then have ns: "\<not> finalize_skips (textBlock ?st1) (pendingLineElements ?st1)
                      (currentLineInfoTemplate ?st1) ?u"
      by (simp add: finalize_skips_def)
    from lt have le': "?start ?st1 \<le> ?u" by simp
    have b2: "block_upto (textBlock (finalize_pending ctx ?st1 ?u)) ?u"
      unfolding finalize_pending_fields by (rule block_upto_push [OF C(1) ns le'])
    have s2: "sourceTextConcatenated (textBlock (finalize_pending ctx ?st1 ?u)) = ?cps"
      unfolding finalize_pending_fields finalizeCurrentLine_pushed(3) [OF ns]
      using C(3) src by simp
    show ?thesis
      unfolding loop_inv_def body
      using b2 s2 klt pos1
      apply (intro conjI)
        apply simp
       apply simp
      apply (rule exI [of _ ?k'], rule exI [of _ ?k'])
      apply auto
      done
  qed
qed

lemma commit_segment_nothing:
  "elements_for_this_segment seg = [] \<Longrightarrow> width_of_this_segment seg = 0 \<Longrightarrow>
   commit_segment ctx st b seg = st"
  by (simp add: commit_segment_def wrap_before_segment_def Let_def)

lemma layout_body_empty_text:
  assumes "ctx_fullU16Text ctx = []"
  shows "fst (layout_body ctx st) = st\<lparr>lastU16BreakPos := 0\<rparr>"
  using assms
  by (simp add: layout_body_def Let_def ubrk_following_def commit_segment_nothing)

lemma loop_inv_pos_update:
  assumes "loop_inv ctx st" and "lastU16BreakPos st = 0"
  shows "loop_inv ctx (st\<lparr>lastU16BreakPos := 0\<rparr>)"
  using assms by (simp add: loop_inv_def)

lemma layout_body_break_pos:
  "snd (layout_body ctx st) \<Longrightarrow>
   length (ctx_fullU16Text ctx) \<le> lastU16BreakPos (fst (layout_body ctx st))"
proof (cases "lastU16BreakPos st < length (ctx_fullU16Text ctx)")
  case True
  assume "snd (layout_body ctx st)"
  with layout_body_no_newline [OF True] layout_body_newline [OF True] show ?thesis
    by (cases "10 \<in> set (take (nat (ubrk_following (is_boundary (ctx_env ctx)) (length (ctx_fullU16Text ctx))
                                  (lastU16BreakPos st)) - lastU16BreakPos st)
                         (drop (lastU16BreakPos st) (ctx_fullU16Text ctx)))") simp_all
next
  case False
  then show ?thesis
    by (simp add: layout_body_def Let_def ubrk_following_def UBRK_DONE_def)
qed

lemma layout_loop_inv:
  "ctx_fullU16Text ctx = Utf8ToUtf16 (ctx_fullUtf8Text ctx) \<Longrightarrow>
   \<forall>c \<in> set (ctx_fullUtf8Text ctx). scalar_value c \<Longrightarrow>
   boundaries_aligned ctx \<Longrightarrow>
   loop_inv ctx st \<Longrightarrow>
   loop_inv ctx (layout_loop ctx st) \<and>
   length (ctx_fullU16Text ctx) \<le> lastU16BreakPos (layout_loop ctx st)"
proof (induction ctx st rule: layout_loop.induct)
  case (1 ctx st)
  note A1 = "1.prems"(1) and A2 = "1.prems"(2) and A3 = "1.prems"(3) and inv = "1.prems"(4)
  let ?len = "length (ctx_fullU16Text ctx)"
  show ?case
  proof (cases "lastU16BreakPos st < ?len \<or>
         (lastU16BreakPos st = 0 \<and> ctx_fullU16Text ctx = [] \<and> lines (textBlock st) = [])")
    case nc: False
    have "layout_loop ctx st = st" using nc by (subst layout_loop.simps) auto
    with inv nc show ?thesis by auto
  next
    case c: True
    show ?thesis
    proof (cases "?len \<le> lastU16BreakPos st \<and> ctx_fullU16Text ctx \<noteq> []")
      case b: True
      have "layout_loop ctx st = st" using c b by (subst layout_loop.simps) auto
      with inv b show ?thesis by simp
    next
      case nb: False
      show ?thesis
      proof (cases "ctx_fullU16Text ctx = []")
        case True
        from layout_body_empty_breaks [OF True] have br: "snd (layout_body ctx st)" .
        have e: "layout_loop ctx st = fst (layout_body ctx st)"
          using c nb br by (subst layout_loop.simps) auto
        from c True have z: "lastU16BreakPos st = 0" by simp
        show ?thesis
          unfolding e layout_body_empty_text [OF True]
          using loop_inv_pos_update [OF inv z] True by simp
      next
        case False
        with c have l: "lastU16BreakPos st < ?len" by simp
        have i': "loop_inv ctx (fst (layout_body ctx st))"
          by (rule layout_body_inv [OF A1 A2 A3 inv l])
        show ?thesis
        proof (cases "snd (layout_body ctx st)")
          case br: True
          have e: "layout_loop ctx st = fst (layout_body ctx st)"
            using c nb br by (subst layout_loop.simps) auto
          show ?thesis unfolding e using i' layout_body_break_pos [OF br] by simp
        next
          case nbr: False
          have e: "layout_loop ctx st = layout_loop ctx (fst (layout_body ctx st))"
            using c nb nbr by (subst layout_loop.simps) auto
          show ?thesis unfolding e using c nb nbr A1 A2 A3 i' by (intro "1.IH") auto
        qed
      qed
    qed
  qed
qed

lemma fold_keeps_length:
  assumes "\<And>x ys. length (f x ys) = length ys"
  shows "length (fold f xs ys) = length ys"
  using assms by (induction xs arbitrary: ys) simp_all

lemma align_line_images_length [simp]: "length (align_line_images l els) = length els"
  unfolding align_line_images_def by (rule fold_keeps_length) (simp add: Let_def)

lemma block_with_bounds_fields [simp]:
  "lines (block_with_bounds ctx st) = lines (textBlock st)"
  "length (elements (block_with_bounds ctx st)) = length (elements (textBlock st))"
  "sourceTextConcatenated (block_with_bounds ctx st) = sourceTextConcatenated (textBlock st)"
  by (simp_all add: block_with_bounds_def Let_def fold_keeps_length)

lemma byte_length_take_le: "byte_length (take j cps) \<le> byte_length cps"
  using byte_length_take_mono [of j "max j (length cps)" cps] by simp

lemma lines_chain_contiguous:
  "lines_chain ls a e \<Longrightarrow>
   (ls \<noteq> [] \<longrightarrow> sourceTextByteStartIndexInBlockText (ls ! 0) = a \<and>
                sourceTextByteEndIndexInBlockText (last ls) = e) \<and>
   (\<forall>i. i + 1 < length ls \<longrightarrow>
      sourceTextByteEndIndexInBlockText (ls ! i) = sourceTextByteStartIndexInBlockText (ls ! (i + 1)))"
proof (induction ls arbitrary: a)
  case Nil
  then show ?case by simp
next
  case (Cons l ls)
  from Cons.prems have s: "sourceTextByteStartIndexInBlockText l = a"
    and c: "lines_chain ls (sourceTextByteEndIndexInBlockText l) e" by simp_all
  note IH = Cons.IH [OF c]
  show ?case
  proof (intro conjI impI allI)
    show "sourceTextByteStartIndexInBlockText ((l # ls) ! 0) = a" using s by simp
    show "sourceTextByteEndIndexInBlockText (last (l # ls)) = e"
      using IH c by (cases ls) auto
    fix i assume i: "i + 1 < length (l # ls)"
    show "sourceTextByteEndIndexInBlockText ((l # ls) ! i) =
          sourceTextByteStartIndexInBlockText ((l # ls) ! (i + 1))"
    proof (cases i)
      case 0
      with i IH show ?thesis by (cases ls) auto
    next
      case (Suc n)
      with i IH show ?thesis by auto
    qed
  qed
qed

lemma block_upto_contiguous:
  assumes "block_upto tb e"
  shows "sum_list (map numElementsInLine (lines tb)) = length (elements tb)"
    and "lines_contiguous (lines tb)"
    and "lines tb \<noteq> [] \<Longrightarrow> sourceTextByteEndIndexInBlockText (last (lines tb)) = e"
  using assms lines_chain_contiguous [of "lines tb" 0 e]
  by (auto simp: block_upto_def lines_contiguous_def list_all_length)

lemma finish_layout_inv:
  assumes A1: "ctx_fullU16Text ctx = Utf8ToUtf16 (ctx_fullUtf8Text ctx)"
    and inv: "loop_inv ctx st"
    and pos: "length (ctx_fullU16Text ctx) \<le> lastU16BreakPos st"
  shows "\<exists>e. block_upto (textBlock (finish_layout ctx st)) e \<and>
             e \<le> byte_length (ctx_fullUtf8Text ctx) \<and>
             (segments_visible ctx \<longrightarrow> e = byte_length (ctx_fullUtf8Text ctx))"
    and "lines (textBlock (finish_layout ctx st)) \<noteq> []"
    and "sourceTextConcatenated (textBlock (finish_layout ctx st)) = ctx_fullUtf8Text ctx"
proof -
  let ?cps = "ctx_fullUtf8Text ctx"
  let ?start = "sourceTextByteStartIndexInBlockText (currentLineInfoTemplate st)"
  from inv obtain k j where k: "k \<le> length ?cps" and jk: "j \<le> k"
    and last: "lastU16BreakPos st = cp_pos ?cps k"
    and st: "?start = byte_length (take j ?cps)"
    and vis: "pendingLineElements st = [] \<and> segments_visible ctx \<longrightarrow> j = k"
    and bu: "block_upto (textBlock st) ?start"
    and src: "sourceTextConcatenated (textBlock st) = ?cps"
    unfolding loop_inv_def by blast
  have sle: "?start \<le> byte_length ?cps" unfolding st by (rule byte_length_take_le)
  have "(\<exists>e. block_upto (textBlock (finish_layout ctx st)) e \<and>
             e \<le> byte_length ?cps \<and> (segments_visible ctx \<longrightarrow> e = byte_length ?cps)) \<and>
        lines (textBlock (finish_layout ctx st)) \<noteq> [] \<and>
        sourceTextConcatenated (textBlock (finish_layout ctx st)) = ?cps"
  proof (cases "pendingLineElements st \<noteq> [] \<or> lines (textBlock st) = []")
    case True
    have z: "?start = 0" if "lines (textBlock st) = []"
      using bu that by (simp add: block_upto_def)
    from True z have ns: "\<not> finalize_skips (textBlock st) (pendingLineElements st)
                            (currentLineInfoTemplate st) (byte_length ?cps)"
      by (auto simp: finalize_skips_def)
    have f: "textBlock (finish_layout ctx st) =
               fst (finalizeCurrentLine (ctx_env ctx) (textBlock st) (pendingLineElements st)
                      (currentLineInfoTemplate st) (currentLineCommittedWidth st)
                      (currentLineMaxAscent st) (currentLineMaxDescent st) (currentLineBoxTopY st)
                      (isFirstLineOfParagraph st) (ctx_paragraphStyle ctx) (ctx_paraDefaultMetrics ctx)
                      (ctx_paraDefFontSize ctx) (byte_length ?cps) (overallMaxVisualLineWidth st))"
      using True by (simp add: finish_layout_def src)
    have "block_upto (textBlock (finish_layout ctx st)) (byte_length ?cps)"
      unfolding f by (rule block_upto_push [OF bu ns sle])
    then show ?thesis
      unfolding f using src by (auto simp: finalizeCurrentLine_pushed [OF ns])
  next
    case False
    then have f: "finish_layout ctx st = st" by (simp add: finish_layout_def)
    have "?start = byte_length ?cps" if v: "segments_visible ctx"
    proof -
      from False v vis have "j = k" by simp
      have "\<not> k < length ?cps"
      proof
        assume "k < length ?cps"
        then have "cp_pos ?cps k < cp_pos ?cps (length ?cps)" by (intro cp_pos_strict) simp_all
        with pos last A1 show False by (simp add: cp_pos_def)
      qed
      with k have "k = length ?cps" by simp
      with \<open>j = k\<close> st show ?thesis by simp
    qed
    with bu sle False src show ?thesis unfolding f by auto
  qed
  then show "\<exists>e. block_upto (textBlock (finish_layout ctx st)) e \<and>
             e \<le> byte_length ?cps \<and> (segments_visible ctx \<longrightarrow> e = byte_length ?cps)"
    and "lines (textBlock (finish_layout ctx st)) \<noteq> []"
    and "sourceTextConcatenated (textBlock (finish_layout ctx st)) = ?cps"
    by blast+
qed

lemma make_layout_ctx_text:
  "ctx_fullUtf8Text (make_layout_ctx env s spans p) = concat (map text_to_process spans)"
  "ctx_fullU16Text (make_layout_ctx env s spans p) =
     Utf8ToUtf16 (ctx_fullUtf8Text (make_layout_ctx env s spans p))"
  by (simp_all add: make_layout_ctx_def Let_def)

lemma Utf8ToUtf16_empty: "Utf8ToUtf16 cps = [] \<longleftrightarrow> cps = []"
  using utf16_units_nonempty by (cases cps) (auto simp: Utf8ToUtf16_Cons)

lemma text_to_process_scalar:
  assumes "\<forall>sp \<in> set spans. \<forall>c \<in> set (span_text sp). scalar_value c"
  shows "\<forall>c \<in> set (concat (map text_to_process spans)). scalar_value c"
  using assms by (auto simp: text_to_process_def scalar_value_def split: if_splits)

lemma initial_loop_inv:
  assumes "lines tb = []" and "elements tb = []"
    and "sourceTextConcatenated tb = ctx_fullUtf8Text ctx"
  shows "loop_inv ctx (initial_loop_state ctx tb)"
  unfolding loop_inv_def
  using assms
  apply (intro conjI)
    apply (simp add: block_upto_def)
   apply simp
  apply (rule exI [of _ 0], rule exI [of _ 0])
  apply simp
  done

lemma empty_spans_block_fields:
  "lines (empty_spans_block tb p dm sz) =
     [LineLayoutInfo_default
        \<lparr>maxContentAscent := ascent dm, maxContentDescent := descent dm,
         lineBoxHeight := calculateLineBoxHeight p dm (ascent dm) (descent dm) sz,
         baselineYInBox := baselineYInBox_of p (calculateLineBoxHeight p dm (ascent dm) (descent dm) sz)
                             (ascent dm) (descent dm)\<rparr>]"
  "elements (empty_spans_block tb p dm sz) = elements tb"
  "sourceTextConcatenated (empty_spans_block tb p dm sz) = sourceTextConcatenated tb"
  by (simp_all add: empty_spans_block_def Let_def baselineYInBox_of_def)

text \<open>
  C2, amended. When FreeType is initialised, the ICU set-up of the call succeeds, the span
  texts are well-formed (Unicode scalar values) and the break iterator has no boundary inside
  a surrogate pair, the block that \<open>LayoutStyledText\<close> returns has at least one line, the
  element counts of its lines add up to the number of its elements, and the byte ranges of
  its lines are ordered, start at 0 and follow one another, each line starting where the
  previous one ends; the last range ends at or before the byte length of the text, and
  exactly at it when every non-empty segment of the text is shaped into at least one element.
\<close>

theorem LayoutStyledText_lines_partition:
  fixes env s spans p
  defines "tb \<equiv> LayoutStyledText env s spans p"
  assumes ft: "ftLibrary s" and icu: "icu_setup_ok env"
    and sc: "list_all (\<lambda>sp. list_all scalar_value (span_text sp)) spans"
    and al: "boundaries_aligned (make_layout_ctx env s spans p)"
  shows "sum_list (map numElementsInLine (lines tb)) = length (elements tb) \<and>
         lines tb \<noteq> [] \<and> lines_contiguous (lines tb) \<and>
         sourceTextByteEndIndexInBlockText (last (lines tb)) \<le> byte_length (sourceTextConcatenated tb) \<and>
         (segments_visible (make_layout_ctx env s spans p) \<longrightarrow>
          sourceTextByteEndIndexInBlockText (last (lines tb)) = byte_length (sourceTextConcatenated tb))"
proof (cases "spans = []")
  case True
  then have "tb = empty_spans_block
      \<lparr>elements = [], lines = [], overallBounds = (0, 0, 0, 0),
                 paragraphStyleUsed = p, sourceTextConcatenated = [],
                 sourceSpansCopied = spans\<rparr> p
      (ctx_paraDefaultMetrics (make_layout_ctx env s spans p))
      (ctx_paraDefFontSize (make_layout_ctx env s spans p))"
    using ft by (simp add: tb_def LayoutStyledText_def Let_def)
  then show ?thesis
    by (simp add: empty_spans_block_fields lines_contiguous_def LineLayoutInfo_default_def)
next
  case False
  let ?ctx = "make_layout_ctx env s spans p"
  let ?tb1 = "\<lparr>elements = [], lines = [], overallBounds = (0, 0, 0, 0),
                 paragraphStyleUsed = p, sourceTextConcatenated = ctx_fullUtf8Text ?ctx,
                 sourceSpansCopied = spans\<rparr>"
  let ?st = "finish_layout ?ctx (layout_loop ?ctx (initial_loop_state ?ctx ?tb1))"
  have A1: "ctx_fullU16Text ?ctx = Utf8ToUtf16 (ctx_fullUtf8Text ?ctx)"
    by (rule make_layout_ctx_text)
  have A2: "\<forall>c \<in> set (ctx_fullUtf8Text ?ctx). scalar_value c"
    unfolding make_layout_ctx_text(1) using sc by (intro text_to_process_scalar) (simp add: list_all_iff)
  have ne: "\<not> (ctx_fullU16Text ?ctx = [] \<and> ctx_fullUtf8Text ?ctx \<noteq> [])"
    unfolding A1 by (simp add: Utf8ToUtf16_empty)
  have tb: "tb = block_with_bounds ?ctx ?st"
    using ft icu False ne unfolding tb_def LayoutStyledText_def Let_def by auto
  have i0: "loop_inv ?ctx (initial_loop_state ?ctx ?tb1)"
    by (rule initial_loop_inv) simp_all
  from layout_loop_inv [OF A1 A2 al i0]
  have i1: "loop_inv ?ctx (layout_loop ?ctx (initial_loop_state ?ctx ?tb1))"
    and pos: "length (ctx_fullU16Text ?ctx)
                \<le> lastU16BreakPos (layout_loop ?ctx (initial_loop_state ?ctx ?tb1))"
    by simp_all
  from finish_layout_inv [OF A1 i1 pos] obtain e
    where bu: "block_upto (textBlock ?st) e"
      and le: "e \<le> byte_length (ctx_fullUtf8Text ?ctx)"
      and vis: "segments_visible ?ctx \<longrightarrow> e = byte_length (ctx_fullUtf8Text ?ctx)"
      and nl: "lines (textBlock ?st) \<noteq> []"
      and src: "sourceTextConcatenated (textBlock ?st) = ctx_fullUtf8Text ?ctx"
    by blast
  from block_upto_contiguous [OF bu] nl le vis src
  show ?thesis unfolding tb by simp
qed

section \<open>The two lines of a text with a hard newline\<close>

lemma mono_ctx_len: "length (ctx_fullU16Text (make_layout_ctx mono_env s ab_nl_cd_spans p)) = 5"
  by (simp add: mono_ctx_fields)

lemma u8_prefixes:
  "Utf16ToUtf8_length [] = 0"
  "Utf16ToUtf8_length [97, 98] = 2"
  "Utf16ToUtf8_length [97, 98, 10] = 3"
  by (simp_all add: Utf16ToUtf8_length_def is_lead_def is_trail_def utf8_len_def)

lemma mono_body_ab:
  assumes z: "lastU16BreakPos st = 0"
  shows "layout_body (make_layout_ctx mono_env s ab_nl_cd_spans p) st =
           ((commit_segment (make_layout_ctx mono_env s ab_nl_cd_spans p) st 0
               (shapeSegment (make_layout_ctx mono_env s ab_nl_cd_spans p) 0 2))\<lparr>lastU16BreakPos := 2\<rparr>,
            False)"
proof -
  let ?ctx = "make_layout_ctx mono_env s ab_nl_cd_spans p"
  have l: "lastU16BreakPos st < length (ctx_fullU16Text ?ctx)"
    by (simp add: mono_ctx_fields z)
  have n: "10 \<notin> set (take (nat (ubrk_following (is_boundary (ctx_env ?ctx)) (length (ctx_fullU16Text ?ctx))
                                  (lastU16BreakPos st)) - lastU16BreakPos st)
                         (drop (lastU16BreakPos st) (ctx_fullU16Text ?ctx)))"
    by (simp only: mono_ctx_len mono_ctx_fields(1) z following_mono) (simp add: mono_ctx_fields)
  show ?thesis
    unfolding layout_body_no_newline [OF l n]
    by (simp only: mono_ctx_len mono_ctx_fields(1) z following_mono)
       (simp add: mono_ctx_fields u8_prefixes)
qed

lemma mono_body_nl:
  assumes z: "lastU16BreakPos st = 2"
  shows "layout_body (make_layout_ctx mono_env s ab_nl_cd_spans p) st =
           ((start_new_line (make_layout_ctx mono_env s ab_nl_cd_spans p)
               (finalize_pending (make_layout_ctx mono_env s ab_nl_cd_spans p)
                  (commit_segment (make_layout_ctx mono_env s ab_nl_cd_spans p) st 2
                     (shapeSegment (make_layout_ctx mono_env s ab_nl_cd_spans p) 2 0)) 3) 3)
            \<lparr>lastU16BreakPos := 3\<rparr>, False)"
proof -
  let ?ctx = "make_layout_ctx mono_env s ab_nl_cd_spans p"
  have l: "lastU16BreakPos st < length (ctx_fullU16Text ?ctx)"
    by (simp add: mono_ctx_fields z)
  have n: "10 \<in> set (take (nat (ubrk_following (is_boundary (ctx_env ?ctx)) (length (ctx_fullU16Text ?ctx))
                                  (lastU16BreakPos st)) - lastU16BreakPos st)
                         (drop (lastU16BreakPos st) (ctx_fullU16Text ?ctx)))"
    by (simp only: mono_ctx_len mono_ctx_fields(1) z following_mono) (simp add: mono_ctx_fields)
  show ?thesis
    unfolding layout_body_newline [OF l n]
    by (simp only: z) (simp add: mono_ctx_fields u8_prefixes)
qed

lemma mono_body_cd:
  assumes z: "lastU16BreakPos st = 3"
  shows "layout_body (make_layout_ctx mono_env s ab_nl_cd_spans p) st =
           ((commit_segment (make_layout_ctx mono_env s ab_nl_cd_spans p) st 3
               (shapeSegment (make_layout_ctx mono_env s ab_nl_cd_spans p) 3 2))\<lparr>lastU16BreakPos := 5\<rparr>,
            False)"
proof -
  let ?ctx = "make_layout_ctx mono_env s ab_nl_cd_spans p"
  have l: "lastU16BreakPos st < length (ctx_fullU16Text ?ctx)"
    by (simp add: mono_ctx_fields z)
  have n: "10 \<notin> set (take (nat (ubrk_following (is_boundary (ctx_env ?ctx)) (length (ctx_fullU16Text ?ctx))
                                  (lastU16BreakPos st)) - lastU16BreakPos st)
                         (drop (lastU16BreakPos st) (ctx_fullU16Text ?ctx)))"
    by (simp only: mono_ctx_len mono_ctx_fields(1) z following_mono) (simp add: mono_ctx_fields)
  show ?thesis
    unfolding layout_body_no_newline [OF l n]
    by (simp only: mono_ctx_len mono_ctx_fields(1) z following_mono)
       (simp add: mono_ctx_fields u8_prefixes)
qed

lemma layout_loop_step:
  assumes "lastU16BreakPos st < length (ctx_fullU16Text ctx)"
    and "layout_body ctx st = (st', False)"
  shows "layout_loop ctx st = layout_loop ctx st'"
  using assms by (subst layout_loop.simps) auto

lemma layout_loop_done:
  assumes "length (ctx_fullU16Text ctx) \<le> lastU16BreakPos st" and "ctx_fullU16Text ctx \<noteq> []"
  shows "layout_loop ctx st = st"
  using assms by (subst layout_loop.simps) auto

lemma mono_layout_loop:
  assumes z: "lastU16BreakPos st = 0"
  shows "layout_loop (make_layout_ctx mono_env s ab_nl_cd_spans p) st =
     (commit_segment (make_layout_ctx mono_env s ab_nl_cd_spans p)
        ((start_new_line (make_layout_ctx mono_env s ab_nl_cd_spans p)
            (finalize_pending (make_layout_ctx mono_env s ab_nl_cd_spans p)
               ((commit_segment (make_layout_ctx mono_env s ab_nl_cd_spans p) st 0
                   (shapeSegment (make_layout_ctx mono_env s ab_nl_cd_spans p) 0 2))
                \<lparr>lastU16BreakPos := 2\<rparr>) 3) 3)
         \<lparr>lastU16BreakPos := 3\<rparr>) 3
        (shapeSegment (make_layout_ctx mono_env s ab_nl_cd_spans p) 3 2))\<lparr>lastU16BreakPos := 5\<rparr>"
proof -
  let ?ctx = "make_layout_ctx mono_env s ab_nl_cd_spans p"
  let ?st1 = "(commit_segment ?ctx st 0 (shapeSegment ?ctx 0 2))\<lparr>lastU16BreakPos := 2\<rparr>"
  let ?st2 = "(start_new_line ?ctx (finalize_pending ?ctx ?st1 3) 3)\<lparr>lastU16BreakPos := 3\<rparr>"
  let ?st3 = "(commit_segment ?ctx ?st2 3 (shapeSegment ?ctx 3 2))\<lparr>lastU16BreakPos := 5\<rparr>"
  have c0: "commit_segment ?ctx ?st1 2 (shapeSegment ?ctx 2 0) = ?st1"
    by (rule commit_segment_nothing) simp_all
  have "layout_loop ?ctx st = layout_loop ?ctx ?st1"
    by (rule layout_loop_step [OF _ mono_body_ab [OF z]]) (simp add: mono_ctx_len z)
  also have "\<dots> = layout_loop ?ctx ?st2"
    using mono_body_nl [of ?st1 s p] unfolding c0
    by (intro layout_loop_step) (simp_all add: mono_ctx_len)
  also have "\<dots> = layout_loop ?ctx ?st3"
    by (rule layout_loop_step [OF _ mono_body_cd]) (simp_all add: mono_ctx_len)
  also have "\<dots> = ?st3"
    by (rule layout_loop_done) (simp_all add: mono_ctx_fields)
  finally show ?thesis .
qed

lemma no_wrap_without_width:
  "wrapWidth (ctx_paragraphStyle ctx) \<le> 0 \<Longrightarrow> \<not> wrap_before_segment ctx st seg"
  by (simp add: wrap_before_segment_def Let_def)

lemma mono_loop_fields:
  fixes s p tb
  defines "ctx \<equiv> make_layout_ctx mono_env s ab_nl_cd_spans p"
  defines "r \<equiv> layout_loop ctx (initial_loop_state ctx tb)"
  assumes w: "wrapWidth p \<le> 0" and lt: "lines tb = []" and src: "sourceTextConcatenated tb = ab_nl_cd"
  shows "map (\<lambda>l. (sourceTextByteStartIndexInBlockText l, sourceTextByteEndIndexInBlockText l,
                    numElementsInLine l))
           (lines (textBlock r)) =
         [(0, 3, length (elements_for_this_segment (shapeSegment ctx 0 2)))]"
    and "pendingLineElements r = elements_for_this_segment (shapeSegment ctx 3 2)"
    and "sourceTextByteStartIndexInBlockText (currentLineInfoTemplate r) = 3"
    and "sourceTextConcatenated (textBlock r) = ab_nl_cd"
proof -
  let ?st0 = "initial_loop_state ctx tb"
  let ?st1 = "(commit_segment ctx ?st0 0 (shapeSegment ctx 0 2))\<lparr>lastU16BreakPos := 2\<rparr>"
  let ?st2 = "(start_new_line ctx (finalize_pending ctx ?st1 3) 3)\<lparr>lastU16BreakPos := 3\<rparr>"
  let ?st3 = "(commit_segment ctx ?st2 3 (shapeSegment ctx 3 2))\<lparr>lastU16BreakPos := 5\<rparr>"
  have r: "r = ?st3"
    unfolding r_def ctx_def by (rule mono_layout_loop) simp
  have nw: "\<not> wrap_before_segment ctx st seg" for st seg
    using w by (intro no_wrap_without_width) (simp add: ctx_def mono_ctx_fields)
  note U = commit_segment_unwrapped [OF nw]
  have ns: "\<not> finalize_skips (textBlock ?st1) (pendingLineElements ?st1) (currentLineInfoTemplate ?st1) 3"
    by (simp add: finalize_skips_def U)
  note P = finalizeCurrentLine_pushed [OF ns]
  have t3: "textBlock ?st3 = textBlock (finalize_pending ctx ?st1 3)" by (simp add: U)
  show "map (\<lambda>l. (sourceTextByteStartIndexInBlockText l, sourceTextByteEndIndexInBlockText l,
                    numElementsInLine l))
           (lines (textBlock r)) =
         [(0, 3, length (elements_for_this_segment (shapeSegment ctx 0 2)))]"
    unfolding r t3 finalize_pending_fields P(1) using lt by (simp add: U)
  show "pendingLineElements r = elements_for_this_segment (shapeSegment ctx 3 2)"
    unfolding r by (simp add: U)
  show "sourceTextByteStartIndexInBlockText (currentLineInfoTemplate r) = 3"
    unfolding r by (simp add: U)
  show "sourceTextConcatenated (textBlock r) = ab_nl_cd"
    unfolding r t3 finalize_pending_fields P(3) using src by (simp add: U)
qed

lemma ab_nl_cd_spans_nonempty: "ab_nl_cd_spans \<noteq> []"
  by (simp add: ab_nl_cd_spans_def)

lemma LayoutStyledText_mono:
  assumes "ftLibrary s"
  shows "LayoutStyledText mono_env s ab_nl_cd_spans p =
           block_with_bounds (make_layout_ctx mono_env s ab_nl_cd_spans p)
             (finish_layout (make_layout_ctx mono_env s ab_nl_cd_spans p)
                (layout_loop (make_layout_ctx mono_env s ab_nl_cd_spans p)
                   (initial_loop_state (make_layout_ctx mono_env s ab_nl_cd_spans p)
                      (empty_block p ab_nl_cd_spans ab_nl_cd))))"
  using assms
  by (simp add: LayoutStyledText_def Let_def mono_ctx_fields mono_env_fields ab_nl_cd_spans_nonempty
        empty_block_def)

lemma plain_paragraph_wrap: "wrapWidth plain_paragraph = 0"
  by (simp add: plain_paragraph_def)

lemma empty_block_fields [simp]:
  "lines (empty_block p spans t) = []"
  "elements (empty_block p spans t) = []"
  "sourceTextConcatenated (empty_block p spans t) = t"
  by (simp_all add: empty_block_def)

lemma two_lines_with_font:
  "map (\<lambda>l. (sourceTextByteStartIndexInBlockText l, sourceTextByteEndIndexInBlockText l,
              numElementsInLine l))
     (lines (LayoutStyledText mono_env one_font_engine ab_nl_cd_spans plain_paragraph)) =
   [(0, 3, 2), (3, 5, 2)]"
proof -
  let ?ctx = "make_layout_ctx mono_env one_font_engine ab_nl_cd_spans plain_paragraph"
  let ?r = "layout_loop ?ctx (initial_loop_state ?ctx (empty_block plain_paragraph ab_nl_cd_spans ab_nl_cd))"
  note F = mono_loop_fields [of plain_paragraph "empty_block plain_paragraph ab_nl_cd_spans ab_nl_cd"
             one_font_engine, simplified plain_paragraph_wrap empty_block_fields, simplified]
  have e: "elements_for_this_segment (shapeSegment ?ctx start 2) =
             [mono_glyph 0 1 16 0, mono_glyph 10 1 16 0]" for start
    by (simp add: mono_shapeSegment [OF one_font_valid] upt_rec)
  have pn: "pendingLineElements ?r \<noteq> []" unfolding F(2) e by simp
  then have ns: "\<not> finalize_skips (textBlock ?r) (pendingLineElements ?r) (currentLineInfoTemplate ?r) 5"
    by (simp add: finalize_skips_def)
  have fin: "finish_layout ?ctx ?r = finalize_pending ?ctx ?r 5"
    using pn by (simp add: finish_layout_def F(4) byte_length_ab_nl_cd)
  show ?thesis
    unfolding LayoutStyledText_mono [OF one_font_engine_fields(4)] block_with_bounds_fields fin
      finalize_pending_fields finalizeCurrentLine_pushed(1) [OF ns]
    using F(1) F(2) F(3) by (simp add: e)
qed

lemma one_line_without_font:
  "map (\<lambda>l. (sourceTextByteStartIndexInBlockText l, sourceTextByteEndIndexInBlockText l,
              numElementsInLine l))
     (lines (LayoutStyledText mono_env (new_engine True) ab_nl_cd_spans plain_paragraph)) =
   [(0, 3, 0)]"
  "sourceTextConcatenated (LayoutStyledText mono_env (new_engine True) ab_nl_cd_spans plain_paragraph)
     = ab_nl_cd"
proof -
  let ?ctx = "make_layout_ctx mono_env (new_engine True) ab_nl_cd_spans plain_paragraph"
  let ?r = "layout_loop ?ctx (initial_loop_state ?ctx (empty_block plain_paragraph ab_nl_cd_spans ab_nl_cd))"
  note F = mono_loop_fields [of plain_paragraph "empty_block plain_paragraph ab_nl_cd_spans ab_nl_cd"
             "new_engine True", simplified plain_paragraph_wrap empty_block_fields, simplified]
  have nf: "loadedFonts (new_engine True) = Map.empty" by (simp add: new_engine_def)
  have ft: "ftLibrary (new_engine True)" by (simp add: new_engine_def)
  have e: "elements_for_this_segment (shapeSegment ?ctx start len) = []" for start len
    by (rule mono_shapeSegment_no_font [OF nf])
  have pn: "pendingLineElements ?r = []" unfolding F(2) e by simp
  have ln: "lines (textBlock ?r) \<noteq> []" using F(1) by auto
  have fin: "finish_layout ?ctx ?r = ?r"
    using pn ln by (simp add: finish_layout_def)
  show "map (\<lambda>l. (sourceTextByteStartIndexInBlockText l, sourceTextByteEndIndexInBlockText l,
              numElementsInLine l))
     (lines (LayoutStyledText mono_env (new_engine True) ab_nl_cd_spans plain_paragraph)) =
   [(0, 3, 0)]"
    unfolding LayoutStyledText_mono [OF ft] block_with_bounds_fields fin
    using F(1) by (simp add: e)
  show "sourceTextConcatenated (LayoutStyledText mono_env (new_engine True) ab_nl_cd_spans plain_paragraph)
       = ab_nl_cd"
    unfolding LayoutStyledText_mono [OF ft] block_with_bounds_fields fin by (rule F(4))
qed

lemma mono_boundaries_aligned:
  "boundaries_aligned (make_layout_ctx mono_env s ab_nl_cd_spans p)"
  unfolding boundaries_aligned_def mono_ctx_fields
  by (auto simp: mono_env_def is_trail_def)

lemma mono_segments_visible:
  "segments_visible (make_layout_ctx mono_env one_font_engine ab_nl_cd_spans p)"
  unfolding segments_visible_def
  by (simp add: mono_shapeSegment [OF one_font_valid])

lemma ab_nl_cd_scalar: "list_all (\<lambda>sp. list_all scalar_value (span_text sp)) ab_nl_cd_spans"
  by (simp add: ab_nl_cd_spans_def ab_nl_cd_def scalar_value_def)

lemma icu_failure_block:
  "lines (LayoutStyledText (mono_env\<lparr>icu_setup_ok := False\<rparr>) one_font_engine ab_nl_cd_spans plain_paragraph) = []"
  "sourceTextConcatenated
     (LayoutStyledText (mono_env\<lparr>icu_setup_ok := False\<rparr>) one_font_engine ab_nl_cd_spans plain_paragraph)
   = ab_nl_cd"
  by (simp_all add: LayoutStyledText_def Let_def make_layout_ctx_text one_font_engine_fields
        ab_nl_cd_spans_nonempty Utf8ToUtf16_empty)
     (simp_all add: ab_nl_cd_spans_def text_to_process_def plain_style_def)

text \<open>
  C2, as stated, fails. With FreeType initialised but no font loaded, every run of \<open>ab\<close>,
  newline, \<open>cd\<close> is skipped: the newline finalizes an empty line for the bytes 0 to 3, and
  the pending line after it has no element, so it is not finalized after the loop. The block
  has one line, and the bytes 3 to 5 of its text are in no line. And when the ICU set-up
  fails, the block that is returned holds the 5 bytes of text and no line at all.
\<close>

theorem text_after_last_newline_in_no_line:
  "ftLibrary (new_engine True) \<and> icu_setup_ok mono_env \<and>
   byte_length (sourceTextConcatenated
     (LayoutStyledText mono_env (new_engine True) ab_nl_cd_spans plain_paragraph)) = 5 \<and>
   map (\<lambda>l. (sourceTextByteStartIndexInBlockText l, sourceTextByteEndIndexInBlockText l))
     (lines (LayoutStyledText mono_env (new_engine True) ab_nl_cd_spans plain_paragraph)) = [(0, 3)] \<and>
   ftLibrary one_font_engine \<and>
   byte_length (sourceTextConcatenated
     (LayoutStyledText (mono_env\<lparr>icu_setup_ok := False\<rparr>) one_font_engine ab_nl_cd_spans plain_paragraph)) = 5 \<and>
   lines (LayoutStyledText (mono_env\<lparr>icu_setup_ok := False\<rparr>) one_font_engine ab_nl_cd_spans plain_paragraph) = []"
proof -
  have "map (\<lambda>l. (sourceTextByteStartIndexInBlockText l, sourceTextByteEndIndexInBlockText l))
     (lines (LayoutStyledText mono_env (new_engine True) ab_nl_cd_spans plain_paragraph)) =
     map (\<lambda>t. (fst t, fst (snd t)))
       (map (\<lambda>l. (sourceTextByteStartIndexInBlockText l, sourceTextByteEndIndexInBlockText l,
              numElementsInLine l))
         (lines (LayoutStyledText mono_env (new_engine True) ab_nl_cd_spans plain_paragraph)))"
    by (simp add: comp_def)
  then have rng: "map (\<lambda>l. (sourceTextByteStartIndexInBlockText l, sourceTextByteEndIndexInBlockText l))
     (lines (LayoutStyledText mono_env (new_engine True) ab_nl_cd_spans plain_paragraph)) = [(0, 3)]"
    unfolding one_line_without_font by simp
  have ft: "ftLibrary (new_engine True)" by (simp add: new_engine_def)
  show ?thesis
    using rng ft
    by (simp add: one_line_without_font(2) icu_failure_block byte_length_ab_nl_cd
          one_font_engine_fields mono_env_fields)
qed

text \<open>
  Scenario S2 with the Latin font loaded and no wrap width: two lines, for the bytes 0 to 3
  (the newline included) and 3 to 5, with two glyphs each; the block has four elements.
\<close>

theorem LayoutStyledText_lines_partition_witness:
  "ftLibrary one_font_engine \<and> icu_setup_ok mono_env \<and>
   list_all (\<lambda>sp. list_all scalar_value (span_text sp)) ab_nl_cd_spans \<and>
   boundaries_aligned (make_layout_ctx mono_env one_font_engine ab_nl_cd_spans plain_paragraph) \<and>
   segments_visible (make_layout_ctx mono_env one_font_engine ab_nl_cd_spans plain_paragraph) \<and>
   map (\<lambda>l. (sourceTextByteStartIndexInBlockText l, sourceTextByteEndIndexInBlockText l,
              numElementsInLine l))
     (lines (LayoutStyledText mono_env one_font_engine ab_nl_cd_spans plain_paragraph)) =
     [(0, 3, 2), (3, 5, 2)] \<and>
   length (elements (LayoutStyledText mono_env one_font_engine ab_nl_cd_spans plain_paragraph)) = 4 \<and>
   lines_contiguous (lines (LayoutStyledText mono_env one_font_engine ab_nl_cd_spans plain_paragraph)) \<and>
   byte_length (sourceTextConcatenated
     (LayoutStyledText mono_env one_font_engine ab_nl_cd_spans plain_paragraph)) = 5"
proof -
  let ?tb = "LayoutStyledText mono_env one_font_engine ab_nl_cd_spans plain_paragraph"
  note T = LayoutStyledText_lines_partition [OF one_font_engine_fields(4) mono_env_fields(1)
             ab_nl_cd_scalar mono_boundaries_aligned, of plain_paragraph]
  have n: "map numElementsInLine (lines ?tb) =
           map (\<lambda>t. snd (snd t))
             (map (\<lambda>l. (sourceTextByteStartIndexInBlockText l, sourceTextByteEndIndexInBlockText l,
                         numElementsInLine l)) (lines ?tb))"
    by (simp add: comp_def)
  have e: "map sourceTextByteEndIndexInBlockText (lines ?tb) =
           map (\<lambda>t. fst (snd t))
             (map (\<lambda>l. (sourceTextByteStartIndexInBlockText l, sourceTextByteEndIndexInBlockText l,
                         numElementsInLine l)) (lines ?tb))"
    by (simp add: comp_def)
  from T have s: "sum_list (map numElementsInLine (lines ?tb)) = length (elements ?tb)"
    and c: "lines_contiguous (lines ?tb)" and ne: "lines ?tb \<noteq> []"
    and l: "sourceTextByteEndIndexInBlockText (last (lines ?tb)) = byte_length (sourceTextConcatenated ?tb)"
    using mono_segments_visible by simp_all
  from s have len: "length (elements ?tb) = 4" unfolding n two_lines_with_font by simp
  from ne have "sourceTextByteEndIndexInBlockText (last (lines ?tb)) =
                last (map sourceTextByteEndIndexInBlockText (lines ?tb))"
    by (simp add: last_map)
  with l have bl: "byte_length (sourceTextConcatenated ?tb) = 5"
    unfolding e two_lines_with_font by simp
  show ?thesis
    using len c bl two_lines_with_font mono_segments_visible mono_boundaries_aligned ab_nl_cd_scalar
      one_font_engine_fields(4) mono_env_fields(1)
    by simp
qed

end
